(* ===== verification/Prelude.thy ===== *)
theory Prelude
  imports Main "HOL-Library.Word" "HOL-Library.Char_ord"
begin

text \<open>
  Shared vocabulary of the development: the machine integers of the code, the
  iterator idioms several components use (first match, in-place update of the first
  match, first minimum by a key) and the generic facts about lists, options and maps
  that the component proofs rely on.

  A Rust \<open>String\<close> is a HOL \<open>string\<close> holding the bytes of its UTF-8 encoding (a HOL
  \<open>char\<close> is one byte). A \<open>HashMap\<close> is a map \<open>'k \<rightharpoonup> 'v\<close>; where the code iterates over
  one, the iteration order, which Rust leaves open, is an explicit argument.
\<close>

type_synonym u8 = "8 word"
type_synonym u16 = "16 word"
type_synonym u32 = "32 word"

text \<open>Instants of the wall clock, in nanoseconds since the epoch.\<close>
type_synonym timestamp = int

named_theorems handler_defs \<open>definitions of the operations of a component\<close>
named_theorems map_facts \<open>lookups after updates and deletions of maps\<close>

section \<open>Saturating arithmetic on u16\<close>

definition saturating_add_u16 :: "u16 \<Rightarrow> u16 \<Rightarrow> u16" where
  "saturating_add_u16 a b = (if unat a + unat b \<le> 65535 then a + b else 65535)"

lemma unat_u16_le: "unat (a :: u16) \<le> 65535"
proof -
  have "unat a < 2 ^ 16" using unsigned_less [of a] by simp
  then show ?thesis by simp
qed

lemma unat_saturating_add_u16:
  "unat (saturating_add_u16 a b) = min 65535 (unat a + unat b)"
  by (auto simp: saturating_add_u16_def unat_word_ariths)

section \<open>Iterator idioms\<close>

text \<open>\<open>iter().find(p)\<close> is \<open>List.find\<close>; \<open>iter_mut().find(p)\<close> followed by a write to the
  element found is \<open>update_first\<close>.\<close>

fun update_first :: "('a \<Rightarrow> bool) \<Rightarrow> ('a \<Rightarrow> 'a) \<Rightarrow> 'a list \<Rightarrow> 'a list" where
  "update_first p f [] = []"
| "update_first p f (x # xs) = (if p x then f x # xs else x # update_first p f xs)"

lemma length_update_first [simp]: "length (update_first p f xs) = length xs"
  by (induction xs) auto

lemma update_first_absent: "\<forall>x \<in> set xs. \<not> p x \<Longrightarrow> update_first p f xs = xs"
  by (induction xs) auto

lemma map_update_first:
  "(\<And>x. g (f x) = g x) \<Longrightarrow> map g (update_first p f xs) = map g xs"
  by (induction xs) auto

lemma set_update_first_subset: "set (update_first p f xs) \<subseteq> set xs \<union> f ` set xs"
  by (induction xs) auto

lemma find_update_first:
  assumes "\<And>x. p (f x) = p x"
  shows "List.find p (update_first p f xs) = map_option f (List.find p xs)"
  using assms by (induction xs) auto

lemma find_update_first_other:
  assumes "\<And>x. q (f x) = q x" and "\<And>x. p x \<Longrightarrow> \<not> q x"
  shows "List.find q (update_first p f xs) = List.find q xs"
  using assms by (induction xs) auto

text \<open>\<open>min_by_key\<close>: the first element whose key is least.\<close>

fun min_by_key :: "('a \<Rightarrow> nat) \<Rightarrow> 'a list \<Rightarrow> 'a option" where
  "min_by_key k [] = None"
| "min_by_key k (x # xs) =
     (case min_by_key k xs of
        None \<Rightarrow> Some x
      | Some y \<Rightarrow> if k x \<le> k y then Some x else Some y)"

lemma min_by_key_None [simp]: "min_by_key k xs = None \<longleftrightarrow> xs = []"
  by (cases xs) (auto split: option.splits)

lemma min_by_key_in: "min_by_key k xs = Some x \<Longrightarrow> x \<in> set xs"
  by (induction xs arbitrary: x) (auto split: option.splits if_splits)

lemma min_by_key_least: "min_by_key k xs = Some x \<Longrightarrow> y \<in> set xs \<Longrightarrow> k x \<le> k y"
  by (induction xs arbitrary: x) (auto split: option.splits if_splits)

section \<open>Maps\<close>

lemma map_delete_lookup [map_facts]:
  "(m(k := None)) k' = (if k' = k then None else m k')"
  by simp

lemma dom_delete [map_facts]: "dom (m(k := None)) = dom m - {k}"
  by auto

lemma dom_insert [map_facts]: "dom (m(k \<mapsto> v)) = insert k (dom m)"
  by auto

text \<open>The values of a map in an iteration order: \<open>values()\<close> of a \<open>HashMap\<close>.\<close>

definition values_in :: "('k \<rightharpoonup> 'v) \<Rightarrow> 'k list \<Rightarrow> 'v list" where
  "values_in m order = List.map_filter m order"

text \<open>A list of keys is an iteration order of a map when it visits every entry once.\<close>

definition iteration_order :: "('k \<rightharpoonup> 'v) \<Rightarrow> 'k list \<Rightarrow> bool" where
  "iteration_order m order \<longleftrightarrow> distinct order \<and> set order = dom m"

lemma set_map_filter: "set (List.map_filter f xs) = {y. \<exists>x \<in> set xs. f x = Some y}"
  by (induction xs) (auto simp: List.map_filter_simps split: option.splits)

lemma set_values_in:
  "iteration_order m order \<Longrightarrow> set (values_in m order) = ran m"
  by (auto simp: values_in_def iteration_order_def set_map_filter ran_def)

lemma length_values_in:
  assumes "iteration_order m order"
  shows "length (values_in m order) = card (dom m)"
proof -
  have "length (List.map_filter m xs) = length xs" if "set xs \<subseteq> dom m" for xs
    using that by (induction xs) (auto simp: List.map_filter_simps split: option.splits)
  then show ?thesis
    using assms by (auto simp: values_in_def iteration_order_def distinct_card [symmetric])
qed

end
