(* ===== verification/Rust_Text.thy ===== *)
theory Rust_Text
  imports Prelude
begin

text \<open>
  The string methods of Rust's standard library that the program uses, on the bytes of a
  string: splitting, trimming, prefixes, decimal and hexadecimal formatting, and
  \<open>u16::from_str\<close>. Each follows the documented behaviour of the method it is named
  after; the lemmas are the ones the components' round trips rest on.
\<close>

section \<open>Splitting\<close>

fun split_once :: "char \<Rightarrow> string \<Rightarrow> (string \<times> string) option" where
  "split_once c [] = None"
| "split_once c (x # xs) =
     (if x = c then Some ([], xs)
      else map_option (\<lambda>(a, b). (x # a, b)) (split_once c xs))"

fun rsplit_once :: "char \<Rightarrow> string \<Rightarrow> (string \<times> string) option" where
  "rsplit_once c [] = None"
| "rsplit_once c (x # xs) =
     (case rsplit_once c xs of
        Some (a, b) \<Rightarrow> Some (x # a, b)
      | None \<Rightarrow> if x = c then Some ([], xs) else None)"

fun split_on :: "char \<Rightarrow> string \<Rightarrow> string list" where
  "split_on c [] = [[]]"
| "split_on c (x # xs) =
     (if x = c then [] # split_on c xs
      else (case split_on c xs of [] \<Rightarrow> [[x]] | p # ps \<Rightarrow> (x # p) # ps))"

lemma split_once_None [simp]: "split_once c s = None \<longleftrightarrow> c \<notin> set s"
  by (induction s) auto

lemma split_once_append [simp]:
  "c \<notin> set a \<Longrightarrow> split_once c (a @ c # b) = Some (a, b)"
  by (induction a) auto

lemma split_once_Some:
  "split_once c s = Some (a, b) \<longleftrightarrow> s = a @ c # b \<and> c \<notin> set a"
proof
  show "split_once c s = Some (a, b) \<Longrightarrow> s = a @ c # b \<and> c \<notin> set a"
    by (induction s arbitrary: a) (auto split: if_splits)
qed auto

lemma rsplit_once_None [simp]: "rsplit_once c s = None \<longleftrightarrow> c \<notin> set s"
  by (induction s) (auto split: option.splits)

lemma rsplit_once_append [simp]:
  "c \<notin> set b \<Longrightarrow> rsplit_once c (a @ c # b) = Some (a, b)"
proof (induction a)
  case Nil
  then have "rsplit_once c b = None" by simp
  then show ?case by (simp del: rsplit_once_None)
qed simp

lemma rsplit_once_Some:
  "rsplit_once c s = Some (a, b) \<longleftrightarrow> s = a @ c # b \<and> c \<notin> set b"
proof
  show "rsplit_once c s = Some (a, b) \<Longrightarrow> s = a @ c # b \<and> c \<notin> set b"
  proof (induction s arbitrary: a b)
    case (Cons x s)
    show ?case
    proof (cases "rsplit_once c s")
      case None
      with Cons.prems have "x = c" "a = []" "b = s" by (auto split: if_splits)
      moreover from None have "c \<notin> set s" by simp
      ultimately show ?thesis by simp
    next
      case (Some p)
      obtain a' b' where p: "p = (a', b')" by (cases p)
      with Some Cons.prems have "a = x # a'" "b = b'" by auto
      with Cons.IH [of a' b'] Some p show ?thesis by auto
    qed
  qed simp
qed auto

lemma split_on_not_Nil [simp]: "split_on c s \<noteq> []"
  by (induction s) (auto split: list.splits)

lemma split_on_single [simp]: "c \<notin> set s \<Longrightarrow> split_on c s = [s]"
  by (induction s) auto

lemma split_on_append [simp]:
  "c \<notin> set a \<Longrightarrow> split_on c (a @ c # b) = a # split_on c b"
  by (induction a) auto

section \<open>Prefixes, replacement and case\<close>

definition strip_prefix :: "string \<Rightarrow> string \<Rightarrow> string option" where
  "strip_prefix p s = (if take (length p) s = p then Some (drop (length p) s) else None)"

lemma strip_prefix_append [simp]: "strip_prefix p (p @ s) = Some s"
  by (simp add: strip_prefix_def)

lemma strip_prefix_Some: "strip_prefix p s = Some r \<longleftrightarrow> s = p @ r"
  by (auto simp: strip_prefix_def) (metis append_take_drop_id)

definition trim_start_matches :: "char \<Rightarrow> string \<Rightarrow> string" where
  "trim_start_matches c s = dropWhile (\<lambda>x. x = c) s"

definition trim_end_matches :: "char \<Rightarrow> string \<Rightarrow> string" where
  "trim_end_matches c s = rev (dropWhile (\<lambda>x. x = c) (rev s))"

definition replace_char :: "char \<Rightarrow> string \<Rightarrow> string \<Rightarrow> string" where
  "replace_char c r s = concat (map (\<lambda>x. if x = c then r else [x]) s)"

lemma replace_char_Nil [simp]: "replace_char c r [] = []"
  and replace_char_Cons [simp]:
    "replace_char c r (x # s) = (if x = c then r else [x]) @ replace_char c r s"
  by (simp_all add: replace_char_def)

abbreviation byte :: "char \<Rightarrow> nat" where
  "byte c \<equiv> of_char c"

lemma byte_less [simp]: "byte c < 256"
  using of_char_eq_iff by simp

definition ascii_lower :: "char \<Rightarrow> char" where
  "ascii_lower c = (if CHR ''A'' \<le> c \<and> c \<le> CHR ''Z'' then char_of (byte c + 32) else c)"

definition eq_ignore_ascii_case :: "string \<Rightarrow> string \<Rightarrow> bool" where
  "eq_ignore_ascii_case a b \<longleftrightarrow> map ascii_lower a = map ascii_lower b"

section \<open>White space\<close>

text \<open>The UTF-8 encodings of the characters with the Unicode property \<open>White_Space\<close>.\<close>

definition white_space :: "string list" where
  "white_space =
     [[CHR 0x09], [CHR 0x0A], [CHR 0x0B], [CHR 0x0C], [CHR 0x0D], [CHR 0x20],
      [CHR 0xC2, CHR 0x85], [CHR 0xC2, CHR 0xA0], [CHR 0xE1, CHR 0x9A, CHR 0x80]] @
     map (\<lambda>c. [CHR 0xE2, CHR 0x80, c])
       [CHR 0x80, CHR 0x81, CHR 0x82, CHR 0x83, CHR 0x84, CHR 0x85, CHR 0x86, CHR 0x87,
        CHR 0x88, CHR 0x89, CHR 0x8A, CHR 0xA8, CHR 0xA9, CHR 0xAF] @
     [[CHR 0xE2, CHR 0x81, CHR 0x9F], [CHR 0xE3, CHR 0x80, CHR 0x80]]"

text \<open>The first bytes, and the last bytes, of these encodings.\<close>

definition space_leads :: "char list" where
  "space_leads = [CHR 0x09, CHR 0x0A, CHR 0x0B, CHR 0x0C, CHR 0x0D, CHR 0x20, CHR 0xC2,
     CHR 0xE1, CHR 0xE2, CHR 0xE3]"

definition space_lasts :: "char list" where
  "space_lasts = [CHR 0x09, CHR 0x0A, CHR 0x0B, CHR 0x0C, CHR 0x0D, CHR 0x20, CHR 0x85,
     CHR 0xA0, CHR 0x80, CHR 0x81, CHR 0x82, CHR 0x83, CHR 0x84, CHR 0x86, CHR 0x87,
     CHR 0x88, CHR 0x89, CHR 0x8A, CHR 0xA8, CHR 0xA9, CHR 0xAF, CHR 0x9F]"

definition space_head :: "string \<Rightarrow> string option" where
  "space_head s = List.find (\<lambda>w. take (length w) s = w) white_space"

definition space_tail :: "string \<Rightarrow> string option" where
  "space_tail s = List.find (\<lambda>w. take (length w) (rev s) = rev w) white_space"

lemma white_space_shape:
  "\<forall>w \<in> set white_space. w \<noteq> [] \<and> hd w \<in> set space_leads \<and> last w \<in> set space_lasts"
  by (simp add: white_space_def space_leads_def space_lasts_def)

lemma white_space_not_Nil: "w \<in> set white_space \<Longrightarrow> w \<noteq> []"
  using white_space_shape by blast

lemma space_head_None:
  assumes "x \<notin> set space_leads"
  shows "space_head (x # s) = None"
proof -
  have "take (length w) (x # s) \<noteq> w" if "w \<in> set white_space" for w
  proof -
    from that white_space_shape have "w \<noteq> []" "hd w \<in> set space_leads" by blast+
    with assms show ?thesis by (cases w) auto
  qed
  then show ?thesis by (auto simp: space_head_def find_None_iff)
qed

lemma space_tail_None:
  assumes "x \<notin> set space_lasts"
  shows "space_tail (s @ [x]) = None"
proof -
  have "take (length w) (x # rev s) \<noteq> rev w" if "w \<in> set white_space" for w
  proof -
    from that white_space_shape have "w \<noteq> []" "last w \<in> set space_lasts" by blast+
    with assms show ?thesis by (cases w rule: rev_cases) auto
  qed
  then show ?thesis by (auto simp: space_tail_def find_None_iff)
qed

lemma space_head_Nil [simp]: "space_head [] = None"
  and space_tail_Nil [simp]: "space_tail [] = None"
  using white_space_not_Nil by (auto simp: space_head_def space_tail_def find_None_iff)

lemma space_head_Some:
  assumes "space_head s = Some w"
  shows "w \<noteq> [] \<and> w \<in> set white_space \<and> s = w @ drop (length w) s"
proof -
  from assms have w: "w \<in> set white_space" "take (length w) s = w"
    by (auto simp: space_head_def find_Some_iff)
  with white_space_not_Nil show ?thesis by (metis append_take_drop_id)
qed

lemma space_tail_Some: "space_tail s = Some w \<Longrightarrow> w \<noteq> [] \<and> s \<noteq> []"
  using white_space_not_Nil by (auto simp: space_tail_def find_Some_iff)

function trim_start :: "string \<Rightarrow> string" where
  "trim_start s =
     (case space_head s of None \<Rightarrow> s | Some w \<Rightarrow> trim_start (drop (length w) s))"
  by pat_completeness auto
termination
proof (relation "measure length", goal_cases)
  case (2 s w)
  with space_head_Some [of s w] show ?case
    by (cases s; cases w) auto
qed simp

function trim_end :: "string \<Rightarrow> string" where
  "trim_end s =
     (case space_tail s of None \<Rightarrow> s | Some w \<Rightarrow> trim_end (take (length s - length w) s))"
  by pat_completeness auto
termination
proof (relation "measure length", goal_cases)
  case (2 s w)
  with space_tail_Some [of s w] show ?case
    by (cases s; cases w) auto
qed simp

declare trim_start.simps [simp del] trim_end.simps [simp del]

definition trim :: "string \<Rightarrow> string" where
  "trim s = trim_end (trim_start s)"

lemma trim_start_id: "space_head s = None \<Longrightarrow> trim_start s = s"
  by (simp add: trim_start.simps)

lemma trim_end_id: "space_tail s = None \<Longrightarrow> trim_end s = s"
  by (simp add: trim_end.simps)

lemma space_head_trim_start: "space_head (trim_start s) = None"
proof (induction s rule: trim_start.induct)
  case (1 s)
  then show ?case
    by (cases "space_head s") (auto simp: trim_start.simps [of s])
qed

lemma space_tail_trim_end: "space_tail (trim_end s) = None"
proof (induction s rule: trim_end.induct)
  case (1 s)
  then show ?case
    by (cases "space_tail s") (auto simp: trim_end.simps [of s])
qed

text \<open>A line feed at the end of a string is trimmed; what is before it is not when it
  starts and ends with other characters.\<close>

abbreviation newline :: char where
  "newline \<equiv> CHR 0x0A"

lemma space_tail_newline: "space_tail (s @ [newline]) = Some [newline]"
  by (simp add: space_tail_def white_space_def)

lemma trim_end_newline: "trim_end (s @ [newline]) = trim_end s"
  by (subst trim_end.simps) (simp add: space_tail_newline)

lemma trim_line:
  assumes "x \<notin> set space_leads" and "y \<notin> set space_lasts"
  shows "trim (x # s @ [y]) = x # s @ [y]"
    and "trim (x # s @ [y, newline]) = x # s @ [y]"
proof -
  have t: "space_tail (x # s @ [y]) = None"
    using space_tail_None [OF assms(2), of "x # s"] by simp
  show "trim (x # s @ [y]) = x # s @ [y]"
    by (simp add: trim_def trim_start_id space_head_None [OF assms(1)] trim_end_id t)
  show "trim (x # s @ [y, newline]) = x # s @ [y]"
    using trim_end_newline [of "x # s @ [y]"]
    by (simp add: trim_def trim_start_id space_head_None [OF assms(1)] trim_end_id t)
qed

text \<open>\<open>split_whitespace\<close>: the maximal pieces free of white space.\<close>

fun take_token :: "string \<Rightarrow> string \<times> string" where
  "take_token [] = ([], [])"
| "take_token (x # xs) =
     (if space_head (x # xs) \<noteq> None then ([], x # xs)
      else (let (a, b) = take_token xs in (x # a, b)))"

lemma take_token_append: "take_token s = (a, b) \<Longrightarrow> s = a @ b"
  by (induction s arbitrary: a) (auto split: if_splits prod.splits)

lemma length_take_token: "length (snd (take_token s)) \<le> length s"
  using take_token_append [of s "fst (take_token s)" "snd (take_token s)"]
  by (metis le_add2 length_append prod.collapse)

function split_whitespace :: "string \<Rightarrow> string list" where
  "split_whitespace s =
     (case space_head s of
        Some w \<Rightarrow> split_whitespace (drop (length w) s)
      | None \<Rightarrow>
          (case s of
             [] \<Rightarrow> []
           | x # xs \<Rightarrow>
               (x # fst (take_token xs)) # split_whitespace (snd (take_token xs))))"
  by pat_completeness auto
termination
proof (relation "measure length", goal_cases)
  case (2 s x xs)
  with length_take_token [of xs] show ?case by simp
next
  case (3 s w)
  with space_head_Some [of s w] show ?case by (cases s; cases w) auto
qed simp

declare split_whitespace.simps [simp del]

section \<open>Decimal numbers\<close>

definition digit_char :: "nat \<Rightarrow> char" where
  "digit_char d = char_of (48 + d)"

fun show_nat :: "nat \<Rightarrow> string" where
  "show_nat n =
     (if n < 10 then [digit_char n] else show_nat (n div 10) @ [digit_char (n mod 10)])"

declare show_nat.simps [simp del]

abbreviation show_u16 :: "u16 \<Rightarrow> string" where
  "show_u16 p \<equiv> show_nat (unat p)"

definition digit_val :: "char \<Rightarrow> nat option" where
  "digit_val c = (if 48 \<le> byte c \<and> byte c \<le> 57 then Some (byte c - 48) else None)"

fun parse_digits :: "nat \<Rightarrow> string \<Rightarrow> nat option" where
  "parse_digits acc [] = Some acc"
| "parse_digits acc (c # cs) =
     (case digit_val c of None \<Rightarrow> None | Some d \<Rightarrow> parse_digits (acc * 10 + d) cs)"

text \<open>\<open>str::parse::<u16>\<close>: one optional plus sign, at least one digit, no overflow.\<close>

definition parse_u16 :: "string \<Rightarrow> u16 option" where
  "parse_u16 s =
     (let digits = (case s of CHR ''+'' # d # ds \<Rightarrow> d # ds | _ \<Rightarrow> s)
      in if s = [] then None
         else (case parse_digits 0 digits of
                 None \<Rightarrow> None
               | Some n \<Rightarrow> if n \<le> 65535 then Some (of_nat n) else None))"

lemma digit_val_digit_char [simp]: "d < 10 \<Longrightarrow> digit_val (digit_char d) = Some d"
  by (simp add: digit_val_def digit_char_def)

lemma byte_digit_char [simp]: "d < 10 \<Longrightarrow> byte (digit_char d) = 48 + d"
  by (simp add: digit_char_def)

lemma show_nat_bytes: "c \<in> set (show_nat n) \<Longrightarrow> 48 \<le> byte c \<and> byte c \<le> 57"
proof (induction n rule: show_nat.induct)
  case (1 n)
  then show ?case
    by (cases "n < 10") (auto simp: show_nat.simps [of n])
qed

lemma show_nat_not_Nil [simp]: "show_nat n \<noteq> []"
  by (subst show_nat.simps) simp

lemma not_in_show_nat: "byte c < 48 \<or> 57 < byte c \<Longrightarrow> c \<notin> set (show_nat n)"
  using show_nat_bytes [of c n] by auto

lemma colon_not_in_show_nat [simp]: "CHR '':'' \<notin> set (show_nat n)"
  by (rule not_in_show_nat) simp

lemma parse_digits_append:
  "parse_digits acc (xs @ ys) = Option.bind (parse_digits acc xs) (\<lambda>a. parse_digits a ys)"
  by (induction xs arbitrary: acc) (auto split: option.splits)

lemma parse_digits_show_nat: "parse_digits 0 (show_nat n) = Some n"
proof (induction n rule: show_nat.induct)
  case (1 n)
  then show ?case
    by (cases "n < 10") (auto simp: show_nat.simps [of n] parse_digits_append)
qed

lemma parse_u16_show [simp]: "parse_u16 (show_u16 p) = Some p"
proof -
  have "hd (show_u16 p) \<noteq> CHR ''+''"
    using show_nat_bytes [of "hd (show_u16 p)" "unat p"] by (auto dest: arg_cong [of _ _ byte])
  then have "(case show_u16 p of CHR ''+'' # d # ds \<Rightarrow> d # ds | _ \<Rightarrow> show_u16 p) = show_u16 p"
    by (cases "show_u16 p") (auto split: list.splits char.splits bool.splits)
  then show ?thesis
    using unat_u16_le [of p] by (simp add: parse_u16_def parse_digits_show_nat Let_def)
qed

section \<open>Hexadecimal digits of a byte\<close>

definition hex_digit_lower :: "nat \<Rightarrow> char" where
  "hex_digit_lower d = (if d < 10 then char_of (48 + d) else char_of (87 + d))"

definition hex_digit_upper :: "nat \<Rightarrow> char" where
  "hex_digit_upper d = (if d < 10 then char_of (48 + d) else char_of (55 + d))"

text \<open>\<open>{byte:02x}\<close> and \<open>{byte:02X}\<close>.\<close>

definition hex2_lower :: "char \<Rightarrow> string" where
  "hex2_lower c = [hex_digit_lower (byte c div 16), hex_digit_lower (byte c mod 16)]"

definition hex2_upper :: "char \<Rightarrow> string" where
  "hex2_upper c = [hex_digit_upper (byte c div 16), hex_digit_upper (byte c mod 16)]"

end
