(* ===== verification/Rust_Utf8.thy ===== *)
theory Rust_Utf8
  imports Rust_Text
begin

text \<open>
  UTF-8 validation and \<open>String::from_utf8_lossy\<close>: the decoder of the standard library
  reads one character at a time; an ill-formed sequence is consumed up to its longest
  well-formed prefix (the maximal subpart of the Unicode standard) and becomes one
  replacement character U+FFFD.
\<close>

definition continuation :: "char \<Rightarrow> bool" where
  "continuation c \<longleftrightarrow> 128 \<le> byte c \<and> byte c \<le> 191"

text \<open>The length of a longer sequence by its first byte; 0 for a byte that starts none.\<close>

definition utf8_width :: "nat \<Rightarrow> nat" where
  "utf8_width b =
     (if 194 \<le> b \<and> b \<le> 223 then 2
      else if 224 \<le> b \<and> b \<le> 239 then 3 else if 240 \<le> b \<and> b \<le> 244 then 4 else 0)"

definition second_ok :: "nat \<Rightarrow> nat \<Rightarrow> bool" where
  "second_ok b c \<longleftrightarrow>
     (if b = 224 then 160 \<le> c \<and> c \<le> 191
      else if b = 237 then 128 \<le> c \<and> c \<le> 159
      else if b = 240 then 144 \<le> c \<and> c \<le> 191
      else if b = 244 then 128 \<le> c \<and> c \<le> 143
      else 128 \<le> c \<and> c \<le> 191)"

text \<open>How many bytes the next character, or the next ill-formed sequence, takes.\<close>

fun utf8_next :: "string \<Rightarrow> nat \<times> bool" where
  "utf8_next [] = (0, True)"
| "utf8_next (x # xs) =
     (let w = utf8_width (byte x) in
      if byte x < 128 then (1, True)
      else if w = 0 then (1, False)
      else (case xs of
          [] \<Rightarrow> (1, False)
        | y # ys \<Rightarrow>
            if \<not> second_ok (byte x) (byte y) then (1, False)
            else if w = 2 then (2, True)
            else (case ys of
                [] \<Rightarrow> (2, False)
              | z # zs \<Rightarrow>
                  if \<not> continuation z then (2, False)
                  else if w = 3 then (3, True)
                  else (case zs of
                      [] \<Rightarrow> (3, False)
                    | u # us \<Rightarrow> if continuation u then (4, True) else (3, False)))))"

lemma utf8_next_bounds:
  "s \<noteq> [] \<Longrightarrow> 0 < fst (utf8_next s) \<and> fst (utf8_next s) \<le> length s"
  by (cases s) (auto simp: Let_def split: list.splits)

lemma utf8_next_shorter: "s \<noteq> [] \<Longrightarrow> length s - fst (utf8_next s) < length s"
  using utf8_next_bounds [of s] by simp

lemma utf8_next_take:
  assumes "utf8_next s = (n, True)" and "s \<noteq> []"
  shows "utf8_next (take n s @ t) = (n, True)"
  using assms by (cases s) (auto simp: Let_def split: list.splits if_splits)

definition replacement_char :: string where
  "replacement_char = [CHR 0xEF, CHR 0xBF, CHR 0xBD]"

function from_utf8_lossy :: "string \<Rightarrow> string" where
  "from_utf8_lossy s =
     (if s = [] then []
      else (if snd (utf8_next s) then take (fst (utf8_next s)) s else replacement_char) @
           from_utf8_lossy (drop (fst (utf8_next s)) s))"
  by pat_completeness auto
termination
  by (relation "measure length") (simp_all add: utf8_next_shorter)

function valid_utf8 :: "string \<Rightarrow> bool" where
  "valid_utf8 s \<longleftrightarrow>
     (if s = [] then True
      else snd (utf8_next s) \<and> valid_utf8 (drop (fst (utf8_next s)) s))"
  by pat_completeness auto
termination
  by (relation "measure length") (simp_all add: utf8_next_shorter)

declare from_utf8_lossy.simps [simp del] valid_utf8.simps [simp del]

lemma valid_utf8_Nil [simp]: "valid_utf8 []"
  and lossy_Nil [simp]: "from_utf8_lossy [] = []"
  by (subst valid_utf8.simps, simp) (subst from_utf8_lossy.simps, simp)

lemma valid_utf8_chunk:
  assumes "utf8_next s = (n, True)" and "s \<noteq> []"
  shows "valid_utf8 (take n s @ t) \<longleftrightarrow> valid_utf8 t"
proof -
  have n: "0 < n" "n \<le> length s"
    using utf8_next_bounds [OF assms(2)] assms(1) by auto
  then show ?thesis
    using utf8_next_take [OF assms, of t] assms(2)
    by (auto simp: valid_utf8.simps [of "take n s @ t"])
qed

lemma utf8_next_replacement: "utf8_next (replacement_char @ t) = (3, True)"
  by (simp add: replacement_char_def utf8_width_def second_ok_def continuation_def Let_def)

lemma valid_utf8_replacement: "valid_utf8 (replacement_char @ t) \<longleftrightarrow> valid_utf8 t"
  using valid_utf8.simps [of "replacement_char @ t"] utf8_next_replacement [of t]
  by (simp add: replacement_char_def)

lemma valid_utf8_lossy: "valid_utf8 (from_utf8_lossy s)"
proof (induction s rule: from_utf8_lossy.induct)
  case (1 s)
  show ?case
  proof (cases "s = []")
    case False
    obtain n ok where n: "utf8_next s = (n, ok)" by (cases "utf8_next s")
    with 1 [OF False] False show ?thesis
      by (cases ok)
        (auto simp: from_utf8_lossy.simps [of s] valid_utf8_replacement valid_utf8_chunk)
  qed simp
qed

lemma lossy_valid: "valid_utf8 s \<Longrightarrow> from_utf8_lossy s = s"
proof (induction s rule: from_utf8_lossy.induct)
  case (1 s)
  show ?case
  proof (cases "s = []")
    case False
    with "1.prems" have v: "snd (utf8_next s)" "valid_utf8 (drop (fst (utf8_next s)) s)"
      by (auto simp: valid_utf8.simps [of s])
    with "1.IH" [OF False] False show ?thesis
      by (simp add: from_utf8_lossy.simps [of s])
  qed simp
qed

lemma lossy_eq_iff: "from_utf8_lossy s = s \<longleftrightarrow> valid_utf8 s"
  using lossy_valid valid_utf8_lossy by metis

text \<open>ASCII text is valid, and validity is compositional.\<close>

lemma utf8_next_ascii: "byte x < 128 \<Longrightarrow> utf8_next (x # s) = (1, True)"
  by (simp add: utf8_width_def)

lemma valid_utf8_Cons_ascii: "byte x < 128 \<Longrightarrow> valid_utf8 (x # s) \<longleftrightarrow> valid_utf8 s"
  using utf8_next_ascii [of x s] by (simp add: valid_utf8.simps [of "x # s"])

lemma valid_utf8_ascii: "\<forall>c \<in> set s. byte c < 128 \<Longrightarrow> valid_utf8 s"
  by (induction s) (auto simp: valid_utf8_Cons_ascii)

lemma valid_utf8_append: "valid_utf8 s \<Longrightarrow> valid_utf8 (s @ t) \<longleftrightarrow> valid_utf8 t"
proof (induction s rule: valid_utf8.induct)
  case (1 s)
  show ?case
  proof (cases "s = []")
    case False
    obtain n ok where n: "utf8_next s = (n, ok)" by (cases "utf8_next s")
    with "1.prems" False have ok: "ok" and v: "valid_utf8 (drop n s)"
      by (auto simp: valid_utf8.simps [of s])
    with n have n': "utf8_next s = (n, True)" by simp
    have "valid_utf8 (s @ t) \<longleftrightarrow> valid_utf8 (take n s @ (drop n s @ t))"
      by (simp flip: append_assoc)
    also have "\<dots> \<longleftrightarrow> valid_utf8 (drop n s @ t)"
      by (rule valid_utf8_chunk [OF n' False])
    also have "\<dots> \<longleftrightarrow> valid_utf8 t"
      using "1.IH" [of] False n v by (simp add: ok)
    finally show ?thesis .
  qed simp
qed

end
