(* ===== verification/Proto.thy ===== *)
theory Proto
  imports Rust_Utf8
begin

text \<open>
  \<open>crates/common/src/proto.rs\<close>: the messages of the control protocol, the JSON object
  each one serializes to, and the newline-delimited framing. The derived \<open>Serialize\<close>
  gives the shape (an internally tagged enum: the \<open>type\<close> field first, then the fields in
  declaration order, \<open>None\<close> as null); that shape is written out. Printing a JSON value
  and decoding a message from text belong to \<open>serde_json\<close>: they are a record of two
  functions (\<open>codec\<close>), and the locale \<open>wire_codec\<close> states what the program relies on.
\<close>

section \<open>Messages\<close>

datatype protocol = Tcp | Http

record register =
  rg_token :: string
  rg_protocol :: protocol
  rg_local_port :: u16
  rg_remote_port :: "u16 option"
  rg_node :: "string option"
  rg_hostname :: "string option"

record registered =
  rd_remote_port :: u16
  rd_node_host :: "string option"
  rd_node_port :: "u16 option"

record new_conn =
  nc_conn_id :: string
  nc_node_host :: "string option"
  nc_node_port :: "u16 option"

record data_conn =
  dc_conn_id :: string

record visitor_conn =
  vc_tunnel_id :: string
  vc_conn_id :: string

record register_node =
  rn_token :: string
  rn_name :: string
  rn_data_port :: u16

record node_registered =
  nr_node_id :: string

record open_tunnel =
  ot_tunnel_id :: string
  ot_remote_port :: u16

record close_tunnel =
  ct_tunnel_id :: string

record error_msg =
  em_reason :: string

datatype message =
    Register register
  | Registered registered
  | New_Conn new_conn
  | Data_Conn data_conn
  | Visitor_Conn visitor_conn
  | Register_Node register_node
  | Node_Registered node_registered
  | Open_Tunnel open_tunnel
  | Close_Tunnel close_tunnel
  | Error error_msg

section \<open>The serialized shape\<close>

datatype json =
    JNull
  | JBool bool
  | JNum nat
  | JStr string
  | JArr "json list"
  | JObj "(string \<times> json) list"

definition protocol_json :: "protocol \<Rightarrow> json" where
  "protocol_json p = JStr (case p of Tcp \<Rightarrow> ''tcp'' | Http \<Rightarrow> ''http'')"

definition port_json :: "u16 \<Rightarrow> json" where
  "port_json p = JNum (unat p)"

definition option_json :: "('a \<Rightarrow> json) \<Rightarrow> 'a option \<Rightarrow> json" where
  "option_json f x = (case x of None \<Rightarrow> JNull | Some a \<Rightarrow> f a)"

fun message_type :: "message \<Rightarrow> string" where
  "message_type (Register _) = ''register''"
| "message_type (Registered _) = ''registered''"
| "message_type (New_Conn _) = ''new_conn''"
| "message_type (Data_Conn _) = ''data_conn''"
| "message_type (Visitor_Conn _) = ''visitor_conn''"
| "message_type (Register_Node _) = ''register_node''"
| "message_type (Node_Registered _) = ''node_registered''"
| "message_type (Open_Tunnel _) = ''open_tunnel''"
| "message_type (Close_Tunnel _) = ''close_tunnel''"
| "message_type (Error _) = ''error''"

fun message_fields :: "message \<Rightarrow> (string \<times> json) list" where
  "message_fields (Register r) =
     [(''token'', JStr (rg_token r)),
      (''protocol'', protocol_json (rg_protocol r)),
      (''local_port'', port_json (rg_local_port r)),
      (''remote_port'', option_json port_json (rg_remote_port r)),
      (''node'', option_json JStr (rg_node r)),
      (''hostname'', option_json JStr (rg_hostname r))]"
| "message_fields (Registered r) =
     [(''remote_port'', port_json (rd_remote_port r)),
      (''node_host'', option_json JStr (rd_node_host r)),
      (''node_port'', option_json port_json (rd_node_port r))]"
| "message_fields (New_Conn r) =
     [(''conn_id'', JStr (nc_conn_id r)),
      (''node_host'', option_json JStr (nc_node_host r)),
      (''node_port'', option_json port_json (nc_node_port r))]"
| "message_fields (Data_Conn r) = [(''conn_id'', JStr (dc_conn_id r))]"
| "message_fields (Visitor_Conn r) =
     [(''tunnel_id'', JStr (vc_tunnel_id r)), (''conn_id'', JStr (vc_conn_id r))]"
| "message_fields (Register_Node r) =
     [(''token'', JStr (rn_token r)), (''name'', JStr (rn_name r)),
      (''data_port'', port_json (rn_data_port r))]"
| "message_fields (Node_Registered r) = [(''node_id'', JStr (nr_node_id r))]"
| "message_fields (Open_Tunnel r) =
     [(''tunnel_id'', JStr (ot_tunnel_id r)), (''remote_port'', port_json (ot_remote_port r))]"
| "message_fields (Close_Tunnel r) = [(''tunnel_id'', JStr (ct_tunnel_id r))]"
| "message_fields (Error r) = [(''reason'', JStr (em_reason r))]"

definition message_json :: "message \<Rightarrow> json" where
  "message_json m = JObj ((''type'', JStr (message_type m)) # message_fields m)"

text \<open>The strings of a message: a Rust \<open>String\<close> is valid UTF-8.\<close>

fun json_strings :: "json \<Rightarrow> string list" where
  "json_strings (JStr s) = [s]"
| "json_strings _ = []"

definition wf_message :: "message \<Rightarrow> bool" where
  "wf_message m \<longleftrightarrow>
     (\<forall>(k, v) \<in> set (message_fields m). \<forall>s \<in> set (json_strings v). valid_utf8 s)"

section \<open>Frames\<close>

record codec =
  json_print :: "json \<Rightarrow> string option"
  decode :: "string \<Rightarrow> message option"

definition to_line :: "codec \<Rightarrow> message \<Rightarrow> string option" where
  "to_line cd m = map_option (\<lambda>line. line @ [newline]) (json_print cd (message_json m))"

definition from_line :: "codec \<Rightarrow> string \<Rightarrow> message option" where
  "from_line cd line = decode cd (trim line)"

text \<open>
  What \<open>serde_json\<close> promises of compact output: serializing a message succeeds, the text
  is one JSON object on one line (control characters are escaped), in UTF-8, and decodes
  to the message. A field with \<open>#[serde(default)]\<close> or an optional type may be absent.
\<close>

definition old_register_json :: "register \<Rightarrow> json" where
  "old_register_json r =
     JObj [(''type'', JStr ''register''), (''token'', JStr (rg_token r)),
       (''protocol'', protocol_json (rg_protocol r)),
       (''local_port'', port_json (rg_local_port r)),
       (''remote_port'', option_json port_json (rg_remote_port r))]"

locale wire_codec =
  fixes cd :: codec
  assumes print_message:
      "wf_message m \<Longrightarrow> \<exists>body. json_print cd (message_json m) = Some (''{'' @ body @ ''}'') \<and>
         newline \<notin> set body \<and> valid_utf8 body"
    and decode_print:
      "wf_message m \<Longrightarrow> json_print cd (message_json m) = Some s \<Longrightarrow> decode cd s = Some m"
    and decode_old_register:
      "wf_message (Register r) \<Longrightarrow> json_print cd (old_register_json r) = Some s \<Longrightarrow>
         decode cd s = Some (Register (r\<lparr>rg_node := None, rg_hostname := None\<rparr>))"
begin

lemma brace_trim:
  "trim (''{'' @ body @ ''}'') = ''{'' @ body @ ''}''"
  "trim ((''{'' @ body @ ''}'') @ [newline]) = ''{'' @ body @ ''}''"
  using trim_line [of "CHR ''{''" "CHR ''}''" body]
  by (simp_all add: space_leads_def space_lasts_def)

lemma line_shape:
  assumes "wf_message m"
  obtains body where "to_line cd m = Some ((''{'' @ body @ ''}'') @ [newline])"
    and "newline \<notin> set (''{'' @ body @ ''}'')" and "valid_utf8 (''{'' @ body @ ''}'')"
    and "decode cd (''{'' @ body @ ''}'') = Some m"
proof -
  obtain body where body: "json_print cd (message_json m) = Some (''{'' @ body @ ''}'')"
    "newline \<notin> set body" "valid_utf8 body"
    using print_message [OF assms] by blast
  have "valid_utf8 (''{'' @ body @ ''}'')"
    using body(3) by (simp add: valid_utf8_Cons_ascii valid_utf8_append)
  with body decode_print [OF assms body(1)] show thesis
    by (intro that [of body]) (simp_all add: to_line_def)
qed

lemma line_roundtrip:
  assumes "wf_message m"
  shows "\<exists>line. to_line cd m = Some line \<and> from_line cd line = Some m"
proof -
  obtain body where "to_line cd m = Some ((''{'' @ body @ ''}'') @ [newline])"
    and "decode cd (''{'' @ body @ ''}'') = Some m"
    using line_shape [OF assms] by blast
  then show ?thesis unfolding from_line_def using brace_trim(2) [of body] by auto
qed

lemma line_without_newline:
  assumes "wf_message m" and "to_line cd m = Some (line @ [newline])"
  shows "newline \<notin> set line \<and> valid_utf8 line \<and> from_line cd line = Some m"
proof -
  obtain body where b: "to_line cd m = Some ((''{'' @ body @ ''}'') @ [newline])"
    "newline \<notin> set (''{'' @ body @ ''}'')" "valid_utf8 (''{'' @ body @ ''}'')"
    "decode cd (''{'' @ body @ ''}'') = Some m"
    using line_shape [OF assms(1)] by blast
  with assms(2) have "line = ''{'' @ body @ ''}''" by simp
  with b show ?thesis using brace_trim(1) [of body] by (simp add: from_line_def)
qed

end

section \<open>The shape determines the message\<close>

lemma protocol_json_inject [simp]: "protocol_json p = protocol_json q \<longleftrightarrow> p = q"
  by (cases p; cases q) (simp_all add: protocol_json_def)

lemma port_json_inject [simp]: "port_json p = port_json q \<longleftrightarrow> p = q"
  by (simp add: port_json_def word_unat_eq_iff)

lemma option_json_inject:
  assumes "\<And>a b. f a = f b \<longleftrightarrow> a = b" and "\<And>a. f a \<noteq> JNull"
  shows "option_json f x = option_json f y \<longleftrightarrow> x = y"
  using assms assms(2)[symmetric] by (auto simp: option_json_def split: option.splits)

lemma option_port_json_inject [simp]:
    "option_json port_json x = option_json port_json y \<longleftrightarrow> x = y"
  and option_str_json_inject [simp]: "option_json JStr s = option_json JStr t \<longleftrightarrow> s = t"
  using option_json_inject [of port_json x y] option_json_inject [of JStr s t]
  by (simp_all add: port_json_def word_unat_eq_iff)

text \<open>C40: no two different messages serialize to the same JSON object, so the tag and the
  fields on the wire identify the message.\<close>

theorem message_json_injective: "message_json m = message_json n \<longleftrightarrow> m = n"
proof
  assume eq: "message_json m = message_json n"
  then have t: "message_type m = message_type n" and f: "message_fields m = message_fields n"
    by (simp_all add: message_json_def)
  show "m = n"
    using t f by (cases m; cases n) (auto intro: register.equality registered.equality
      new_conn.equality data_conn.equality visitor_conn.equality register_node.equality
      node_registered.equality open_tunnel.equality close_tunnel.equality error_msg.equality)
qed simp

end
