(* ===== verification/Rendezvous.thy ===== *)
theory Rendezvous
  imports Proto
begin

text \<open>
  The rendezvous of visitors and data connections: the \<open>pending\<close> table of
  \<open>crates/server/src/control.rs\<close> (\<open>serve_tunnel\<close>, the spawned visitor task and
  \<open>handle_data_conn\<close>), and the same protocol in \<open>crates/node/src/main.rs\<close>
  (\<open>tunnel_accept_loop\<close>, \<open>handle_data_conn\<close>). The two differ in one point: a node aborts the
  task of a tunnel while it writes a notice, which the server never does; the step relation
  has a flag for it.

  A visitor gets a fresh connection id and a oneshot channel; the sender goes into the
  table under the id, the CLI is notified, and a task waits for the channel with a timeout.
  A data connection announces an id; its handler takes the sender out of the table and
  sends the socket through it. Sockets and channels are numbered; the channel of visitor
  \<open>v\<close> is \<open>v\<close>. Each operation below is one critical section or one channel operation, and
  the step relation interleaves them in any order.
\<close>

section \<open>State\<close>

type_synonym socket = nat

datatype visitor_phase =
    V_Notifying             \<comment> \<open>in the table; the notice is being written\<close>
  | V_Waiting               \<comment> \<open>the spawned task awaits the channel under the timeout\<close>
  | V_Expired               \<comment> \<open>timed out; about to remove its entry\<close>
  | V_Proxying socket       \<comment> \<open>spliced to a data socket\<close>
  | V_Done
  | V_Abandoned             \<comment> \<open>its task was aborted during the notice\<close>

record visitor =
  vs_conn_id :: string
  vs_inbox :: "socket option"
  vs_phase :: visitor_phase

datatype handler_phase =
    H_Reading               \<comment> \<open>reading the opening frame\<close>
  | H_Holding string socket \<comment> \<open>took the sender of this visitor under this id\<close>
  | H_Delivered string socket
  | H_Dropped

record rendezvous =
  rv_pending :: "string \<rightharpoonup> socket"
  rv_visitors :: "socket \<rightharpoonup> visitor"
  rv_handlers :: "socket \<rightharpoonup> handler_phase"

definition rv_new :: rendezvous where
  "rv_new = \<lparr>rv_pending = Map.empty, rv_visitors = Map.empty, rv_handlers = Map.empty\<rparr>"

section \<open>Operations\<close>

definition set_phase :: "socket \<Rightarrow> visitor_phase \<Rightarrow> rendezvous \<Rightarrow> rendezvous" where
  "set_phase v ph rv =
     (case rv_visitors rv v of
        None \<Rightarrow> rv
      | Some vs \<Rightarrow> rv\<lparr>rv_visitors := (rv_visitors rv)(v \<mapsto> vs\<lparr>vs_phase := ph\<rparr>)\<rparr>)"

definition remove_pending :: "string \<Rightarrow> rendezvous \<Rightarrow> rendezvous" where
  "remove_pending conn_id rv = rv\<lparr>rv_pending := (rv_pending rv)(conn_id := None)\<rparr>"

text \<open>A visitor is accepted: a new channel, its sender stored under the new id.\<close>

definition rv_accept :: "socket \<Rightarrow> string \<Rightarrow> rendezvous \<Rightarrow> rendezvous" where
  "rv_accept v conn_id rv =
     rv\<lparr>rv_pending := (rv_pending rv)(conn_id \<mapsto> v),
        rv_visitors := (rv_visitors rv)
          (v \<mapsto> \<lparr>vs_conn_id = conn_id, vs_inbox = None, vs_phase = V_Notifying\<rparr>)\<rparr>"

text \<open>The notice was written: the waiting task is spawned. It failed: the entry goes.\<close>

definition rv_notified :: "socket \<Rightarrow> rendezvous \<Rightarrow> rendezvous" where
  "rv_notified v rv = set_phase v V_Waiting rv"

definition rv_notify_failed :: "socket \<Rightarrow> rendezvous \<Rightarrow> rendezvous" where
  "rv_notify_failed v rv =
     (case rv_visitors rv v of
        None \<Rightarrow> rv
      | Some vs \<Rightarrow> set_phase v V_Done (remove_pending (vs_conn_id vs) rv))"

text \<open>The task is aborted while it writes the notice: the receiver is dropped, the entry is not
  removed.\<close>

definition rv_abandon :: "socket \<Rightarrow> rendezvous \<Rightarrow> rendezvous" where
  "rv_abandon v rv = set_phase v V_Abandoned rv"

text \<open>The waiting task: the channel delivered, the timeout fired, the entry is removed
  after a timeout, the spliced connection ended.\<close>

definition rv_receive :: "socket \<Rightarrow> rendezvous \<Rightarrow> rendezvous" where
  "rv_receive v rv =
     (case rv_visitors rv v of
        Some vs \<Rightarrow> (case vs_inbox vs of Some d \<Rightarrow> set_phase v (V_Proxying d) rv | None \<Rightarrow> rv)
      | None \<Rightarrow> rv)"

definition rv_timeout :: "socket \<Rightarrow> rendezvous \<Rightarrow> rendezvous" where
  "rv_timeout v rv = set_phase v V_Expired rv"

definition rv_expire :: "socket \<Rightarrow> rendezvous \<Rightarrow> rendezvous" where
  "rv_expire v rv =
     (case rv_visitors rv v of
        None \<Rightarrow> rv
      | Some vs \<Rightarrow> set_phase v V_Done (remove_pending (vs_conn_id vs) rv))"

definition rv_finish :: "socket \<Rightarrow> rendezvous \<Rightarrow> rendezvous" where
  "rv_finish v rv = set_phase v V_Done rv"

text \<open>The data port: a connection is accepted, its opening frame is read (\<open>None\<close>: no frame,
  or one that does not decode), the socket is sent through the sender it took.\<close>

definition rv_data_accept :: "socket \<Rightarrow> rendezvous \<Rightarrow> rendezvous" where
  "rv_data_accept d rv = rv\<lparr>rv_handlers := (rv_handlers rv)(d \<mapsto> H_Reading)\<rparr>"

definition rv_data_frame :: "socket \<Rightarrow> message option \<Rightarrow> rendezvous \<Rightarrow> rendezvous" where
  "rv_data_frame d frame rv =
     (case frame of
        Some (Data_Conn dc) \<Rightarrow>
          (case rv_pending rv (dc_conn_id dc) of
             Some v \<Rightarrow> (remove_pending (dc_conn_id dc) rv)
               \<lparr>rv_handlers := (rv_handlers rv)(d \<mapsto> H_Holding (dc_conn_id dc) v)\<rparr>
           | None \<Rightarrow> rv\<lparr>rv_handlers := (rv_handlers rv)(d \<mapsto> H_Dropped)\<rparr>)
      | _ \<Rightarrow> rv\<lparr>rv_handlers := (rv_handlers rv)(d \<mapsto> H_Dropped)\<rparr>)"

text \<open>The receiver lives until its visitor's task has stopped waiting.\<close>

definition receiver_alive :: "visitor \<Rightarrow> bool" where
  "receiver_alive vs \<longleftrightarrow> vs_phase vs = V_Notifying \<or> vs_phase vs = V_Waiting"

definition rv_data_send :: "socket \<Rightarrow> rendezvous \<Rightarrow> rendezvous" where
  "rv_data_send d rv =
     (case rv_handlers rv d of
        Some (H_Holding conn_id v) \<Rightarrow>
          (case rv_visitors rv v of
             Some vs \<Rightarrow>
               if receiver_alive vs then
                 rv\<lparr>rv_visitors := (rv_visitors rv)(v \<mapsto> vs\<lparr>vs_inbox := Some d\<rparr>),
                    rv_handlers := (rv_handlers rv)(d \<mapsto> H_Delivered conn_id v)\<rparr>
               else rv\<lparr>rv_handlers := (rv_handlers rv)(d \<mapsto> H_Dropped)\<rparr>
           | None \<Rightarrow> rv)
      | _ \<Rightarrow> rv)"

lemmas rv_defs =
  rv_accept_def rv_notified_def rv_notify_failed_def rv_receive_def rv_timeout_def
  rv_expire_def rv_finish_def rv_data_accept_def rv_data_frame_def rv_data_send_def rv_abandon_def
  set_phase_def remove_pending_def receiver_alive_def

section \<open>Steps\<close>

text \<open>The sender of a visitor's channel is in the table or in the hand of a handler.\<close>

definition sender_lost :: "rendezvous \<Rightarrow> socket \<Rightarrow> bool" where
  "sender_lost rv v \<longleftrightarrow>
     v \<notin> ran (rv_pending rv) \<and> (\<forall>d c. rv_handlers rv d \<noteq> Some (H_Holding c v))"

definition id_used :: "rendezvous \<Rightarrow> string \<Rightarrow> bool" where
  "id_used rv c \<longleftrightarrow> (\<exists>v vs. rv_visitors rv v = Some vs \<and> vs_conn_id vs = c)"

text \<open>A connection id is a UUID never drawn before (\<open>\<not> id_used\<close>). The timeout may fire when a
  socket was delivered since the channel was last polled; that socket is dropped with it.\<close>

inductive rv_step :: "bool \<Rightarrow> rendezvous \<Rightarrow> rendezvous \<Rightarrow> bool" for aborts where
  accept: "rv_visitors rv v = None \<Longrightarrow> \<not> id_used rv c \<Longrightarrow> rv_step aborts rv (rv_accept v c rv)"
| notified: "rv_visitors rv v = Some vs \<Longrightarrow> vs_phase vs = V_Notifying \<Longrightarrow>
    rv_step aborts rv (rv_notified v rv)"
| notify_failed: "rv_visitors rv v = Some vs \<Longrightarrow> vs_phase vs = V_Notifying \<Longrightarrow>
    rv_step aborts rv (rv_notify_failed v rv)"
| receive: "rv_visitors rv v = Some vs \<Longrightarrow> vs_phase vs = V_Waiting \<Longrightarrow>
    vs_inbox vs = Some d \<Longrightarrow> rv_step aborts rv (rv_receive v rv)"
| timeout: "rv_visitors rv v = Some vs \<Longrightarrow> vs_phase vs = V_Waiting \<Longrightarrow>
    rv_step aborts rv (rv_timeout v rv)"
| expire: "rv_visitors rv v = Some vs \<Longrightarrow> vs_phase vs = V_Expired \<Longrightarrow>
    rv_step aborts rv (rv_expire v rv)"
| finish: "rv_visitors rv v = Some vs \<Longrightarrow> vs_phase vs = V_Proxying d \<Longrightarrow>
    rv_step aborts rv (rv_finish v rv)"
| data_accept: "rv_handlers rv d = None \<Longrightarrow> rv_step aborts rv (rv_data_accept d rv)"
| data_frame: "rv_handlers rv d = Some H_Reading \<Longrightarrow> rv_step aborts rv (rv_data_frame d frame rv)"
| data_send: "rv_handlers rv d = Some (H_Holding c v) \<Longrightarrow> rv_step aborts rv (rv_data_send d rv)"
| abandon: "aborts \<Longrightarrow> rv_visitors rv v = Some vs \<Longrightarrow> vs_phase vs = V_Notifying \<Longrightarrow>
    rv_step aborts rv (rv_abandon v rv)"

inductive rv_reachable :: "bool \<Rightarrow> rendezvous \<Rightarrow> bool" for aborts where
  start: "rv_reachable aborts rv_new"
| step: "rv_reachable aborts rv \<Longrightarrow> rv_step aborts rv rv' \<Longrightarrow> rv_reachable aborts rv'"

section \<open>Invariant\<close>

text \<open>
  An entry of the table belongs to a visitor still without a socket, whose sender is not
  held by a handler; a held sender is not in the table, and held once; a socket in a
  channel was delivered there by its own handler under the visitor's id; a spliced socket
  is the one in the channel; a waiting visitor's sender exists somewhere.
\<close>

definition ids_distinct :: "rendezvous \<Rightarrow> bool" where
  "ids_distinct rv \<longleftrightarrow> (\<forall>v w vs ws. rv_visitors rv v = Some vs \<longrightarrow> rv_visitors rv w = Some ws \<longrightarrow>
     vs_conn_id vs = vs_conn_id ws \<longrightarrow> v = w)"

definition pending_ok :: "rendezvous \<Rightarrow> bool" where
  "pending_ok rv \<longleftrightarrow> (\<forall>c v. rv_pending rv c = Some v \<longrightarrow>
     (\<exists>vs. rv_visitors rv v = Some vs \<and> vs_conn_id vs = c \<and> vs_inbox vs = None \<and>
        vs_phase vs \<in> {V_Notifying, V_Waiting, V_Expired, V_Abandoned}) \<and>
     (\<forall>d c'. rv_handlers rv d \<noteq> Some (H_Holding c' v)))"

definition holding_ok :: "rendezvous \<Rightarrow> bool" where
  "holding_ok rv \<longleftrightarrow> (\<forall>d c v. rv_handlers rv d = Some (H_Holding c v) \<longrightarrow>
     (\<exists>vs. rv_visitors rv v = Some vs \<and> vs_conn_id vs = c \<and> vs_inbox vs = None \<and>
        (\<forall>s. vs_phase vs \<noteq> V_Proxying s)) \<and>
     (\<forall>d' c'. rv_handlers rv d' = Some (H_Holding c' v) \<longrightarrow> d' = d))"

definition inbox_ok :: "rendezvous \<Rightarrow> bool" where
  "inbox_ok rv \<longleftrightarrow> (\<forall>v vs. rv_visitors rv v = Some vs \<longrightarrow>
     (\<forall>d. vs_inbox vs = Some d \<longrightarrow> rv_handlers rv d = Some (H_Delivered (vs_conn_id vs) v)) \<and>
     (\<forall>d. vs_phase vs = V_Proxying d \<longrightarrow> vs_inbox vs = Some d))"

definition sender_ok :: "rendezvous \<Rightarrow> bool" where
  "sender_ok rv \<longleftrightarrow> (\<forall>v vs. rv_visitors rv v = Some vs \<longrightarrow> receiver_alive vs \<longrightarrow>
     vs_inbox vs = None \<longrightarrow>
     rv_pending rv (vs_conn_id vs) = Some v \<or>
     (\<exists>d. rv_handlers rv d = Some (H_Holding (vs_conn_id vs) v)))"

definition rv_inv :: "rendezvous \<Rightarrow> bool" where
  "rv_inv rv \<longleftrightarrow> ids_distinct rv \<and> pending_ok rv \<and> holding_ok rv \<and> inbox_ok rv \<and> sender_ok rv"

lemmas rv_inv_defs =
  rv_inv_def ids_distinct_def pending_ok_def holding_ok_def inbox_ok_def sender_ok_def

lemma rv_inv_new: "rv_inv rv_new"
  by (simp add: rv_inv_defs rv_new_def)

lemma ids_distinct_step: "rv_step aborts rv rv' \<Longrightarrow> ids_distinct rv \<Longrightarrow> ids_distinct rv'"
  by (induction rule: rv_step.induct)
    (auto simp: ids_distinct_def rv_defs id_used_def split: option.splits handler_phase.splits
      message.splits if_splits)

lemma pending_fresh: "pending_ok rv \<Longrightarrow> \<not> id_used rv c \<Longrightarrow> rv_pending rv c = None"
  by (cases "rv_pending rv c") (auto simp: pending_ok_def id_used_def)

lemmas rv_splits = option.splits message.splits handler_phase.splits if_splits

text \<open>The invariants as rules.\<close>

lemma pending_visitor:
  assumes "pending_ok rv" and "rv_pending rv c = Some v"
  obtains vs where "rv_visitors rv v = Some vs" "vs_conn_id vs = c" "vs_inbox vs = None"
    "vs_phase vs \<in> {V_Notifying, V_Waiting, V_Expired, V_Abandoned}"
  using assms unfolding pending_ok_def by blast

lemma pending_unheld:
  "pending_ok rv \<Longrightarrow> rv_pending rv c = Some v \<Longrightarrow> rv_handlers rv d \<noteq> Some (H_Holding c' v)"
  unfolding pending_ok_def by blast

lemma pending_inject:
  "pending_ok rv \<Longrightarrow> rv_pending rv c = Some v \<Longrightarrow> rv_pending rv c' = Some v \<Longrightarrow> c' = c"
  by (metis pending_visitor option.inject)

lemma holding_visitor:
  assumes "holding_ok rv" and "rv_handlers rv d = Some (H_Holding c v)"
  obtains vs where "rv_visitors rv v = Some vs" "vs_conn_id vs = c" "vs_inbox vs = None"
  using assms unfolding holding_ok_def by blast

lemma holding_once:
  "holding_ok rv \<Longrightarrow> rv_handlers rv d = Some (H_Holding c v) \<Longrightarrow>
   rv_handlers rv d' = Some (H_Holding c' v) \<Longrightarrow> d' = d"
  unfolding holding_ok_def by blast

text \<open>The two operations that branch, as the shapes of their results.\<close>

lemma data_frame_cases:
  obtains (drop) "rv_data_frame d frame rv = rv\<lparr>rv_handlers := (rv_handlers rv)(d \<mapsto> H_Dropped)\<rparr>"
  | (taken) c v where "rv_pending rv c = Some v"
      "rv_data_frame d frame rv = rv\<lparr>rv_pending := (rv_pending rv)(c := None),
         rv_handlers := (rv_handlers rv)(d \<mapsto> H_Holding c v)\<rparr>"
proof (cases "\<exists>dc v. frame = Some (Data_Conn dc) \<and> rv_pending rv (dc_conn_id dc) = Some v")
  case True
  with taken show thesis by (auto simp: rv_data_frame_def remove_pending_def)
next
  case False
  with drop show thesis
    by (auto simp: rv_data_frame_def split: option.splits message.splits)
qed

lemma data_send_cases:
  assumes "rv_handlers rv d = Some (H_Holding c v)" and "holding_ok rv"
  obtains (drop) vs where "rv_visitors rv v = Some vs" "\<not> receiver_alive vs"
      "rv_data_send d rv = rv\<lparr>rv_handlers := (rv_handlers rv)(d \<mapsto> H_Dropped)\<rparr>"
  | (deliver) vs where "rv_visitors rv v = Some vs" "receiver_alive vs" "vs_conn_id vs = c"
      "rv_data_send d rv = rv\<lparr>rv_visitors := (rv_visitors rv)(v \<mapsto> vs\<lparr>vs_inbox := Some d\<rparr>),
         rv_handlers := (rv_handlers rv)(d \<mapsto> H_Delivered c v)\<rparr>"
proof -
  obtain vs where "rv_visitors rv v = Some vs" "vs_conn_id vs = c"
    using holding_visitor [OF assms(2,1)] by blast
  with assms(1) that show thesis
    by (cases "receiver_alive vs") (auto simp: rv_data_send_def)
qed

lemma pending_ok_step: "rv_step aborts rv rv' \<Longrightarrow> rv_inv rv \<Longrightarrow> pending_ok rv'"
proof (induction rule: rv_step.induct)
  case (accept rv v c)
  then show ?case
    by (fastforce simp: rv_inv_def pending_ok_def holding_ok_def rv_accept_def)
next
  case (notified rv v vs)
  then show ?case
    by (fastforce simp: rv_inv_def pending_ok_def rv_notified_def set_phase_def)
next
  case (notify_failed rv v vs)
  then show ?case
    by (fastforce simp: rv_inv_def pending_ok_def rv_notify_failed_def set_phase_def remove_pending_def)
next
  case (receive rv v vs d)
  then show ?case
    by (fastforce simp: rv_inv_def pending_ok_def rv_receive_def set_phase_def)
next
  case (timeout rv v vs)
  then show ?case
    by (fastforce simp: rv_inv_def pending_ok_def rv_timeout_def set_phase_def)
next
  case (expire rv v vs)
  then show ?case
    by (fastforce simp: rv_inv_def pending_ok_def rv_expire_def set_phase_def remove_pending_def)
next
  case (finish rv v vs d)
  then show ?case
    by (fastforce simp: rv_inv_def pending_ok_def rv_finish_def set_phase_def)
next
  case (abandon rv v vs)
  then show ?case
    by (fastforce simp: rv_inv_def pending_ok_def rv_abandon_def set_phase_def)
next
  case (data_accept rv d)
  then show ?case
    by (auto simp: rv_inv_def pending_ok_def rv_data_accept_def)
next
  case (data_frame rv d frame)
  then have P: "pending_ok rv" by (simp add: rv_inv_def)
  show ?case
  proof (cases rule: data_frame_cases [of d frame rv])
    case (taken c v)
    have "w \<noteq> v" if "rv_pending rv c' = Some w" "c' \<noteq> c" for c' w
      using pending_inject [OF P that(1)] taken(1) that(2) by blast
    with P taken show ?thesis by (auto simp: pending_ok_def)
  qed (use P in \<open>auto simp: pending_ok_def\<close>)
next
  case (data_send rv d c v)
  then have P: "pending_ok rv" "holding_ok rv" by (simp_all add: rv_inv_def)
  from data_send.hyps P(2) show ?case
  proof (cases rule: data_send_cases)
    case (deliver vs)
    with P(1) data_send.hyps show ?thesis by (auto simp: pending_ok_def)
  qed (use P(1) in \<open>auto simp: pending_ok_def\<close>)
qed

lemma holding_ok_step: "rv_step aborts rv rv' \<Longrightarrow> rv_inv rv \<Longrightarrow> holding_ok rv'"
proof (induction rule: rv_step.induct)
  case (accept rv v c)
  then show ?case by (fastforce simp: rv_inv_def holding_ok_def rv_accept_def)
next
  case (notified rv v vs)
  then show ?case by (fastforce simp: rv_inv_def holding_ok_def rv_notified_def set_phase_def)
next
  case (notify_failed rv v vs)
  then show ?case
    by (fastforce simp: rv_inv_def holding_ok_def rv_notify_failed_def set_phase_def remove_pending_def)
next
  case (receive rv v vs d)
  then show ?case by (fastforce simp: rv_inv_def holding_ok_def rv_receive_def set_phase_def)
next
  case (timeout rv v vs)
  then show ?case by (fastforce simp: rv_inv_def holding_ok_def rv_timeout_def set_phase_def)
next
  case (expire rv v vs)
  then show ?case
    by (fastforce simp: rv_inv_def holding_ok_def rv_expire_def set_phase_def remove_pending_def)
next
  case (finish rv v vs d)
  then show ?case by (fastforce simp: rv_inv_def holding_ok_def rv_finish_def set_phase_def)
next
  case (abandon rv v vs)
  then show ?case by (fastforce simp: rv_inv_def holding_ok_def rv_abandon_def set_phase_def)
next
  case (data_accept rv d)
  then show ?case by (auto simp: rv_inv_def holding_ok_def rv_data_accept_def)
next
  case (data_frame rv d frame)
  then have P: "pending_ok rv" "holding_ok rv" by (simp_all add: rv_inv_def)
  show ?case
  proof (cases rule: data_frame_cases [of d frame rv])
    case (taken c v)
    with P show ?thesis by (fastforce simp: pending_ok_def holding_ok_def)
  qed (use P(2) in \<open>auto simp: holding_ok_def\<close>)
next
  case (data_send rv d c v)
  then have P: "holding_ok rv" by (simp add: rv_inv_def)
  from data_send.hyps P show ?case
  proof (cases rule: data_send_cases)
    case (deliver vs)
    have "w \<noteq> v" if "rv_handlers rv d' = Some (H_Holding c' w)" "d' \<noteq> d" for d' c' w
      using P that data_send.hyps by (auto simp: holding_ok_def)
    with P deliver show ?thesis by (auto simp: holding_ok_def)
  qed (use P in \<open>auto simp: holding_ok_def\<close>)
qed

lemma inbox_ok_step: "rv_step aborts rv rv' \<Longrightarrow> rv_inv rv \<Longrightarrow> inbox_ok rv'"
proof (induction rule: rv_step.induct)
  case (data_frame rv d frame)
  then have "inbox_ok rv" by (simp add: rv_inv_def)
  with data_frame.hyps show ?case
    by (cases rule: data_frame_cases [of d frame rv]) (auto simp: inbox_ok_def)
next
  case (data_send rv d c v)
  then have P: "holding_ok rv" "inbox_ok rv" by (simp_all add: rv_inv_def)
  from data_send.hyps P(1) show ?case
  proof (cases rule: data_send_cases)
    case (deliver vs)
    have other: "d' \<noteq> d" if "rv_visitors rv w = Some ws" "vs_inbox ws = Some d'" for w ws d'
      using P(2) that data_send.hyps by (auto simp: inbox_ok_def)
    with P(2) deliver show ?thesis by (auto simp: inbox_ok_def receiver_alive_def)
  next
    case (drop vs)
    with P(2) data_send.hyps show ?thesis by (auto simp: inbox_ok_def)
  qed
qed (auto simp: rv_inv_def inbox_ok_def rv_accept_def rv_notified_def rv_notify_failed_def
       rv_receive_def rv_timeout_def rv_expire_def rv_finish_def rv_data_accept_def rv_abandon_def
       set_phase_def remove_pending_def)

text \<open>A sender stays where it is unless a step moves it.\<close>

definition has_sender :: "rendezvous \<Rightarrow> socket \<Rightarrow> string \<Rightarrow> bool" where
  "has_sender rv v c \<longleftrightarrow>
     rv_pending rv c = Some v \<or> (\<exists>d. rv_handlers rv d = Some (H_Holding c v))"

lemma sender_ok_iff: "sender_ok rv \<longleftrightarrow> (\<forall>v vs. rv_visitors rv v = Some vs \<longrightarrow>
    receiver_alive vs \<longrightarrow> vs_inbox vs = None \<longrightarrow> has_sender rv v (vs_conn_id vs))"
  by (simp add: sender_ok_def has_sender_def)

lemma has_sender_handler:
  assumes "has_sender rv v c" and "rv_handlers rv d \<noteq> Some (H_Holding c v)"
  shows "has_sender (rv\<lparr>rv_handlers := (rv_handlers rv)(d \<mapsto> h)\<rparr>) v c"
  using assms by (auto simp: has_sender_def)

lemma has_sender_taken:
  assumes "has_sender rv w c'" and "rv_pending rv c = Some v" and "rv_handlers rv d = Some H_Reading"
  shows "has_sender (rv\<lparr>rv_pending := (rv_pending rv)(c := None),
    rv_handlers := (rv_handlers rv)(d \<mapsto> H_Holding c v)\<rparr>) w c'"
  using assms(1) unfolding has_sender_def
proof
  assume "rv_pending rv c' = Some w"
  with assms(2) show "rv_pending (rv\<lparr>rv_pending := (rv_pending rv)(c := None),
      rv_handlers := (rv_handlers rv)(d \<mapsto> H_Holding c v)\<rparr>) c' = Some w \<or>
    (\<exists>da. rv_handlers (rv\<lparr>rv_pending := (rv_pending rv)(c := None),
      rv_handlers := (rv_handlers rv)(d \<mapsto> H_Holding c v)\<rparr>) da = Some (H_Holding c' w))"
    by (cases "c' = c") auto
next
  assume "\<exists>d. rv_handlers rv d = Some (H_Holding c' w)"
  then obtain da where da: "rv_handlers rv da = Some (H_Holding c' w)" ..
  with assms(3) have "da \<noteq> d" by auto
  with da show "rv_pending (rv\<lparr>rv_pending := (rv_pending rv)(c := None),
      rv_handlers := (rv_handlers rv)(d \<mapsto> H_Holding c v)\<rparr>) c' = Some w \<or>
    (\<exists>da. rv_handlers (rv\<lparr>rv_pending := (rv_pending rv)(c := None),
      rv_handlers := (rv_handlers rv)(d \<mapsto> H_Holding c v)\<rparr>) da = Some (H_Holding c' w))"
    by auto
qed

lemma has_sender_visitors [simp]:
  "has_sender (rv\<lparr>rv_visitors := f\<rparr>) v c = has_sender rv v c"
  by (simp add: has_sender_def)

lemma sender_ok_step: "rv_step aborts rv rv' \<Longrightarrow> rv_inv rv \<Longrightarrow> sender_ok rv'"
proof (induction rule: rv_step.induct)
  case (accept rv v c)
  then have "rv_pending rv c = None" by (simp add: rv_inv_def pending_fresh)
  then have "has_sender (rv_accept v c rv) w c'" if "has_sender rv w c'" for w c'
    using that by (auto simp: has_sender_def rv_accept_def)
  moreover have "has_sender (rv_accept v c rv) v c"
    by (simp add: has_sender_def rv_accept_def)
  ultimately show ?case
    using accept by (auto simp: rv_inv_def sender_ok_iff rv_accept_def)
next
  case (data_accept rv d)
  then show ?case
    by (auto simp: rv_inv_def sender_ok_iff rv_data_accept_def intro!: has_sender_handler)
next
  case (data_frame rv d frame)
  then have P: "sender_ok rv" by (simp add: rv_inv_def)
  show ?case
  proof (cases rule: data_frame_cases [of d frame rv])
    case drop
    with P data_frame.hyps show ?thesis
      by (auto simp: sender_ok_iff intro!: has_sender_handler)
  next
    case (taken c v)
    with P data_frame.hyps show ?thesis
      by (auto simp: sender_ok_iff intro!: has_sender_taken)
  qed
next
  case (data_send rv d c v)
  then have P: "sender_ok rv" "holding_ok rv" by (simp_all add: rv_inv_def)
  from data_send.hyps P(2) show ?case
  proof (cases rule: data_send_cases)
    case (drop vs)
    with P(1) data_send.hyps show ?thesis
      by (auto simp: sender_ok_iff intro!: has_sender_handler)
  next
    case (deliver vs)
    have "has_sender (rv_data_send d rv) w (vs_conn_id ws)"
      if "rv_visitors rv w = Some ws" "w \<noteq> v" "receiver_alive ws" "vs_inbox ws = None" for w ws
      using has_sender_handler [of rv w "vs_conn_id ws" d "H_Delivered c v"] P(1) that
        data_send.hyps deliver(4) by (auto simp: sender_ok_iff has_sender_def)
    with deliver show ?thesis by (auto simp: sender_ok_iff)
  qed
qed (auto simp: rv_inv_def sender_ok_def ids_distinct_def receiver_alive_def rv_notified_def
       rv_notify_failed_def rv_receive_def rv_timeout_def rv_expire_def rv_finish_def rv_abandon_def
       set_phase_def remove_pending_def)

lemma rv_inv_step: "rv_step aborts rv rv' \<Longrightarrow> rv_inv rv \<Longrightarrow> rv_inv rv'"
  using ids_distinct_step pending_ok_step holding_ok_step inbox_ok_step sender_ok_step
  by (simp add: rv_inv_def)

lemma rv_reachable_inv: "rv_reachable aborts rv \<Longrightarrow> rv_inv rv"
  by (induction rule: rv_reachable.induct) (auto intro: rv_inv_new rv_inv_step)

text \<open>Without aborts no visitor is abandoned.\<close>

lemma not_abandoned_step:
  "rv_step aborts rv rv' \<Longrightarrow> \<not> aborts \<Longrightarrow>
   \<forall>v vs. rv_visitors rv v = Some vs \<longrightarrow> vs_phase vs \<noteq> V_Abandoned \<Longrightarrow>
   rv_visitors rv' v = Some vs \<Longrightarrow> vs_phase vs \<noteq> V_Abandoned"
  by (induction rule: rv_step.induct)
    (auto simp: rv_defs split: rv_splits)

lemma not_abandoned:
  "rv_reachable aborts rv \<Longrightarrow> \<not> aborts \<Longrightarrow> rv_visitors rv v = Some vs \<Longrightarrow> vs_phase vs \<noteq> V_Abandoned"
proof (induction arbitrary: v vs rule: rv_reachable.induct)
  case (step rv rv')
  then show ?case using not_abandoned_step [OF step.hyps(2) step.prems(1)] by blast
qed (simp add: rv_new_def)

lemma proxying_delivered:
  "inbox_ok rv \<Longrightarrow> rv_visitors rv v = Some vs \<Longrightarrow> vs_phase vs = V_Proxying d \<Longrightarrow>
   rv_handlers rv d = Some (H_Delivered (vs_conn_id vs) v)"
  by (simp add: inbox_ok_def)

section \<open>A sample run\<close>

text \<open>Visitor 1 is accepted under id \<open>k\<close>, waits, and data connection 2 serves it.\<close>

definition sample_waiting :: rendezvous where
  "sample_waiting = rv_notified 1 (rv_accept 1 ''k'' rv_new)"

definition sample_spliced :: rendezvous where
  "sample_spliced = rv_receive 1 (rv_data_send 2
     (rv_data_frame 2 (Some (Data_Conn \<lparr>dc_conn_id = ''k''\<rparr>)) (rv_data_accept 2 sample_waiting)))"

lemma sample_waiting_reachable: "rv_reachable aborts sample_waiting"
proof -
  have "rv_step aborts rv_new (rv_accept 1 ''k'' rv_new)"
    by (rule accept) (simp_all add: rv_new_def id_used_def)
  then have "rv_reachable aborts (rv_accept 1 ''k'' rv_new)" by (rule step [OF start])
  moreover have "rv_step aborts (rv_accept 1 ''k'' rv_new) sample_waiting"
    unfolding sample_waiting_def by (rule notified) (simp add: rv_accept_def)+
  ultimately show ?thesis by (rule step)
qed

lemma sample_spliced_reachable: "rv_reachable aborts sample_spliced"
proof -
  note d = sample_waiting_def rv_notified_def rv_accept_def rv_new_def set_phase_def
    rv_data_accept_def
  let ?a = "rv_data_accept 2 sample_waiting"
  let ?b = "rv_data_frame 2 (Some (Data_Conn \<lparr>dc_conn_id = ''k''\<rparr>)) ?a"
  have a: "rv_reachable aborts ?a"
    by (rule step [OF sample_waiting_reachable data_accept]) (simp add: d)
  have b: "rv_reachable aborts ?b"
    by (rule step [OF a data_frame]) (simp add: d)
  have c: "rv_reachable aborts (rv_data_send 2 ?b)"
    by (rule step [OF b data_send [of _ _ "''k''" 1]]) (simp add: d rv_data_frame_def remove_pending_def)
  show ?thesis
    unfolding sample_spliced_def
    by (rule step [OF c receive [of _ _ "\<lparr>vs_conn_id = ''k'', vs_inbox = Some 2, vs_phase = V_Waiting\<rparr>" 2]])
      (simp_all add: d rv_data_frame_def remove_pending_def rv_data_send_def receiver_alive_def)
qed

lemma sample_waiting_visitor:
  "rv_visitors sample_waiting 1 =
     Some \<lparr>vs_conn_id = ''k'', vs_inbox = None, vs_phase = V_Waiting\<rparr>"
  "rv_pending sample_waiting ''k'' = Some 1"
  by (simp_all add: sample_waiting_def rv_notified_def rv_accept_def rv_new_def set_phase_def)

lemma sample_spliced_visitor:
  "rv_visitors sample_spliced 1 =
     Some \<lparr>vs_conn_id = ''k'', vs_inbox = Some 2, vs_phase = V_Proxying 2\<rparr>"
  by (simp add: sample_spliced_def sample_waiting_def rv_defs rv_new_def)

section \<open>Properties\<close>

text \<open>C5: no visitor is ever wired to somebody else's data connection: a spliced socket
  announced the connection id of exactly this visitor, and no socket serves two visitors.\<close>

theorem splice_matches:
  assumes "rv_reachable aborts rv" and "rv_visitors rv v = Some vs" and "vs_phase vs = V_Proxying d"
  shows "rv_handlers rv d = Some (H_Delivered (vs_conn_id vs) v) \<and>
    (\<forall>w ws. rv_visitors rv w = Some ws \<and> vs_phase ws = V_Proxying d \<longrightarrow> w = v)"
proof -
  have I: "inbox_ok rv" using rv_reachable_inv [OF assms(1)] by (simp add: rv_inv_def)
  note here = proxying_delivered [OF I assms(2,3)]
  have "w = v" if "rv_visitors rv w = Some ws" "vs_phase ws = V_Proxying d" for w ws
    using here proxying_delivered [OF I that] by simp
  with here show ?thesis by blast
qed

theorem splice_matches_witness:
  "rv_handlers sample_spliced 2 = Some (H_Delivered ''k'' 1)"
  using splice_matches [OF sample_spliced_reachable [of False] sample_spliced_visitor, of 2] by simp

text \<open>C6: the pending table of the server leaks nothing: an entry always leads to a visitor whose
  task still waits (or is about to remove the entry), never to a finished or spliced one,
  and two entries never lead to the same visitor. On a node, whose tunnel tasks can be
  aborted, the one exception is a visitor abandoned while its notice was being written.\<close>

theorem pending_no_leak:
  assumes "rv_reachable aborts rv" and "rv_pending rv c = Some v"
  shows "(\<exists>vs. rv_visitors rv v = Some vs \<and> vs_conn_id vs = c \<and>
      (vs_phase vs \<in> {V_Notifying, V_Waiting, V_Expired} \<or> aborts \<and> vs_phase vs = V_Abandoned)) \<and>
    (\<forall>c'. rv_pending rv c' = Some v \<longrightarrow> c' = c)"
proof -
  have P: "pending_ok rv" using rv_reachable_inv [OF assms(1)] by (simp add: rv_inv_def)
  from P assms(2) obtain vs where vs: "rv_visitors rv v = Some vs" "vs_conn_id vs = c"
    "vs_phase vs \<in> {V_Notifying, V_Waiting, V_Expired, V_Abandoned}" by (rule pending_visitor)
  with not_abandoned [OF assms(1)] pending_inject [OF P assms(2)] show ?thesis by auto
qed

theorem pending_no_leak_witness:
  "\<exists>vs. rv_visitors sample_waiting 1 = Some vs \<and> vs_conn_id vs = ''k''"
  using pending_no_leak [OF sample_waiting_reachable [of False] sample_waiting_visitor(2)] by blast

text \<open>C7: a waiting visitor without a socket always still has a sender, in the table or in
  the hand of a data handler: the channel is never closed under it, so its wait ends with
  a socket or with the timeout.\<close>

theorem sender_never_lost:
  assumes "rv_reachable aborts rv" and "rv_visitors rv v = Some vs"
    and "vs_phase vs = V_Waiting" and "vs_inbox vs = None"
  shows "\<not> sender_lost rv v"
proof -
  have "has_sender rv v (vs_conn_id vs)"
    using rv_reachable_inv [OF assms(1)] assms(2-4)
    by (simp add: rv_inv_def sender_ok_iff receiver_alive_def)
  then show ?thesis by (auto simp: has_sender_def sender_lost_def ran_def)
qed

theorem sender_never_lost_witness: "\<not> sender_lost sample_waiting 1"
  by (rule sender_never_lost [OF sample_waiting_reachable [of False] sample_waiting_visitor(1)]) simp_all

end
