(* ===== verification/Url_Codec.thy ===== *)
theory Url_Codec
  imports Rust_Utf8
begin

text \<open>
  The text handling of the browser login: \<open>percent_encode\<close> and \<open>html_escape\<close> of
  \<open>crates/server/src/api/auth.rs\<close>, and \<open>percent_decode\<close>, \<open>hex_val\<close> and
  \<open>parse_callback\<close> of \<open>crates/cli/src/main.rs\<close>. The server encodes a token into a
  redirect URL, the CLI reads it back from the request line of its callback listener.
\<close>

section \<open>Encoding (server)\<close>

definition unreserved :: "char \<Rightarrow> bool" where
  "unreserved c \<longleftrightarrow>
     CHR ''A'' \<le> c \<and> c \<le> CHR ''Z'' \<or> CHR ''a'' \<le> c \<and> c \<le> CHR ''z'' \<or>
     CHR ''0'' \<le> c \<and> c \<le> CHR ''9'' \<or>
     c = CHR ''-'' \<or> c = CHR ''.'' \<or> c = CHR ''_'' \<or> c = CHR ''~''"

fun percent_encode :: "string \<Rightarrow> string" where
  "percent_encode [] = []"
| "percent_encode (c # cs) =
     (if unreserved c then [c] else CHR ''%'' # hex2_upper c) @ percent_encode cs"

section \<open>Decoding (CLI)\<close>

definition hex_val :: "char \<Rightarrow> nat option" where
  "hex_val c =
     (if CHR ''0'' \<le> c \<and> c \<le> CHR ''9'' then Some (byte c - byte CHR ''0'')
      else if CHR ''a'' \<le> c \<and> c \<le> CHR ''f'' then Some (byte c - byte CHR ''a'' + 10)
      else if CHR ''A'' \<le> c \<and> c \<le> CHR ''F'' then Some (byte c - byte CHR ''A'' + 10)
      else None)"

text \<open>The loop over the byte index, as recursion on the bytes from the index on: the guard
  \<open>i + 2 < bytes.len()\<close> says that two more bytes follow the percent sign.\<close>

fun percent_decode_bytes :: "string \<Rightarrow> string" where
  "percent_decode_bytes [] = []"
| "percent_decode_bytes (c # cs) =
     (if c = CHR ''%'' \<and> 2 \<le> length cs then
        (case (hex_val (cs ! 0), hex_val (cs ! 1)) of
           (Some h, Some l) \<Rightarrow> char_of (h * 16 + l) # percent_decode_bytes (drop 2 cs)
         | _ \<Rightarrow> c # percent_decode_bytes cs)
      else if c = CHR ''+'' then CHR '' '' # percent_decode_bytes cs
      else c # percent_decode_bytes cs)"

definition percent_decode :: "string \<Rightarrow> string" where
  "percent_decode s = from_utf8_lossy (percent_decode_bytes s)"

lemma hex_val_bound: "hex_val c = Some v \<Longrightarrow> v < 16"
  by (auto simp: hex_val_def less_eq_char_def split: if_splits)

lemma hex_val_upper: "d < 16 \<Longrightarrow> hex_val (hex_digit_upper d) = Some d"
  by (auto simp: hex_val_def hex_digit_upper_def less_eq_char_def)

lemma hex_val_lower: "d < 16 \<Longrightarrow> hex_val (hex_digit_lower d) = Some d"
  by (auto simp: hex_val_def hex_digit_lower_def less_eq_char_def)

text \<open>The value of a hexadecimal pair fits in the \<open>u8\<close> the decoder computes it in
  (\<open>h * 16 + l\<close> neither wraps nor panics), and it is the byte the digits were written
  from, in either case.\<close>

lemma hex_pair_fits_u8:
  "(\<forall>a b. \<forall>h \<in> set_option (hex_val a). \<forall>l \<in> set_option (hex_val b). h * 16 + l < 256) \<and>
   map hex_val (hex2_upper c) = [Some (byte c div 16), Some (byte c mod 16)] \<and>
   map hex_val (hex2_lower c) = [Some (byte c div 16), Some (byte c mod 16)]"
proof (intro conjI allI ballI)
  show "h * 16 + l < 256" if "h \<in> set_option (hex_val a)" "l \<in> set_option (hex_val b)"
    for a b h l
    using that hex_val_bound [of a h] hex_val_bound [of b l] by (simp add: elem_set)
  have "byte c div 16 < 16"
    using byte_less [of c] by (simp add: div_less_iff_less_mult)
  then show "map hex_val (hex2_upper c) = [Some (byte c div 16), Some (byte c mod 16)]"
    and "map hex_val (hex2_lower c) = [Some (byte c div 16), Some (byte c mod 16)]"
    by (simp_all add: hex2_upper_def hex2_lower_def hex_val_upper hex_val_lower)
qed

text \<open>The alphabet of the encoder.\<close>

definition query_special :: "char list" where
  "query_special = [CHR ''%'', CHR ''+'', CHR ''&'', CHR ''='', CHR ''?'', CHR ''#'']"

lemma special_not_unreserved:
  "\<forall>c \<in> set (query_special @ space_leads). \<not> unreserved c"
  by code_simp

lemma unreserved_not_special:
  "unreserved c \<Longrightarrow> c \<notin> set query_special \<and> c \<notin> set space_leads"
  using special_not_unreserved by auto

lemma unreserved_digit: "d < 16 \<Longrightarrow> unreserved (hex_digit_upper d)"
  by (auto simp: unreserved_def hex_digit_upper_def less_eq_char_def)

lemma percent_encode_alphabet:
  "c \<in> set (percent_encode s) \<Longrightarrow> unreserved c \<or> c = CHR ''%''"
proof (induction s)
  case (Cons x s)
  have "byte x div 16 < 16" "byte x mod 16 < 16"
    using byte_less [of x] by (simp_all add: div_less_iff_less_mult)
  with Cons show ?case
    by (auto simp: hex2_upper_def unreserved_digit split: if_splits)
qed simp

lemma percent_encode_query_safe:
  "c \<in> set query_special \<Longrightarrow> c \<noteq> CHR ''%'' \<Longrightarrow> c \<notin> set (percent_encode s)"
  using percent_encode_alphabet [of c s] unreserved_not_special [of c] by auto

text \<open>Text without a byte that may start a white space character.\<close>

definition solid :: "string \<Rightarrow> bool" where
  "solid t \<longleftrightarrow> list_all (\<lambda>c. c \<notin> set space_leads) t"

lemma solid_append [simp]: "solid (s @ t) \<longleftrightarrow> solid s \<and> solid t"
  by (simp add: solid_def)

lemma solid_percent_encode: "solid (percent_encode s)"
proof -
  have "CHR ''%'' \<notin> set space_leads" by code_simp
  with percent_encode_alphabet [of _ s] unreserved_not_special show ?thesis
    unfolding solid_def list_all_iff by metis
qed

lemma percent_decode_encode_bytes: "percent_decode_bytes (percent_encode s @ t) = s @ percent_decode_bytes t"
proof (induction s)
  case (Cons c s)
  show ?case
  proof (cases "unreserved c")
    case True
    with Cons unreserved_not_special [OF True] show ?thesis
      by (simp add: query_special_def)
  next
    case False
    have "byte c div 16 < 16" "byte c mod 16 < 16"
      using byte_less [of c] by (simp_all add: div_less_iff_less_mult)
    moreover have "char_of (byte c div 16 * 16 + byte c mod 16) = c"
      by simp
    ultimately show ?thesis
      using False Cons by (simp add: hex2_upper_def hex_val_upper)
  qed
qed simp

text \<open>What the CLI decodes from a percent-encoded value is the value the server encoded,
  for every UTF-8 string; on bytes that are not UTF-8 it is their lossy decoding.\<close>

lemma percent_roundtrip: "percent_decode (percent_encode s) = from_utf8_lossy s"
  using percent_decode_encode_bytes [of s "[]"] by (simp add: percent_decode_def)

lemma percent_roundtrip_valid: "valid_utf8 s \<Longrightarrow> percent_decode (percent_encode s) = s"
  using percent_decode_encode_bytes [of s "[]"] by (simp add: percent_decode_def lossy_valid)

section \<open>The callback request line\<close>

text \<open>The loop over the query's pairs: the last occurrence of a key wins.\<close>

fun parse_pairs :: "string list \<Rightarrow> string option \<Rightarrow> string option \<Rightarrow>
    string option \<times> string option" where
  "parse_pairs [] token expires = (token, expires)"
| "parse_pairs (pair # pairs) token expires =
     (case split_once (CHR ''='') pair of
        None \<Rightarrow> parse_pairs pairs token expires
      | Some (key, value) \<Rightarrow>
          if key = ''token'' then parse_pairs pairs (Some (percent_decode value)) expires
          else if key = ''expires'' then parse_pairs pairs token (Some (percent_decode value))
          else parse_pairs pairs token expires)"

definition parse_callback :: "string \<Rightarrow> (string \<times> string option) option" where
  "parse_callback request_line =
     (let parts = split_whitespace request_line
      in if length parts \<le> 1 then None
         else
           let target = parts ! 1;
               query = (case split_once (CHR ''?'') target of None \<Rightarrow> [] | Some (_, q) \<Rightarrow> q);
               (token, expires) = parse_pairs (split_on (CHR ''&'') query) None None
           in map_option (\<lambda>t. (t, expires)) token)"

text \<open>The URL the server redirects the browser to.\<close>

definition redirect_url :: "string \<Rightarrow> string \<Rightarrow> string \<Rightarrow> string" where
  "redirect_url callback jwt expires_at =
     callback @ ''?token='' @ percent_encode jwt @ ''&expires='' @ percent_encode expires_at"

lemma take_token_clean:
  assumes "solid t" and "rest = [] \<or> space_head rest \<noteq> None"
  shows "take_token (t @ rest) = (t, rest)"
  using assms
proof (induction t)
  case Nil
  then show ?case by (cases rest) auto
qed (simp add: space_head_None solid_def)

lemma split_whitespace_token:
  assumes "t \<noteq> []" and "solid t"
    and "rest = [] \<or> space_head rest \<noteq> None"
  shows "split_whitespace (t @ rest) = t # split_whitespace rest"
proof -
  obtain x xs where t: "t = x # xs" using assms(1) by (cases t) auto
  with assms take_token_clean [of xs rest] show ?thesis
    by (simp add: split_whitespace.simps [of "x # xs @ rest"] space_head_None solid_def)
qed

lemma space_head_blank: "space_head (CHR '' '' # s) = Some '' ''"
  by (simp add: space_head_def white_space_def)

lemma split_whitespace_blank: "split_whitespace (CHR '' '' # s) = split_whitespace s"
  by (subst split_whitespace.simps) (simp add: space_head_blank)

lemma split_whitespace_second:
  assumes "u \<noteq> []" and "solid u"
  shows "split_whitespace (''GET '' @ u @ '' '' @ rest) = ''GET'' # u # split_whitespace rest"
proof -
  have "split_whitespace (''GET'' @ CHR '' '' # u @ '' '' @ rest) =
      ''GET'' # split_whitespace (CHR '' '' # u @ '' '' @ rest)"
    by (rule split_whitespace_token) (simp, code_simp, simp add: space_head_blank)
  also have "split_whitespace (CHR '' '' # u @ '' '' @ rest) = u # split_whitespace rest"
    using split_whitespace_token [OF assms, of "CHR '' '' # rest"]
    by (simp add: split_whitespace_blank space_head_blank)
  finally show ?thesis by simp
qed

lemma redirect_read_back:
  assumes "valid_utf8 jwt" and "valid_utf8 expires"
    and "redirect_url callback jwt expires = callback @ target"
  shows "parse_callback (''GET /'' @ target @ '' HTTP/1.1'' @ crlf) = Some (jwt, Some expires)"
proof -
  define q where "q = ''token='' @ percent_encode jwt @ ''&expires='' @ percent_encode expires"
  have target: "target = CHR ''?'' # q"
    using assms(3) by (simp add: redirect_url_def q_def)
  have "solid ''/?token=''" and "solid ''&expires=''" by code_simp+
  then have "solid (''/?token='' @ percent_encode jwt @ ''&expires='' @ percent_encode expires)"
    by (simp only: solid_append solid_percent_encode simp_thms)
  then have clean: "solid (CHR ''/'' # target)"
    by (simp add: target q_def)
  have ws: "split_whitespace (''GET '' @ (CHR ''/'' # target) @ '' '' @ (''HTTP/1.1'' @ crlf)) =
      ''GET'' # (CHR ''/'' # target) # split_whitespace (''HTTP/1.1'' @ crlf)"
    by (rule split_whitespace_second [OF _ clean]) simp
  have amp: "CHR ''&'' \<notin> set (''token='' @ percent_encode jwt)"
    "CHR ''&'' \<notin> set (''expires='' @ percent_encode expires)"
    using percent_encode_query_safe [of "CHR ''&''"] by (simp_all add: query_special_def)
  have "split_on (CHR ''&'') q =
      [''token='' @ percent_encode jwt, ''expires='' @ percent_encode expires]"
    using split_on_append [OF amp(1)] split_on_single [OF amp(2)] by (simp add: q_def)
  then have "parse_pairs (split_on (CHR ''&'') q) None None = (Some jwt, Some expires)"
    by (simp add: percent_roundtrip_valid assms(1,2))
  moreover have "split_once (CHR ''?'') (CHR ''/'' # target) = Some (''/'', q)"
    by (simp add: target)
  moreover have "''GET /'' @ target @ '' HTTP/1.1'' @ crlf =
      ''GET '' @ (CHR ''/'' # target) @ '' '' @ (''HTTP/1.1'' @ crlf)"
    by simp
  ultimately show ?thesis
    by (simp only: parse_callback_def ws Let_def) simp
qed

text \<open>The token and the expiry that the server puts into the redirect to a CLI callback
  are exactly what the CLI reads from the request line the browser sends for it, whatever
  bytes they contain (\<open>+\<close>, \<open>&\<close>, \<open>=\<close>, blanks included).\<close>

lemma redirect_parse_roundtrip:
  assumes "valid_utf8 jwt" and "valid_utf8 expires"
    and "redirect_url callback jwt expires = callback @ target"
  shows "parse_callback (''GET /'' @ target @ '' HTTP/1.1'' @ crlf) = Some (jwt, Some expires)"
  by (rule redirect_read_back [OF assms])

end
