(* ===== verification/Json_Reference.thy ===== *)
theory Json_Reference
  imports Proto Url_Codec
begin

text \<open>
  A concrete JSON codec for the messages: a compact printer and a parser for flat objects
  (strings with escapes, numbers, booleans and null, white space between tokens), and the
  decoder the derived \<open>Deserialize\<close> amounts to (the tag picks the message, unknown fields
  are ignored, an absent optional field is \<open>None\<close>, a duplicated field is an error).

  \<open>serde_json\<close> is not part of the program. This codec shows that what the locale
  \<open>wire_codec\<close> asks of it can be had, and it is the codec of the concrete runs in this
  development.
\<close>

section \<open>Printer\<close>

definition quote_char :: char where
  "quote_char = CHR 0x22"

definition backslash :: char where
  "backslash = CHR 0x5C"

definition escape_char :: "char \<Rightarrow> string" where
  "escape_char c =
     (if c = quote_char \<or> c = backslash then [backslash, c]
      else if byte c < 32 then [backslash] @ ''u00'' @ hex2_lower c
      else [c])"

definition print_string :: "string \<Rightarrow> string" where
  "print_string s = [quote_char] @ concat (map escape_char s) @ [quote_char]"

fun print_scalar :: "json \<Rightarrow> string option" where
  "print_scalar JNull = Some ''null''"
| "print_scalar (JBool b) = Some (if b then ''true'' else ''false'')"
| "print_scalar (JNum n) = Some (show_nat n)"
| "print_scalar (JStr s) = Some (print_string s)"
| "print_scalar _ = None"

fun print_members :: "(string \<times> json) list \<Rightarrow> string option" where
  "print_members [] = Some []"
| "print_members ((k, v) # fs) =
     (case (print_scalar v, print_members fs) of
        (Some sv, Some sfs) \<Rightarrow>
          Some (print_string k @ '':'' @ sv @ (if fs = [] then [] else '','' @ sfs))
      | _ \<Rightarrow> None)"

fun print_object :: "json \<Rightarrow> string option" where
  "print_object (JObj fs) = map_option (\<lambda>s. ''{'' @ s @ ''}'') (print_members fs)"
| "print_object _ = None"

section \<open>Parser\<close>

definition skip_space :: "string \<Rightarrow> string" where
  "skip_space = dropWhile (\<lambda>c. c = CHR '' '' \<or> byte c = 9 \<or> byte c = 10 \<or> byte c = 13)"

text \<open>The characters of a string up to its closing quote.\<close>

fun parse_chars :: "string \<Rightarrow> (string \<times> string) option" where
  "parse_chars [] = None"
| "parse_chars (c # cs) =
     (if c = quote_char then Some ([], cs)
      else if c = backslash then
        (case cs of
           [] \<Rightarrow> None
         | e # r \<Rightarrow>
             if e = quote_char \<or> e = backslash then
               map_option (\<lambda>(s, t). (e # s, t)) (parse_chars r)
             else if e = CHR ''u'' \<and> 4 \<le> length r \<and> take 2 r = ''00'' then
               (case (hex_val (r ! 2), hex_val (r ! 3)) of
                  (Some h, Some l) \<Rightarrow>
                    if h * 16 + l < 128 then
                      map_option (\<lambda>(s, t). (char_of (h * 16 + l) # s, t)) (parse_chars (drop 4 r))
                    else None
                | _ \<Rightarrow> None)
             else None)
      else if byte c < 32 then None
      else map_option (\<lambda>(s, t). (c # s, t)) (parse_chars cs))"

definition parse_literal :: "string \<Rightarrow> json \<Rightarrow> string \<Rightarrow> (json \<times> string) option" where
  "parse_literal word v s = map_option (\<lambda>r. (v, r)) (strip_prefix word s)"

definition is_digit :: "char \<Rightarrow> bool" where
  "is_digit c \<longleftrightarrow> digit_val c \<noteq> None"

definition parse_scalar :: "string \<Rightarrow> (json \<times> string) option" where
  "parse_scalar s =
     (case s of
        [] \<Rightarrow> None
      | c # cs \<Rightarrow>
          if c = quote_char then map_option (\<lambda>(v, r). (JStr v, r)) (parse_chars cs)
          else if c = CHR ''n'' then parse_literal ''null'' JNull s
          else if c = CHR ''t'' then parse_literal ''true'' (JBool True) s
          else if c = CHR ''f'' then parse_literal ''false'' (JBool False) s
          else if is_digit c then
            map_option (\<lambda>n. (JNum n, dropWhile is_digit s)) (parse_digits 0 (takeWhile is_digit s))
          else None)"

definition expect :: "char \<Rightarrow> string \<Rightarrow> string option" where
  "expect c s = (case skip_space s of [] \<Rightarrow> None | d # r \<Rightarrow> if d = c then Some r else None)"

text \<open>A member \<open>"key": value\<close>.\<close>

definition parse_member :: "string \<Rightarrow> ((string \<times> json) \<times> string) option" where
  "parse_member s =
     (case expect quote_char s of
        None \<Rightarrow> None
      | Some r \<Rightarrow>
          (case parse_chars r of
             None \<Rightarrow> None
           | Some (k, r2) \<Rightarrow>
               (case expect (CHR '':'') r2 of
                  None \<Rightarrow> None
                | Some r3 \<Rightarrow> map_option (\<lambda>(v, r4). ((k, v), r4)) (parse_scalar (skip_space r3)))))"

text \<open>The members up to the closing brace; the fuel bounds their number.\<close>

fun parse_members :: "nat \<Rightarrow> string \<Rightarrow> ((string \<times> json) list \<times> string) option" where
  "parse_members 0 s = None"
| "parse_members (Suc n) s =
     (case parse_member s of
        None \<Rightarrow> None
      | Some (m, r) \<Rightarrow>
          (case expect (CHR '','') r of
             Some r2 \<Rightarrow> map_option (\<lambda>(ms, t). (m # ms, t)) (parse_members n r2)
           | None \<Rightarrow> map_option (\<lambda>t. ([m], t)) (expect (CHR ''}'') r)))"

definition parse_object :: "string \<Rightarrow> (string \<times> json) list option" where
  "parse_object s =
     (case expect (CHR ''{'') s of
        None \<Rightarrow> None
      | Some r \<Rightarrow>
          (case expect (CHR ''}'') r of
             Some t \<Rightarrow> if skip_space t = [] then Some [] else None
           | None \<Rightarrow>
               (case parse_members (length s) r of
                  Some (ms, t) \<Rightarrow> if skip_space t = [] then Some ms else None
                | None \<Rightarrow> None)))"

section \<open>Decoder\<close>

definition str_field :: "string \<Rightarrow> (string \<times> json) list \<Rightarrow> string option" where
  "str_field k fs = (case map_of fs k of Some (JStr s) \<Rightarrow> Some s | _ \<Rightarrow> None)"

fun port_of_json :: "json \<Rightarrow> u16 option" where
  "port_of_json (JNum n) = (if n \<le> 65535 then Some (of_nat n) else None)"
| "port_of_json _ = None"

fun string_of_json :: "json \<Rightarrow> string option" where
  "string_of_json (JStr s) = Some s"
| "string_of_json _ = None"

definition port_field :: "string \<Rightarrow> (string \<times> json) list \<Rightarrow> u16 option" where
  "port_field k fs = Option.bind (map_of fs k) port_of_json"

text \<open>An optional field: absent and null are \<open>None\<close>.\<close>

definition opt_field ::
    "(json \<Rightarrow> 'a option) \<Rightarrow> string \<Rightarrow> (string \<times> json) list \<Rightarrow> 'a option option" where
  "opt_field f k fs =
     (case map_of fs k of
        None \<Rightarrow> Some None
      | Some JNull \<Rightarrow> Some None
      | Some v \<Rightarrow> map_option Some (f v))"

definition protocol_field :: "string \<Rightarrow> (string \<times> json) list \<Rightarrow> protocol option" where
  "protocol_field k fs =
     (case str_field k fs of
        None \<Rightarrow> None
      | Some s \<Rightarrow> if s = ''tcp'' then Some Tcp else if s = ''http'' then Some Http else None)"

definition decode_register :: "(string \<times> json) list \<Rightarrow> register option" where
  "decode_register fs =
     (case (str_field ''token'' fs, protocol_field ''protocol'' fs, port_field ''local_port'' fs,
            opt_field port_of_json ''remote_port'' fs, opt_field string_of_json ''node'' fs,
            opt_field string_of_json ''hostname'' fs) of
        (Some t, Some p, Some l, Some r, Some n, Some h) \<Rightarrow>
          Some \<lparr>rg_token = t, rg_protocol = p, rg_local_port = l, rg_remote_port = r,
            rg_node = n, rg_hostname = h\<rparr>
      | _ \<Rightarrow> None)"

definition decode_registered :: "(string \<times> json) list \<Rightarrow> registered option" where
  "decode_registered fs =
     (case (port_field ''remote_port'' fs, opt_field string_of_json ''node_host'' fs,
            opt_field port_of_json ''node_port'' fs) of
        (Some r, Some h, Some p) \<Rightarrow>
          Some \<lparr>rd_remote_port = r, rd_node_host = h, rd_node_port = p\<rparr>
      | _ \<Rightarrow> None)"

definition decode_new_conn :: "(string \<times> json) list \<Rightarrow> new_conn option" where
  "decode_new_conn fs =
     (case (str_field ''conn_id'' fs, opt_field string_of_json ''node_host'' fs,
            opt_field port_of_json ''node_port'' fs) of
        (Some c, Some h, Some p) \<Rightarrow> Some \<lparr>nc_conn_id = c, nc_node_host = h, nc_node_port = p\<rparr>
      | _ \<Rightarrow> None)"

definition decode_visitor_conn :: "(string \<times> json) list \<Rightarrow> visitor_conn option" where
  "decode_visitor_conn fs =
     (case (str_field ''tunnel_id'' fs, str_field ''conn_id'' fs) of
        (Some t, Some c) \<Rightarrow> Some \<lparr>vc_tunnel_id = t, vc_conn_id = c\<rparr> | _ \<Rightarrow> None)"

definition decode_register_node :: "(string \<times> json) list \<Rightarrow> register_node option" where
  "decode_register_node fs =
     (case (str_field ''token'' fs, str_field ''name'' fs, port_field ''data_port'' fs) of
        (Some t, Some n, Some p) \<Rightarrow> Some \<lparr>rn_token = t, rn_name = n, rn_data_port = p\<rparr>
      | _ \<Rightarrow> None)"

definition decode_open_tunnel :: "(string \<times> json) list \<Rightarrow> open_tunnel option" where
  "decode_open_tunnel fs =
     (case (str_field ''tunnel_id'' fs, port_field ''remote_port'' fs) of
        (Some t, Some p) \<Rightarrow> Some \<lparr>ot_tunnel_id = t, ot_remote_port = p\<rparr> | _ \<Rightarrow> None)"

definition decode_fields :: "string \<Rightarrow> (string \<times> json) list \<Rightarrow> message option" where
  "decode_fields ty fs =
     (if ty = ''register'' then map_option Register (decode_register fs)
      else if ty = ''registered'' then map_option Registered (decode_registered fs)
      else if ty = ''new_conn'' then map_option New_Conn (decode_new_conn fs)
      else if ty = ''data_conn'' then
        map_option (\<lambda>c. Data_Conn \<lparr>dc_conn_id = c\<rparr>) (str_field ''conn_id'' fs)
      else if ty = ''visitor_conn'' then map_option Visitor_Conn (decode_visitor_conn fs)
      else if ty = ''register_node'' then map_option Register_Node (decode_register_node fs)
      else if ty = ''node_registered'' then
        map_option (\<lambda>i. Node_Registered \<lparr>nr_node_id = i\<rparr>) (str_field ''node_id'' fs)
      else if ty = ''open_tunnel'' then map_option Open_Tunnel (decode_open_tunnel fs)
      else if ty = ''close_tunnel'' then
        map_option (\<lambda>i. Close_Tunnel \<lparr>ct_tunnel_id = i\<rparr>) (str_field ''tunnel_id'' fs)
      else if ty = ''error'' then
        map_option (\<lambda>r. Error \<lparr>em_reason = r\<rparr>) (str_field ''reason'' fs)
      else None)"

definition decode_object :: "string \<Rightarrow> message option" where
  "decode_object s =
     (case parse_object s of
        None \<Rightarrow> None
      | Some fs \<Rightarrow>
          if distinct (map fst fs) then
            (case str_field ''type'' fs of None \<Rightarrow> None | Some ty \<Rightarrow> decode_fields ty fs)
          else None)"

definition json_codec :: codec where
  "json_codec = \<lparr>json_print = print_object, decode = decode_object\<rparr>"

section \<open>Parsing what was printed\<close>

lemma skip_space_token [simp]:
  "c \<noteq> CHR '' '' \<Longrightarrow> byte c > 13 \<Longrightarrow> skip_space (c # s) = c # s"
  by (simp add: skip_space_def)

lemma skip_space_Nil [simp]: "skip_space [] = []"
  by (simp add: skip_space_def)

lemma expect_hit [simp]: "c \<noteq> CHR '' '' \<Longrightarrow> byte c > 13 \<Longrightarrow> expect c (c # s) = Some s"
  by (simp add: expect_def)

lemma expect_miss [simp]:
  "d \<noteq> CHR '' '' \<Longrightarrow> byte d > 13 \<Longrightarrow> d \<noteq> c \<Longrightarrow> expect c (d # s) = None"
  by (simp add: expect_def)

lemma quote_facts [simp]:
  "byte quote_char = 34" "byte backslash = 92" "quote_char \<noteq> backslash" "backslash \<noteq> quote_char"
  "quote_char \<noteq> CHR '' ''" "CHR ''u'' \<noteq> quote_char" "CHR ''u'' \<noteq> backslash"
  by (simp_all add: quote_char_def backslash_def)

lemma parse_chars_escape:
  "parse_chars (escape_char c @ s) = map_option (\<lambda>(a, t). (c # a, t)) (parse_chars s)"
proof -
  have "hex_val (hex_digit_lower (byte c div 16)) = Some (byte c div 16)"
    "hex_val (hex_digit_lower (byte c mod 16)) = Some (byte c mod 16)"
    using nat_of_char_less_256 [of c] by (simp_all add: hex_val_lower less_mult_imp_div_less)
  then show ?thesis
    by (auto simp: escape_char_def hex2_lower_def)
qed

lemma parse_chars_string:
  "parse_chars (concat (map escape_char s) @ quote_char # r) = Some (s, r)"
  by (induction s) (simp_all add: parse_chars_escape)

declare parse_chars.simps [simp del]

lemma digits_printed: "\<forall>c \<in> set (show_nat n). is_digit c"
  using show_nat_bytes [of _ n] by (auto simp: is_digit_def digit_val_def)

lemma show_nat_head:
  obtains c cs where "show_nat n = c # cs" "is_digit c" "48 \<le> byte c"
proof -
  obtain c cs where "show_nat n = c # cs"
    using show_nat_not_Nil [of n] by (metis list.exhaust)
  moreover from this have "c \<in> set (show_nat n)" by simp
  ultimately show thesis
    using that digits_printed [of n] show_nat_bytes [of c n] by blast
qed

lemma parse_scalar_printed:
  assumes "print_scalar v = Some sv" and "\<not> is_digit d"
  shows "parse_scalar (sv @ d # r) = Some (v, d # r)"
proof (cases v)
  case (JNum n)
  have sv: "sv = show_nat n" using assms(1) JNum by simp
  obtain c cs where c: "sv = c # cs" and dc: "is_digit c"
    using show_nat_head [of n] sv by blast
  then have "c \<noteq> quote_char" "c \<noteq> CHR ''n''" "c \<noteq> CHR ''t''" "c \<noteq> CHR ''f''"
    by (auto simp: is_digit_def digit_val_def)
  moreover have "takeWhile is_digit (sv @ d # r) = sv" "dropWhile is_digit (sv @ d # r) = d # r"
    using digits_printed [of n] assms(2) by (simp_all add: sv takeWhile_append2 dropWhile_append2)
  moreover have "parse_digits 0 sv = Some n" by (simp add: sv parse_digits_show_nat)
  ultimately show ?thesis
    using c dc JNum by (simp add: parse_scalar_def)
next
  case (JStr s)
  with assms show ?thesis
    by (auto simp: print_string_def parse_scalar_def parse_chars_string)
qed (use assms in \<open>auto simp: parse_scalar_def parse_literal_def strip_prefix_def quote_char_def\<close>)

text \<open>A printed value starts with a character that is no white space.\<close>

lemma print_scalar_head:
  assumes "print_scalar v = Some sv"
  shows "sv \<noteq> [] \<and> hd sv \<noteq> CHR '' '' \<and> byte (hd sv) > 13"
proof (cases v)
  case (JNum n)
  then have "sv = show_nat n" using assms by simp
  then obtain c cs where "sv = c # cs" "48 \<le> byte c" using show_nat_head [of n] by blast
  then show ?thesis by auto
qed (use assms in \<open>auto simp: print_string_def split: if_splits\<close>)

lemma parse_member_printed:
  assumes "print_scalar v = Some sv" and "\<not> is_digit d"
  shows "parse_member (print_string k @ '':'' @ sv @ d # r) = Some ((k, v), d # r)"
proof -
  obtain c cs where c: "sv = c # cs" "c \<noteq> CHR '' ''" "byte c > 13"
    using print_scalar_head [OF assms(1)] by (cases sv) auto
  then have "skip_space (sv @ d # r) = sv @ d # r" by simp
  with parse_scalar_printed [OF assms] show ?thesis
    by (simp add: parse_member_def print_string_def parse_chars_string)
qed

lemma punctuation_no_digit [simp]: "\<not> is_digit (CHR '','')" "\<not> is_digit (CHR ''}'')"
  by (simp_all add: is_digit_def digit_val_def)

lemma parse_members_printed:
  assumes "print_members fs = Some s" and "fs \<noteq> []" and "length fs \<le> n"
  shows "parse_members n (s @ ''}'' @ t) = Some (fs, t)"
  using assms
proof (induction fs arbitrary: s n)
  case (Cons f fs)
  obtain k v where f: "f = (k, v)" by (cases f)
  obtain sv sfs where sv: "print_scalar v = Some sv" and sfs: "print_members fs = Some sfs"
    and s: "s = print_string k @ '':'' @ sv @ (if fs = [] then [] else '','' @ sfs)"
    using Cons.prems(1) f by (auto split: option.splits)
  obtain m where n: "n = Suc m" "length fs \<le> m" using Cons.prems(3) by (cases n) auto
  show ?case
  proof (cases "fs = []")
    case True
    with n sv parse_member_printed [OF sv, of "CHR ''}''" k t] s f show ?thesis by simp
  next
    case False
    with n sv parse_member_printed [OF sv, of "CHR '',''" k "sfs @ ''}'' @ t"] s f
      Cons.IH [OF sfs False n(2)] show ?thesis by simp
  qed
qed simp

lemma print_members_length: "print_members fs = Some s \<Longrightarrow> length fs \<le> length s"
proof (induction fs arbitrary: s)
  case (Cons f fs)
  then show ?case
    by (cases f; cases "fs = []") (fastforce simp: print_string_def split: option.splits)+
qed simp

lemma print_members_head:
  assumes "print_members (f # fs) = Some s"
  shows "\<exists>r. s = quote_char # r"
  using assms by (cases f) (auto simp: print_string_def split: option.splits)

lemma parse_object_printed:
  assumes "print_object (JObj fs) = Some s"
  shows "parse_object s = Some fs"
proof -
  obtain ms where ms: "print_members fs = Some ms" and s: "s = ''{'' @ ms @ ''}''"
    using assms by auto
  show ?thesis
  proof (cases fs)
    case Nil
    with ms s show ?thesis by (simp add: parse_object_def)
  next
    case (Cons f gs)
    obtain r where r: "ms = quote_char # r" using print_members_head ms Cons by blast
    have "parse_members (length s) (ms @ ''}'' @ []) = Some (fs, [])"
      using print_members_length [OF ms] Cons s by (intro parse_members_printed [OF ms]) simp_all
    then show ?thesis
      using s r by (simp add: parse_object_def quote_char_def)
  qed
qed

section \<open>Decoding what was printed\<close>

lemma port_of_port_json [simp]: "port_of_json (port_json p) = Some p"
  using unat_u16_le [of p] by (simp add: port_json_def)

lemma port_json_cases [simp]: "port_json p \<noteq> JNull"
  by (simp add: port_json_def)

lemma opt_field_port [simp]:
  "map_of fs k = Some (option_json port_json x) \<Longrightarrow> opt_field port_of_json k fs = Some x"
  by (cases x) (auto simp: opt_field_def option_json_def port_json_def unat_u16_le)

lemma opt_field_str [simp]:
  "map_of fs k = Some (option_json JStr x) \<Longrightarrow> opt_field string_of_json k fs = Some x"
  by (cases x) (auto simp: opt_field_def option_json_def)

lemma port_field_json [simp]:
  "map_of fs k = Some (port_json p) \<Longrightarrow> port_field k fs = Some p"
  by (simp add: port_field_def)

lemma protocol_field_json [simp]:
  "map_of fs k = Some (protocol_json p) \<Longrightarrow> protocol_field k fs = Some p"
  by (cases p) (auto simp: protocol_field_def str_field_def protocol_json_def)

lemma str_field_json [simp]: "map_of fs k = Some (JStr t) \<Longrightarrow> str_field k fs = Some t"
  by (simp add: str_field_def)

lemma decode_fields_message:
  "decode_fields (message_type m) ((''type'', JStr ty) # message_fields m) = Some m"
  by (cases m)
    (simp_all add: decode_fields_def decode_register_def decode_registered_def decode_new_conn_def
      decode_visitor_conn_def decode_register_node_def decode_open_tunnel_def)

lemma message_keys_distinct: "distinct (map fst ((''type'', x) # message_fields m))"
  by (cases m) simp_all

lemma decode_printed:
  assumes "print_object (message_json m) = Some s"
  shows "decode_object s = Some m"
  using parse_object_printed [OF assms [unfolded message_json_def]] message_keys_distinct [of _ m]
    decode_fields_message [of m]
  by (simp add: decode_object_def)

lemma decode_old_printed:
  assumes "print_object (old_register_json r) = Some s"
  shows "decode_object s = Some (Register (r\<lparr>rg_node := None, rg_hostname := None\<rparr>))"
  using parse_object_printed [OF assms [unfolded old_register_json_def]]
  by (simp add: decode_object_def decode_fields_def decode_register_def opt_field_def [of string_of_json])

section \<open>The printed text\<close>

lemma escape_no_newline: "newline \<notin> set (escape_char c)"
proof -
  have "newline \<noteq> hex_digit_lower d" if "d < 16" for d
    using that by (auto simp: hex_digit_lower_def dest: arg_cong [of _ _ byte])
  then show ?thesis
    using nat_of_char_less_256 [of c]
    by (auto simp: escape_char_def hex2_lower_def backslash_def quote_char_def
        less_mult_imp_div_less)
qed

lemma print_string_no_newline: "newline \<notin> set (print_string s)"
  using escape_no_newline by (auto simp: print_string_def quote_char_def)

lemma print_scalar_no_newline: "print_scalar v = Some s \<Longrightarrow> newline \<notin> set s"
  by (cases v) (auto simp: print_string_no_newline not_in_show_nat split: if_splits)

lemma print_members_no_newline: "print_members fs = Some s \<Longrightarrow> newline \<notin> set s"
proof (induction fs arbitrary: s)
  case (Cons f fs)
  obtain k v where f: "f = (k, v)" by (cases f)
  obtain sv sfs where "print_scalar v = Some sv" "print_members fs = Some sfs"
    "s = print_string k @ '':'' @ sv @ (if fs = [] then [] else '','' @ sfs)"
    using Cons.prems f by (auto split: option.splits)
  with Cons.IH [of sfs] print_scalar_no_newline [of v sv] print_string_no_newline [of k]
  show ?case by auto
qed simp

lemma escape_ascii: "byte c < 128 \<Longrightarrow> valid_utf8 (escape_char c)"
proof -
  have "byte (hex_digit_lower d) < 128" if "d < 16" for d
    using that by (simp add: hex_digit_lower_def)
  then show "byte c < 128 \<Longrightarrow> valid_utf8 (escape_char c)"
    using nat_of_char_less_256 [of c]
    by (intro valid_utf8_ascii) (auto simp: escape_char_def hex2_lower_def less_mult_imp_div_less)
qed

lemma escape_high: "128 \<le> byte c \<Longrightarrow> escape_char c = [c]"
  by (auto simp: escape_char_def)

lemma utf8_next_high:
  assumes "utf8_next (c # cs) = (n, True)" and "128 \<le> byte c"
  shows "\<forall>x \<in> set (take n (c # cs)). 128 \<le> byte x"
  using assms
  by (auto simp: Let_def continuation_def second_ok_def split: list.splits if_splits)

lemma escape_high_chunk: "\<forall>x \<in> set xs. 128 \<le> byte x \<Longrightarrow> concat (map escape_char xs) = xs"
  by (induction xs) (simp_all add: escape_high)

lemma escape_valid: "valid_utf8 s \<Longrightarrow> valid_utf8 (concat (map escape_char s))"
proof (induction s rule: valid_utf8.induct)
  case (1 s)
  show ?case
  proof (cases s)
    case (Cons c cs)
    obtain n ok where n: "utf8_next s = (n, ok)" by (cases "utf8_next s")
    have ne: "s \<noteq> []" using Cons by simp
    with "1.prems" n have ok: "ok" and v: "valid_utf8 (drop n s)"
      by (auto simp: valid_utf8.simps [of s])
    with n have n': "utf8_next s = (n, True)" by simp
    have IH: "valid_utf8 (concat (map escape_char (drop n s)))"
      using "1.IH" [OF ne] n v by (simp add: ok)
    have parts: "concat (map escape_char s) =
        concat (map escape_char (take n s)) @ concat (map escape_char (drop n s))"
      by (metis append_take_drop_id concat_append map_append)
    show ?thesis
    proof (cases "byte c < 128")
      case True
      then have "n = 1" using n' utf8_next_ascii [of c cs] Cons by simp
      with parts IH escape_ascii [OF True] Cons show ?thesis
        by (simp add: valid_utf8_append)
    next
      case False
      have "\<forall>x \<in> set (take n s). 128 \<le> byte x"
        using utf8_next_high [of c cs n] n' False Cons by simp
      with parts IH valid_utf8_chunk [OF n'] Cons show ?thesis
        by (simp add: escape_high_chunk)
    qed
  qed simp
qed

lemma print_string_valid: "valid_utf8 s \<Longrightarrow> valid_utf8 (print_string s)"
  using escape_valid [of s]
  by (simp add: print_string_def valid_utf8_Cons_ascii valid_utf8_append)

definition scalar :: "json \<Rightarrow> bool" where
  "scalar v \<longleftrightarrow> print_scalar v \<noteq> None"

lemma print_scalar_valid:
  "print_scalar v = Some s \<Longrightarrow> \<forall>t \<in> set (json_strings v). valid_utf8 t \<Longrightarrow> valid_utf8 s"
proof (cases v)
  case (JNum n)
  assume "print_scalar v = Some s"
  then show ?thesis using show_nat_bytes [of _ n] JNum by (fastforce intro: valid_utf8_ascii)
qed (auto simp: print_string_valid valid_utf8_ascii split: if_splits)

lemma print_members_valid:
  "print_members fs = Some s \<Longrightarrow>
   \<forall>(k, v) \<in> set fs. valid_utf8 k \<and> (\<forall>t \<in> set (json_strings v). valid_utf8 t) \<Longrightarrow>
   valid_utf8 s"
proof (induction fs arbitrary: s)
  case (Cons f fs)
  obtain k v where f: "f = (k, v)" by (cases f)
  obtain sv sfs where "print_scalar v = Some sv" "print_members fs = Some sfs"
    "s = print_string k @ '':'' @ sv @ (if fs = [] then [] else '','' @ sfs)"
    using Cons.prems(1) f by (auto split: option.splits)
  with Cons.IH [of sfs] Cons.prems(2) f print_scalar_valid [of v sv] print_string_valid [of k]
  show ?case by (simp add: valid_utf8_append valid_utf8_Cons_ascii)
qed simp

lemma print_members_scalar:
  "\<forall>(k, v) \<in> set fs. scalar v \<Longrightarrow> \<exists>s. print_members fs = Some s"
  by (induction fs) (auto simp: scalar_def)

lemma message_scalar: "\<forall>(k, v) \<in> set (message_fields m). scalar v"
  by (cases m)
    (auto simp: scalar_def port_json_def protocol_json_def option_json_def split: option.splits)

lemma message_keys_ascii: "\<forall>(k, v) \<in> set (message_fields m). valid_utf8 k"
  by (cases m) (auto intro!: valid_utf8_ascii)

lemma message_type_ascii: "valid_utf8 (message_type m)"
  by (cases m) (auto intro!: valid_utf8_ascii)

lemma print_message_shape:
  assumes "wf_message m"
  shows "\<exists>body. print_object (message_json m) = Some (''{'' @ body @ ''}'') \<and>
    newline \<notin> set body \<and> valid_utf8 body"
proof -
  let ?fs = "(''type'', JStr (message_type m)) # message_fields m"
  have "\<forall>(k, v) \<in> set ?fs. scalar v" using message_scalar [of m] by (simp add: scalar_def)
  then obtain body where body: "print_members ?fs = Some body"
    using print_members_scalar by blast
  have "valid_utf8 ''type''" by (simp add: valid_utf8_ascii)
  then have "\<forall>(k, v) \<in> set ?fs. valid_utf8 k \<and> (\<forall>t \<in> set (json_strings v). valid_utf8 t)"
    using assms message_keys_ascii [of m] message_type_ascii [of m]
    by (auto simp: wf_message_def)
  with print_members_valid [OF body] print_members_no_newline [OF body] body show ?thesis
    by (simp add: message_json_def)
qed

interpretation json: wire_codec json_codec
  using print_message_shape
  by unfold_locales (simp_all add: json_codec_def decode_printed decode_old_printed)

end
