(* ===== verification/Framing.thy ===== *)
theory Framing
  imports Json_Reference
begin

text \<open>
  Frames on a byte stream: \<open>read_frame\<close>, \<open>read_line_opt\<close>, \<open>send\<close> and \<open>reject\<close> of
  \<open>crates/server/src/control.rs\<close> (\<open>read_frame\<close> is repeated in the node agent).

  An input stream is the bytes that will arrive and the way it ends. A reader returns its
  result and the bytes it left. \<open>read_line\<close> of tokio is the standard library's: up to and
  including the newline, an error when the line is not UTF-8.
\<close>

section \<open>Streams\<close>

datatype stream_end = Closed | Broken

record stream =
  sm_bytes :: string
  sm_end :: stream_end

datatype 'a io_result = Io_Ok 'a | Io_Err

section \<open>Reading byte by byte\<close>

fun read_frame_loop :: "string \<Rightarrow> string \<Rightarrow> stream_end \<Rightarrow> string option io_result \<times> stream" where
  "read_frame_loop buf [] e =
     ((case e of
         Closed \<Rightarrow> Io_Ok (if buf = [] then None else Some (from_utf8_lossy buf))
       | Broken \<Rightarrow> Io_Err), \<lparr>sm_bytes = [], sm_end = e\<rparr>)"
| "read_frame_loop buf (c # cs) e =
     (if c = newline then (Io_Ok (Some (from_utf8_lossy buf)), \<lparr>sm_bytes = cs, sm_end = e\<rparr>)
      else read_frame_loop (buf @ [c]) cs e)"

definition read_frame :: "stream \<Rightarrow> string option io_result \<times> stream" where
  "read_frame s = read_frame_loop [] (sm_bytes s) (sm_end s)"

section \<open>Reading lines\<close>

text \<open>The bytes up to and including the first newline, and the rest.\<close>

fun split_line :: "string \<Rightarrow> string \<times> string" where
  "split_line [] = ([], [])"
| "split_line (c # cs) =
     (if c = newline then ([c], cs) else (let (l, r) = split_line cs in (c # l, r)))"

text \<open>\<open>read_line\<close>: the number of bytes read and the line.\<close>

definition read_line :: "stream \<Rightarrow> (nat \<times> string) io_result \<times> stream" where
  "read_line s =
     (let (l, r) = split_line (sm_bytes s) in
      (if (l = [] \<or> last l \<noteq> newline) \<and> sm_end s = Broken then Io_Err
       else if valid_utf8 l then Io_Ok (length l, l)
       else Io_Err, s\<lparr>sm_bytes := r\<rparr>))"

definition read_line_opt :: "stream \<Rightarrow> string option io_result \<times> stream" where
  "read_line_opt s =
     (case read_line s of
        (Io_Ok (n, line), s') \<Rightarrow> (Io_Ok (if n = 0 then None else Some line), s')
      | (Io_Err, s') \<Rightarrow> (Io_Err, s'))"

section \<open>Writing\<close>

text \<open>An output stream is the bytes written; \<open>ok\<close> is the outcome of \<open>write_all\<close> and
  \<open>flush\<close>. On a failure what was written is unknown: \<open>partial\<close> bytes of the frame.\<close>

definition send ::
    "codec \<Rightarrow> message \<Rightarrow> bool \<Rightarrow> nat \<Rightarrow> string \<Rightarrow> bool \<times> string" where
  "send cd msg ok partial out =
     (case to_line cd msg of
        None \<Rightarrow> (False, out)
      | Some frame \<Rightarrow> if ok then (True, out @ frame) else (False, out @ take partial frame))"

definition reject :: "codec \<Rightarrow> string \<Rightarrow> bool \<Rightarrow> nat \<Rightarrow> string \<Rightarrow> string" where
  "reject cd reason ok partial out =
     snd (send cd (Error \<lparr>em_reason = reason\<rparr>) ok partial out)"

fun send_all :: "codec \<Rightarrow> message list \<Rightarrow> string \<Rightarrow> string" where
  "send_all cd [] out = out"
| "send_all cd (m # ms) out = send_all cd ms (snd (send cd m True 0 out))"

text \<open>The reading loop of a control channel, until it ends: each line decoded or not. The
  fuel bounds the number of lines.\<close>

fun read_messages :: "codec \<Rightarrow> nat \<Rightarrow> stream \<Rightarrow> message option list" where
  "read_messages cd 0 s = []"
| "read_messages cd (Suc n) s =
     (case read_line_opt s of
        (Io_Ok (Some line), s') \<Rightarrow> from_line cd line # read_messages cd n s'
      | _ \<Rightarrow> [])"

section \<open>Readers on complete lines\<close>

lemma read_frame_loop_line:
  "newline \<notin> set line \<Longrightarrow>
   read_frame_loop buf (line @ newline # rest) e =
     (Io_Ok (Some (from_utf8_lossy (buf @ line))), \<lparr>sm_bytes = rest, sm_end = e\<rparr>)"
  by (induction line arbitrary: buf) auto

lemma read_frame_loop_end:
  "newline \<notin> set bytes \<Longrightarrow>
   read_frame_loop buf bytes e =
     ((case e of
         Closed \<Rightarrow> Io_Ok (if buf @ bytes = [] then None else Some (from_utf8_lossy (buf @ bytes)))
       | Broken \<Rightarrow> Io_Err), \<lparr>sm_bytes = [], sm_end = e\<rparr>)"
  by (induction bytes arbitrary: buf) (auto split: stream_end.splits)

lemma split_line_line: "newline \<notin> set line \<Longrightarrow>
  split_line (line @ newline # rest) = (line @ [newline], rest)"
  by (induction line) auto

lemma split_line_append: "fst (split_line s) @ snd (split_line s) = s"
  by (induction s) (auto split: prod.splits)

lemma read_line_line:
  assumes "newline \<notin> set line" and "valid_utf8 line"
  shows "read_line \<lparr>sm_bytes = line @ newline # rest, sm_end = e\<rparr> =
    (Io_Ok (length line + 1, line @ [newline]), \<lparr>sm_bytes = rest, sm_end = e\<rparr>)"
  using assms by (simp add: read_line_def split_line_line valid_utf8_append valid_utf8_Cons_ascii)

lemma take_line:
  "newline \<notin> set line \<Longrightarrow> takeWhile (\<lambda>c. c \<noteq> newline) (line @ newline # rest) = line"
  "newline \<notin> set line \<Longrightarrow>
   dropWhile (\<lambda>c. c \<noteq> newline) (line @ newline # rest) = newline # rest"
  by (induction line) auto

lemma sent_line:
  assumes "wire_codec cd" and "wf_message m"
  obtains line where "to_line cd m = Some (line @ [newline])" "newline \<notin> set line"
    "valid_utf8 line" "from_line cd line = Some m" "from_line cd (line @ [newline]) = Some m"
proof -
  obtain body where b: "to_line cd m = Some ((''{'' @ body @ ''}'') @ [newline])"
    using wire_codec.line_shape [OF assms] by blast
  moreover note wire_codec.line_without_newline [OF assms b]
  moreover have "from_line cd ((''{'' @ body @ ''}'') @ [newline]) = Some m"
    using wire_codec.line_roundtrip [OF assms] b by auto
  ultimately show thesis using that by blast
qed

lemma read_sent_frame:
  assumes "wire_codec cd" and "wf_message m" and "to_line cd m = Some l"
  obtains frame where "read_frame \<lparr>sm_bytes = l @ rest, sm_end = e\<rparr> =
      (Io_Ok (Some frame), \<lparr>sm_bytes = rest, sm_end = e\<rparr>)" "from_line cd frame = Some m"
proof -
  obtain line where l: "to_line cd m = Some (line @ [newline])" "newline \<notin> set line"
      "valid_utf8 line" "from_line cd line = Some m"
    using sent_line [OF assms(1,2)] by metis
  from l(1) assms(3) have "l @ rest = line @ newline # rest" by simp
  then show thesis
    using that [of line] read_frame_loop_line [OF l(2), of "[]" rest e] l(3,4)
    by (simp add: read_frame_def lossy_valid)
qed

text \<open>What is sent comes after what was sent before.\<close>

lemma send_all_append: "send_all cd ms out = out @ send_all cd ms []"
proof (induction ms arbitrary: out)
  case (Cons m ms)
  have "send_all cd (m # ms) out = snd (send cd m True 0 out) @ send_all cd ms []"
    using Cons.IH [of "snd (send cd m True 0 out)"] by simp
  moreover have "send_all cd (m # ms) [] = snd (send cd m True 0 []) @ send_all cd ms []"
    using Cons.IH [of "snd (send cd m True 0 [])"] by simp
  moreover have "snd (send cd m True 0 out) = out @ snd (send cd m True 0 [])"
    by (simp add: send_def split: option.split)
  ultimately show ?case by simp
qed simp

lemma send_all_Cons:
  "to_line cd m = Some l \<Longrightarrow> send_all cd (m # ms) [] = l @ send_all cd ms []"
  using send_all_append [of cd ms l] by (simp add: send_def)

text \<open>A read takes at least one byte while there is one.\<close>

lemma split_line_shorter:
  assumes "s \<noteq> []"
  shows "length (snd (split_line s)) < length s"
proof -
  have "fst (split_line s) \<noteq> []" using assms by (cases s) (auto split: prod.split)
  then have "0 < length (fst (split_line s))" by simp
  moreover have "length s = length (fst (split_line s)) + length (snd (split_line s))"
    using split_line_append [of s] by (metis length_append)
  ultimately show ?thesis by simp
qed

lemma read_line_shorter:
  assumes "read_line s = (Io_Ok (n, l), s')" and "n \<noteq> 0"
  shows "length (sm_bytes s') < length (sm_bytes s)"
proof -
  have "sm_bytes s \<noteq> []" and "s' = s\<lparr>sm_bytes := snd (split_line (sm_bytes s))\<rparr>"
    using assms by (auto simp: read_line_def Let_def split: prod.splits if_splits)
  then show ?thesis using split_line_shorter [of "sm_bytes s"] by simp
qed

section \<open>Properties\<close>

text \<open>\<open>read_frame\<close> is lossless and takes nothing after its frame: on any stream with a
  newline it returns the lossy text before the first one and leaves exactly the bytes after
  it; on one without, it returns the remaining text, \<open>None\<close> on a clean end and an error on
  a broken one.\<close>

lemma read_frame_exact:
  "read_frame s =
     (let line = takeWhile (\<lambda>c. c \<noteq> newline) (sm_bytes s);
          rest = dropWhile (\<lambda>c. c \<noteq> newline) (sm_bytes s)
      in if rest \<noteq> [] then (Io_Ok (Some (from_utf8_lossy line)), s\<lparr>sm_bytes := tl rest\<rparr>)
         else (case sm_end s of
                 Broken \<Rightarrow> Io_Err
               | Closed \<Rightarrow> Io_Ok (if line = [] then None else Some (from_utf8_lossy line)),
               s\<lparr>sm_bytes := []\<rparr>))"
proof (cases "newline \<in> set (sm_bytes s)")
  case True
  then obtain line rest where b: "sm_bytes s = line @ newline # rest" "newline \<notin> set line"
    by (metis split_list_first)
  with take_line [OF b(2), of rest] have
    "takeWhile (\<lambda>c. c \<noteq> newline) (sm_bytes s) = line"
    "dropWhile (\<lambda>c. c \<noteq> newline) (sm_bytes s) = newline # rest"
    by simp_all
  with read_frame_loop_line [OF b(2), of "[]" rest "sm_end s"] b(1) show ?thesis
    by (simp add: read_frame_def)
next
  case False
  then have all: "takeWhile (\<lambda>c. c \<noteq> newline) (sm_bytes s) = sm_bytes s"
    "dropWhile (\<lambda>c. c \<noteq> newline) (sm_bytes s) = []"
    by (auto simp: takeWhile_eq_all_conv dropWhile_eq_Nil_conv)
  show ?thesis
    unfolding all read_frame_def read_frame_loop_end [OF False] append_Nil by (simp add: Let_def)
qed

text \<open>With any JSON codec that keeps its promises, a message sent on an empty line
  boundary is read back by both readers as the same message, and both leave exactly what
  follows it.\<close>

lemma sent_frame_read_back:
  assumes "wire_codec cd" and "wf_message m"
  shows "\<exists>frame line. snd (send cd m True 0 out) = out @ line \<and>
    read_frame \<lparr>sm_bytes = line @ rest, sm_end = e\<rparr> =
      (Io_Ok (Some frame), \<lparr>sm_bytes = rest, sm_end = e\<rparr>) \<and>
    read_line_opt \<lparr>sm_bytes = line @ rest, sm_end = e\<rparr> =
      (Io_Ok (Some line), \<lparr>sm_bytes = rest, sm_end = e\<rparr>) \<and>
    from_line cd frame = Some m \<and> from_line cd line = Some m"
proof -
  obtain line where l: "to_line cd m = Some (line @ [newline])" "newline \<notin> set line"
      "valid_utf8 line" "from_line cd line = Some m" "from_line cd (line @ [newline]) = Some m"
    using sent_line [OF assms] .
  then show ?thesis
    using read_frame_loop_line [OF l(2), of "[]" rest e]
    by (intro exI [of _ line] exI [of _ "line @ [newline]"])
      (simp add: send_def read_frame_def read_line_opt_def read_line_line lossy_valid)
qed

text \<open>C30: a control channel preserves the sequence of messages: whatever is sent on it is
  read back by the line loop in the same order, nothing lost, merged or split, until the
  channel ends.\<close>

theorem channel_preserves_messages:
  assumes "wire_codec cd" and "\<forall>m \<in> set ms. wf_message m" and "length ms < n"
  shows "read_messages cd n \<lparr>sm_bytes = send_all cd ms [], sm_end = e\<rparr> = map Some ms"
proof -
  have "\<exists>bytes. (\<forall>out. send_all cd ms out = out @ bytes) \<and>
    (\<forall>n. length ms < n \<longrightarrow>
      read_messages cd n \<lparr>sm_bytes = bytes, sm_end = e\<rparr> = map Some ms)"
    using assms(2)
  proof (induction ms)
    case Nil
    have "read_messages cd n \<lparr>sm_bytes = [], sm_end = e\<rparr> = []" for n
      by (cases n) (auto simp: read_line_opt_def read_line_def)
    then show ?case by simp
  next
    case (Cons m ms)
    then obtain bytes where bytes: "\<And>out. send_all cd ms out = out @ bytes"
      "\<And>n. length ms < n \<Longrightarrow>
        read_messages cd n \<lparr>sm_bytes = bytes, sm_end = e\<rparr> = map Some ms"
      by auto
    obtain line where l: "to_line cd m = Some (line @ [newline])" "newline \<notin> set line"
        "valid_utf8 line" "from_line cd (line @ [newline]) = Some m"
      using sent_line [OF assms(1)] Cons.prems by (metis list.set_intros(1))
    have "read_messages cd n \<lparr>sm_bytes = line @ newline # bytes, sm_end = e\<rparr> = map Some (m # ms)"
      if "length (m # ms) < n" for n
      using that l bytes(2) [of "n - 1"]
      by (cases n) (simp_all add: read_line_opt_def read_line_line)
    with l(1) bytes(1) show ?case
      by (intro exI [of _ "line @ newline # bytes"]) (simp add: send_def)
  qed
  with assms(3) show ?thesis by auto
qed

theorem channel_preserves_messages_witness:
  "read_messages json_codec 3
     \<lparr>sm_bytes = send_all json_codec
        [Node_Registered \<lparr>nr_node_id = ''n''\<rparr>, Close_Tunnel \<lparr>ct_tunnel_id = ''t''\<rparr>] [],
      sm_end = Closed\<rparr> =
   map Some [Node_Registered \<lparr>nr_node_id = ''n''\<rparr>, Close_Tunnel \<lparr>ct_tunnel_id = ''t''\<rparr>]"
  by (rule channel_preserves_messages [OF json.wire_codec_axioms])
    (simp_all add: wf_message_def valid_utf8_ascii)

end
