(* ===== verification/Data_Port.thy ===== *)
theory Data_Port
  imports Rendezvous Framing Json_Reference
begin

text \<open>
  The data port and the visitor tasks, as programs on the table of pending visitors:
  \<open>handle_data_listener\<close>, \<open>handle_data_conn\<close> and the spawned visitor task of
  \<open>crates/server/src/control.rs\<close>, and \<open>data_loop\<close>, \<open>handle_data_conn\<close> and the spawned task of
  \<open>crates/node/src/main.rs\<close>, which are the same code. Every operation that is enabled is a
  step of \<open>Rendezvous\<close>, whatever the data connections send.
\<close>

section \<open>Operations\<close>

text \<open>The steps of \<open>handle_data_conn\<close> and of the spawned visitor tasks, on the table of
  pending visitors; each is enabled in the phase the step relation of \<open>Rendezvous\<close> names.\<close>

datatype rv_op =
    Op_Receive socket
  | Op_Timeout socket
  | Op_Expire socket
  | Op_Data_Accept socket
  | Op_Data_Frame socket "string option io_result"
  | Op_Data_Send socket

definition visitor_in :: "rendezvous \<Rightarrow> socket \<Rightarrow> (visitor \<Rightarrow> bool) \<Rightarrow> bool" where
  "visitor_in rv v p = (case rv_visitors rv v of None \<Rightarrow> False | Some vs \<Rightarrow> p vs)"

fun op_enabled :: "rv_op \<Rightarrow> rendezvous \<Rightarrow> bool" where
  "op_enabled (Op_Receive v) rv =
     visitor_in rv v (\<lambda>vs. vs_phase vs = V_Waiting \<and> vs_inbox vs \<noteq> None)"
| "op_enabled (Op_Timeout v) rv =
     visitor_in rv v (\<lambda>vs. vs_phase vs = V_Waiting)"
| "op_enabled (Op_Expire v) rv = visitor_in rv v (\<lambda>vs. vs_phase vs = V_Expired)"
| "op_enabled (Op_Data_Accept d) rv = (rv_handlers rv d = None)"
| "op_enabled (Op_Data_Frame d _) rv = (rv_handlers rv d = Some H_Reading)"
| "op_enabled (Op_Data_Send d) rv =
     (case rv_handlers rv d of Some (H_Holding _ _) \<Rightarrow> True | _ \<Rightarrow> False)"

text \<open>\<open>handle_data_conn\<close> decodes the opening frame; a missing one is dropped.\<close>

definition data_message :: "codec \<Rightarrow> string option io_result \<Rightarrow> message option" where
  "data_message cd frame =
     (case frame of Io_Ok (Some line) \<Rightarrow> from_line cd line | _ \<Rightarrow> None)"

fun op_apply :: "codec \<Rightarrow> rv_op \<Rightarrow> rendezvous \<Rightarrow> rendezvous" where
  "op_apply cd (Op_Receive v) rv = rv_receive v rv"
| "op_apply cd (Op_Timeout v) rv = rv_timeout v rv"
| "op_apply cd (Op_Expire v) rv = rv_expire v rv"
| "op_apply cd (Op_Data_Accept d) rv = rv_data_accept d rv"
| "op_apply cd (Op_Data_Frame d frame) rv = rv_data_frame d (data_message cd frame) rv"
| "op_apply cd (Op_Data_Send d) rv = rv_data_send d rv"

text \<open>One data connection from \<open>accept\<close> to the delivery of its socket, undisturbed; what is left
  of the stream goes with the socket.\<close>

definition serve_data_conn :: "codec \<Rightarrow> socket \<Rightarrow> stream \<Rightarrow> rendezvous \<Rightarrow> rendezvous \<times> stream" where
  "serve_data_conn cd d s rv =
     (let (frame, s') = read_frame s
      in (op_apply cd (Op_Data_Send d)
            (op_apply cd (Op_Data_Frame d frame) (op_apply cd (Op_Data_Accept d) rv)), s'))"

section \<open>Operations are steps of the rendezvous\<close>

lemma visitor_inE:
  assumes "visitor_in rv v p"
  obtains vs where "rv_visitors rv v = Some vs" "p vs"
  using assms by (auto simp: visitor_in_def split: option.splits)

lemma op_step:
  assumes "op_enabled op rv"
  shows "rv_step aborts rv (op_apply cd op rv)"
proof (cases op)
  case (Op_Data_Send d)
  with assms show ?thesis
    by (auto split: option.splits handler_phase.splits intro: rv_step.data_send)
qed (use assms in \<open>auto elim!: visitor_inE intro: rv_step.intros\<close>)

lemma op_reachable:
  "rv_reachable aborts rv \<Longrightarrow> op_enabled op rv \<Longrightarrow> rv_reachable aborts (op_apply cd op rv)"
  by (rule rv_reachable.step [OF _ op_step])

section \<open>Tasks that announce visitors\<close>

text \<open>Between \<open>accept\<close> and the end of its notice a visitor is in the hands of one task: \<open>ntf\<close>
  maps the tasks of the server or the node to the visitor they are announcing.\<close>

definition announcing_ok :: "rendezvous \<Rightarrow> ('t \<rightharpoonup> socket \<times> string) \<Rightarrow> bool" where
  "announcing_ok rv ntf \<longleftrightarrow>
     (\<forall>c v i. ntf c = Some (v, i) \<longrightarrow>
        (\<exists>vs. rv_visitors rv v = Some vs \<and> vs_conn_id vs = i \<and> vs_phase vs = V_Notifying)) \<and>
     (\<forall>c d v i j. ntf c = Some (v, i) \<longrightarrow> ntf d = Some (v, j) \<longrightarrow> c = d)"

text \<open>Steps that keep the ids of visitors and who of them is still unannounced.\<close>

definition same_ids :: "rendezvous \<Rightarrow> rendezvous \<Rightarrow> bool" where
  "same_ids rv rv' \<longleftrightarrow>
     (\<forall>v. map_option vs_conn_id (rv_visitors rv' v) = map_option vs_conn_id (rv_visitors rv v) \<and>
        map_option (\<lambda>vs. vs_phase vs = V_Notifying) (rv_visitors rv' v) =
        map_option (\<lambda>vs. vs_phase vs = V_Notifying) (rv_visitors rv v))"

lemma same_ids_op: "op_enabled op rv \<Longrightarrow> same_ids rv (op_apply cd op rv)"
  by (cases op) (auto simp: same_ids_def rv_defs visitor_in_def split: rv_splits)

lemma same_ids_visitor:
  assumes "same_ids rv rv'" and "rv_visitors rv v = Some vs"
  obtains vs' where "rv_visitors rv' v = Some vs'" "vs_conn_id vs' = vs_conn_id vs"
    "(vs_phase vs' = V_Notifying) = (vs_phase vs = V_Notifying)"
  using assms(1) [unfolded same_ids_def, THEN spec [of _ v]] assms(2) that
  by (cases "rv_visitors rv' v") auto

lemma same_ids_sym: "same_ids rv rv' \<Longrightarrow> same_ids rv' rv"
  by (simp add: same_ids_def)

lemma same_ids_announcing:
  assumes "announcing_ok rv ntf" and "same_ids rv rv'"
  shows "announcing_ok rv' ntf"
  unfolding announcing_ok_def
proof (intro conjI allI impI)
  fix c v i
  assume "ntf c = Some (v, i)"
  then obtain vs where "rv_visitors rv v = Some vs" "vs_conn_id vs = i" "vs_phase vs = V_Notifying"
    using assms(1) unfolding announcing_ok_def by blast
  with assms(2) show "\<exists>vs. rv_visitors rv' v = Some vs \<and> vs_conn_id vs = i \<and> vs_phase vs = V_Notifying"
    by (metis same_ids_visitor)
qed (use assms(1) in \<open>auto simp: announcing_ok_def\<close>)

lemma same_ids_refl: "same_ids rv rv"
  by (simp add: same_ids_def)

lemma set_phase_other: "w \<noteq> v \<Longrightarrow> rv_visitors (set_phase v ph rv) w = rv_visitors rv w"
  by (simp add: set_phase_def split: option.split)

text \<open>A visitor is accepted under an id never drawn, or its announcement ends.\<close>

lemma announcing_accept:
  assumes "announcing_ok rv ntf" and "rv_visitors rv v = None" and "ntf c = None"
  shows "announcing_ok (rv_accept v u rv) (ntf(c \<mapsto> (v, u)))"
proof -
  have "w \<noteq> v" if "ntf d = Some (w, j)" for d w j
    using assms(1,2) that unfolding announcing_ok_def by (metis option.distinct(1))
  with assms(1) show ?thesis
    unfolding announcing_ok_def by (simp add: rv_accept_def) blast
qed

lemma announcing_end:
  assumes "announcing_ok rv ntf" and "ntf c = Some (v, i)"
    and "\<And>w. w \<noteq> v \<Longrightarrow> rv_visitors rv' w = rv_visitors rv w"
  shows "announcing_ok rv' (ntf(c := None))"
proof -
  have "w \<noteq> v" if "ntf d = Some (w, j)" "d \<noteq> c" for d w j
    using assms(1,2) that unfolding announcing_ok_def by blast
  with assms(1,3) show ?thesis
    unfolding announcing_ok_def by simp
qed

section \<open>A whole data connection\<close>

text \<open>When the opening frame names the id of a waiting visitor, the socket ends in that
  visitor's channel, the id leaves the table, every other visitor is untouched, and what
  came after the frame is still on the stream.\<close>

lemma data_conn_delivers:
  assumes "wire_codec cd" and "valid_utf8 c"
    and "to_line cd (Data_Conn \<lparr>dc_conn_id = c\<rparr>) = Some l"
    and "rv_pending rv c = Some v" and "rv_visitors rv v = Some vs" and "vs_phase vs = V_Waiting"
  shows "case serve_data_conn cd d \<lparr>sm_bytes = l @ rest, sm_end = e\<rparr> rv of (rv', s') \<Rightarrow>
    rv_visitors rv' = (rv_visitors rv)(v \<mapsto> vs\<lparr>vs_inbox := Some d\<rparr>) \<and>
    rv_pending rv' = (rv_pending rv)(c := None) \<and>
    s' = \<lparr>sm_bytes = rest, sm_end = e\<rparr>"
proof -
  have "wf_message (Data_Conn \<lparr>dc_conn_id = c\<rparr>)"
    using assms(2) by (simp add: wf_message_def)
  from read_sent_frame [OF assms(1) this assms(3), of rest e]
  obtain frame where "read_frame \<lparr>sm_bytes = l @ rest, sm_end = e\<rparr> =
      (Io_Ok (Some frame), \<lparr>sm_bytes = rest, sm_end = e\<rparr>)"
    "from_line cd frame = Some (Data_Conn \<lparr>dc_conn_id = c\<rparr>)" .
  with assms(4-6) show ?thesis
    by (simp add: serve_data_conn_def data_message_def rv_defs)
qed

end
