(* ===== verification/Port_Manager.thy ===== *)
theory Port_Manager
  imports Prelude
begin

text \<open>
  \<open>crates/server/src/port_mgr.rs\<close>: the pool of public ports. The pool is the set of free
  ports together with the inclusive range it manages; the mutex around the set makes each
  operation one atomic step. \<open>acquire\<close> takes the result of \<open>IteratorRandom::choose\<close> as an
  argument: the random generator belongs to the \<open>rand\<close> crate, which promises an element
  of the iterator, and \<open>None\<close> only when it is empty (\<open>chosen_from\<close>).

  The interface \<open>port_pool\<close> states what the control plane relies on: which ports are free
  after an operation. Its lemmas follow ownership through any client; the pool of the code
  is an interpretation.
\<close>

section \<open>State and operations\<close>

record port_manager =
  available :: "u16 set"
  port_range :: "u16 \<times> u16"

definition pm_new :: "u16 \<Rightarrow> u16 \<Rightarrow> port_manager" where
  "pm_new start end = \<lparr>available = {start..end}, port_range = (start, end)\<rparr>"

definition in_range :: "port_manager \<Rightarrow> u16 \<Rightarrow> bool" where
  "in_range pm p \<longleftrightarrow> fst (port_range pm) \<le> p \<and> p \<le> snd (port_range pm)"

definition chosen_from :: "'a set \<Rightarrow> 'a option \<Rightarrow> bool" where
  "chosen_from S c \<longleftrightarrow> (case c of None \<Rightarrow> S = {} | Some x \<Rightarrow> x \<in> S)"

definition acquire :: "u16 option \<Rightarrow> port_manager \<Rightarrow> port_manager \<times> u16 option" where
  "acquire chosen pm =
     (case chosen of
        Some p \<Rightarrow> (pm\<lparr>available := available pm - {p}\<rparr>, chosen)
      | None \<Rightarrow> (pm, chosen))"

definition acquire_specific :: "u16 \<Rightarrow> port_manager \<Rightarrow> port_manager \<times> u16 option" where
  "acquire_specific p pm =
     (if \<not> in_range pm p then (pm, None)
      else if p \<in> available pm then (pm\<lparr>available := available pm - {p}\<rparr>, Some p)
      else (pm, None))"

definition release :: "u16 \<Rightarrow> port_manager \<Rightarrow> port_manager" where
  "release p pm =
     (if \<not> in_range pm p then pm else pm\<lparr>available := insert p (available pm)\<rparr>)"

definition available_count :: "port_manager \<Rightarrow> nat" where
  "available_count pm = card (available pm)"

text \<open>The pool never holds a port outside its range.\<close>

definition pool_wf :: "port_manager \<Rightarrow> bool" where
  "pool_wf pm \<longleftrightarrow> (\<forall>p \<in> available pm. in_range pm p)"

lemmas pool_defs =
  pm_new_def in_range_def acquire_def acquire_specific_def release_def pool_wf_def
  chosen_from_def

section \<open>The interface the control plane relies on\<close>

locale port_pool =
  fixes free :: "'pool \<Rightarrow> 'port set"
    and managed :: "'pool \<Rightarrow> 'port set"
    and take_any :: "'port option \<Rightarrow> 'pool \<Rightarrow> 'pool \<times> 'port option"
    and take_port :: "'port \<Rightarrow> 'pool \<Rightarrow> 'pool \<times> 'port option"
    and give_back :: "'port \<Rightarrow> 'pool \<Rightarrow> 'pool"
  assumes take_any_result:
      "chosen_from (free pool) c \<Longrightarrow> snd (take_any c pool) = c"
    and take_any_free:
      "free (fst (take_any c pool)) = free pool - set_option c"
    and take_port_result:
      "snd (take_port p pool) = (if p \<in> managed pool \<and> p \<in> free pool then Some p else None)"
    and take_port_free:
      "free (fst (take_port p pool)) =
         (if p \<in> managed pool then free pool - {p} else free pool)"
    and give_back_free:
      "free (give_back p pool) =
         (if p \<in> managed pool then insert p (free pool) else free pool)"
    and managed_take_any: "managed (fst (take_any c pool)) = managed pool"
    and managed_take_port: "managed (fst (take_port p pool)) = managed pool"
    and managed_give_back: "managed (give_back p pool) = managed pool"
begin

lemmas pool_laws =
  take_any_free take_port_free give_back_free managed_take_any managed_take_port
  managed_give_back

text \<open>A request is a specific port or any port (with the generator's choice).\<close>

definition take :: "'port option \<Rightarrow> 'port option \<Rightarrow> 'pool \<Rightarrow> 'pool \<times> 'port option" where
  "take wanted c pool =
     (case wanted of Some p \<Rightarrow> take_port p pool | None \<Rightarrow> take_any c pool)"

lemma take_managed: "managed (fst (take w c pool)) = managed pool"
  by (simp add: take_def pool_laws split: option.splits)

lemma take_Some:
  assumes "free pool \<subseteq> managed pool" and "chosen_from (free pool) c"
    and "snd (take w c pool) = Some p"
  shows "p \<in> free pool \<and> free (fst (take w c pool)) = free pool - {p}"
  using assms
  by (auto simp: take_def take_any_result take_port_result take_any_free take_port_free
        chosen_from_def split: option.splits if_splits)

lemma take_None:
  assumes "free pool \<subseteq> managed pool" and "chosen_from (free pool) c"
    and "snd (take w c pool) = None"
  shows "free (fst (take w c pool)) = free pool"
  using assms
  by (auto simp: take_def take_any_result take_port_result take_any_free take_port_free
        chosen_from_def split: option.splits if_splits)

text \<open>Ownership: with \<open>own\<close> the ports handed out, free and owned ports partition the
  managed range.\<close>

definition partitioned :: "'pool \<Rightarrow> 'port set \<Rightarrow> bool" where
  "partitioned pool own \<longleftrightarrow> free pool \<union> own = managed pool \<and> free pool \<inter> own = {}"

lemma partitioned_take:
  assumes "partitioned pool own" and "chosen_from (free pool) c"
  shows "partitioned (fst (take w c pool)) (own \<union> set_option (snd (take w c pool)))"
proof -
  have sub: "free pool \<subseteq> managed pool" using assms(1) by (auto simp: partitioned_def)
  show ?thesis
  proof (cases "snd (take w c pool)")
    case None
    with take_None [OF sub assms(2)] assms(1) show ?thesis
      by (simp add: partitioned_def take_managed)
  next
    case (Some p)
    with take_Some [OF sub assms(2) Some] assms(1) show ?thesis
      by (auto simp: partitioned_def take_managed)
  qed
qed

lemma partitioned_give_back:
  assumes "partitioned pool own" and "p \<in> own"
  shows "partitioned (give_back p pool) (own - {p})"
  using assms by (auto simp: partitioned_def give_back_free managed_give_back)

lemma take_not_owned:
  assumes "partitioned pool own" and "chosen_from (free pool) c"
    and "snd (take w c pool) = Some p"
  shows "p \<notin> own \<and> p \<in> managed pool"
  using assms take_Some [of pool c w p] by (auto simp: partitioned_def)

text \<open>The same with the clients named: \<open>m\<close> maps each client to the port it holds.\<close>

definition leased :: "'pool \<Rightarrow> ('c \<rightharpoonup> 'port) \<Rightarrow> bool" where
  "leased pool m \<longleftrightarrow> partitioned pool (ran m) \<and> inj_on m (dom m)"

lemma leased_take:
  assumes "leased pool m" and "chosen_from (free pool) ch"
    and "snd (take w ch pool) = Some p" and "m c = None"
  shows "leased (fst (take w ch pool)) (m(c \<mapsto> p))"
proof -
  have p: "p \<notin> ran m"
    using take_not_owned [OF _ assms(2,3)] assms(1) by (simp add: leased_def)
  have "inj_on (m(c \<mapsto> p)) (dom (m(c \<mapsto> p)))"
    using assms(1,4) p by (auto simp: leased_def inj_on_def ran_def)
  moreover have "ran (m(c \<mapsto> p)) = ran m \<union> {p}" using assms(4) by auto
  ultimately show ?thesis
    using partitioned_take [OF _ assms(2), of "ran m" w] assms(1,3) by (simp add: leased_def)
qed

lemma leased_refused:
  assumes "leased pool m" and "chosen_from (free pool) ch" and "snd (take w ch pool) = None"
  shows "leased (fst (take w ch pool)) m"
  using partitioned_take [OF _ assms(2), of "ran m" w] assms(1,3) by (simp add: leased_def)

lemma leased_give_back:
  assumes "leased pool m" and "m c = Some p"
  shows "leased (give_back p pool) (m(c := None))"
proof -
  have "d = c" if "m d = Some p" for d
    using assms that unfolding leased_def by (metis domI inj_onD)
  then have "(\<exists>d. (m(c := None)) d = Some q) \<longleftrightarrow> (\<exists>d. m d = Some q) \<and> q \<noteq> p" for q
    using assms(2) by (metis fun_upd_apply option.distinct(1) option.inject)
  then have "ran (m(c := None)) = ran m - {p}"
    by (simp add: ran_def set_eq_iff)
  moreover have "inj_on (m(c := None)) (dom (m(c := None)))"
    using assms(1) by (auto simp: leased_def inj_on_def)
  moreover have "p \<in> ran m" using assms(2) by (auto simp: ran_def)
  ultimately show ?thesis
    using partitioned_give_back [of pool "ran m" p] assms(1) by (simp add: leased_def)
qed

lemma leased_unique: "leased pool m \<Longrightarrow> m c = Some p \<Longrightarrow> m d = Some p \<Longrightarrow> c = d"
  unfolding leased_def by (metis domI inj_onD)

lemma leased_not_free: "leased pool m \<Longrightarrow> m c = Some p \<Longrightarrow> p \<in> managed pool \<and> p \<notin> free pool"
  by (auto simp: leased_def partitioned_def ran_def)

end

definition managed_ports :: "port_manager \<Rightarrow> u16 set" where
  "managed_ports pm = {fst (port_range pm)..snd (port_range pm)}"

lemma in_range_managed: "in_range pm p \<longleftrightarrow> p \<in> managed_ports pm"
  by (simp add: in_range_def managed_ports_def)

interpretation pm: port_pool available managed_ports acquire acquire_specific release
  by unfold_locales
    (auto simp: in_range_managed acquire_def acquire_specific_def release_def chosen_from_def
       managed_ports_def split: option.splits if_splits)

section \<open>Properties\<close>

lemma pool_wf_new: "pool_wf (pm_new a b)"
  by (simp add: pool_defs)

lemma pool_wf_acquire: "pool_wf pm \<Longrightarrow> pool_wf (fst (acquire c pm))"
  by (auto simp: pool_defs split: option.splits)

lemma pool_wf_acquire_specific: "pool_wf pm \<Longrightarrow> pool_wf (fst (acquire_specific p pm))"
  by (auto simp: pool_defs)

lemma pool_wf_release: "pool_wf pm \<Longrightarrow> pool_wf (release p pm)"
  by (auto simp: pool_defs)

text \<open>A run of the pool by its clients: requests and releases in any order.\<close>

datatype pool_op = Acquire "u16 option" | Acquire_Specific u16 | Release u16

fun pool_exec :: "pool_op \<Rightarrow> port_manager \<Rightarrow> port_manager" where
  "pool_exec (Acquire c) pm = fst (acquire c pm)"
| "pool_exec (Acquire_Specific p) pm = fst (acquire_specific p pm)"
| "pool_exec (Release p) pm = release p pm"

text \<open>Whatever its clients do, releases of foreign ports included, a pool made for a
  range only ever holds ports of that range, and its range never changes.\<close>

lemma pool_stays_in_range:
  "available (fold pool_exec ops (pm_new a b)) \<subseteq> {a..b} \<and>
   port_range (fold pool_exec ops (pm_new a b)) = (a, b)"
proof -
  have "pool_wf (fold pool_exec ops pm) \<and> port_range (fold pool_exec ops pm) = port_range pm"
    if "pool_wf pm" for pm
    using that
  proof (induction ops arbitrary: pm)
    case (Cons x ops)
    have "pool_wf (pool_exec x pm) \<and> port_range (pool_exec x pm) = port_range pm"
      using Cons.prems
      by (cases x) (auto simp: pool_wf_acquire pool_wf_acquire_specific pool_wf_release pool_defs
        split: option.splits)
    with Cons.IH [of "pool_exec x pm"] show ?case by simp
  qed simp
  from this [OF pool_wf_new [of a b]] show ?thesis
    by (auto simp: pool_wf_def in_range_def pm_new_def)
qed

end
