(* ===== verification/Node_Manager.thy ===== *)
theory Node_Manager
  imports Prelude
begin

text \<open>
  \<open>crates/server/src/node_manager.rs\<close>: the registry of connected edge nodes, a map from
  node id to \<open>node_info\<close> behind one mutex, so that each operation is one atomic step. The
  writer \<open>tx\<close> to the node's control stream is the number of the control connection it
  belongs to. \<open>register\<close> takes the UUID the code generates as an argument.

  The interface \<open>load_registry\<close> is what the control plane relies on for load balancing:
  how each operation changes the load of each registered node.
\<close>

type_synonym conn = nat

record node_info =
  ni_node_id :: string
  ni_name :: string
  ni_host :: string
  ni_data_port :: u16
  ni_tunnel_count :: nat
  ni_tx :: conn

type_synonym node_manager = "string \<rightharpoonup> node_info"

definition nm_new :: node_manager where
  "nm_new = Map.empty"

definition nm_register ::
    "string \<Rightarrow> string \<Rightarrow> string \<Rightarrow> u16 \<Rightarrow> conn \<Rightarrow> node_manager \<Rightarrow> node_manager" where
  "nm_register node_id name host data_port tx nodes =
     nodes(node_id \<mapsto> \<lparr>ni_node_id = node_id, ni_name = name, ni_host = host,
       ni_data_port = data_port, ni_tunnel_count = 0, ni_tx = tx\<rparr>)"

definition nm_remove :: "string \<Rightarrow> node_manager \<Rightarrow> node_manager" where
  "nm_remove node_id nodes = nodes(node_id := None)"

definition wanted_name :: "string option \<Rightarrow> node_info \<Rightarrow> bool" where
  "wanted_name want node \<longleftrightarrow> (case want of None \<Rightarrow> True | Some w \<Rightarrow> ni_name node = w)"

definition pick :: "string list \<Rightarrow> string option \<Rightarrow> node_manager \<Rightarrow> node_info option" where
  "pick order want nodes =
     min_by_key ni_tunnel_count (filter (wanted_name want) (values_in nodes order))"

definition increment_tunnels :: "string \<Rightarrow> node_manager \<Rightarrow> node_manager" where
  "increment_tunnels node_id nodes =
     (case nodes node_id of
        Some node \<Rightarrow> nodes(node_id \<mapsto> node\<lparr>ni_tunnel_count := ni_tunnel_count node + 1\<rparr>)
      | None \<Rightarrow> nodes)"

text \<open>\<open>saturating_sub(1)\<close> is subtraction on \<open>nat\<close>.\<close>

definition decrement_tunnels :: "string \<Rightarrow> node_manager \<Rightarrow> node_manager" where
  "decrement_tunnels node_id nodes =
     (case nodes node_id of
        Some node \<Rightarrow> nodes(node_id \<mapsto> node\<lparr>ni_tunnel_count := ni_tunnel_count node - 1\<rparr>)
      | None \<Rightarrow> nodes)"

definition nm_list :: "string list \<Rightarrow> node_manager \<Rightarrow> node_info list" where
  "nm_list order nodes = values_in nodes order"

lemmas nm_defs [handler_defs] =
  nm_register_def nm_remove_def increment_tunnels_def decrement_tunnels_def

section \<open>Invariant\<close>

definition nm_wf :: "node_manager \<Rightarrow> bool" where
  "nm_wf nodes \<longleftrightarrow> (\<forall>k n. nodes k = Some n \<longrightarrow> ni_node_id n = k)"

lemma nm_wf_new [simp]: "nm_wf nm_new"
  by (simp add: nm_wf_def nm_new_def)

lemma nm_wf_ops:
  assumes "nm_wf nodes"
  shows "nm_wf (nm_register i n h p tx nodes)" and "nm_wf (nm_remove i nodes)"
    and "nm_wf (increment_tunnels i nodes)" and "nm_wf (decrement_tunnels i nodes)"
  using assms by (auto simp: nm_wf_def nm_defs split: option.splits)

section \<open>The interface for load balancing\<close>

locale load_registry =
  fixes load :: "'r \<Rightarrow> 'k \<rightharpoonup> nat"
    and add_node :: "'k \<Rightarrow> 'd \<Rightarrow> 'r \<Rightarrow> 'r"
    and drop_node :: "'k \<Rightarrow> 'r \<Rightarrow> 'r"
    and more :: "'k \<Rightarrow> 'r \<Rightarrow> 'r"
    and less :: "'k \<Rightarrow> 'r \<Rightarrow> 'r"
  assumes load_add: "load (add_node k d r) = (load r)(k \<mapsto> 0)"
    and load_drop: "load (drop_node k r) = (load r)(k := None)"
    and load_more: "load (more k r) = (\<lambda>j. if j = k then map_option Suc (load r j) else load r j)"
    and load_less:
      "load (less k r) = (\<lambda>j. if j = k then map_option (\<lambda>n. n - 1) (load r j) else load r j)"
begin

lemmas load_laws = load_add load_drop load_more load_less

lemma more_less_inverse: "load (less k (more k r)) = load r"
  by (auto simp: load_laws fun_eq_iff option.map_comp comp_def option.map_ident)

text \<open>\<open>sessions k\<close> counts the sessions a client has open on node \<open>k\<close>.\<close>

definition counts :: "'r \<Rightarrow> ('k \<Rightarrow> nat) \<Rightarrow> bool" where
  "counts r sessions \<longleftrightarrow> (\<forall>k n. load r k = Some n \<longrightarrow> n = sessions k)"

lemma counts_add: "counts r s \<Longrightarrow> s k = 0 \<Longrightarrow> counts (add_node k d r) s"
  by (simp add: counts_def load_add)

lemma counts_drop: "counts r s \<Longrightarrow> counts (drop_node k r) s"
  by (simp add: counts_def load_drop)

lemma counts_more: "counts r s \<Longrightarrow> counts (more k r) (s(k := Suc (s k)))"
  by (auto simp: counts_def load_more)

lemma counts_less: "counts r s \<Longrightarrow> counts (less k r) (s(k := s k - 1))"
  by (auto simp: counts_def load_less)

lemma less_never_saturates:
  "counts r s \<Longrightarrow> 0 < s k \<Longrightarrow> load r k = Some n \<Longrightarrow> load (less k r) k = Some m \<Longrightarrow> n = Suc m"
  by (auto simp: counts_def load_less)

end

definition node_load :: "node_manager \<Rightarrow> string \<rightharpoonup> nat" where
  "node_load nodes k = map_option ni_tunnel_count (nodes k)"

text \<open>What a node brings to its registration: name, host, data port and connection.\<close>

definition register_as ::
    "string \<Rightarrow> string \<times> string \<times> u16 \<times> conn \<Rightarrow> node_manager \<Rightarrow> node_manager" where
  "register_as node_id d nodes =
     (case d of (name, host, data_port, tx) \<Rightarrow> nm_register node_id name host data_port tx nodes)"

interpretation nm: load_registry node_load register_as nm_remove increment_tunnels decrement_tunnels
  by unfold_locales
    (auto simp: node_load_def register_as_def nm_defs fun_eq_iff split: option.splits prod.splits)

lemma pick_in:
  assumes "iteration_order nodes order" and "pick order want nodes = Some n" and "nm_wf nodes"
  shows "nodes (ni_node_id n) = Some n \<and> wanted_name want n"
proof -
  have "n \<in> set (filter (wanted_name want) (values_in nodes order))"
    using assms(2) by (simp only: pick_def min_by_key_in)
  with set_values_in [OF assms(1)] assms(3) show ?thesis by (auto simp: nm_wf_def ran_def)
qed

section \<open>Properties\<close>

text \<open>C33: for every iteration order of the map, \<open>pick\<close> returns a registered node with the
  requested name (any node without a request) and no such node carries fewer tunnels; it
  returns \<open>None\<close> exactly when there is no such node.\<close>

theorem pick_correct:
  assumes "iteration_order nodes order"
  shows "(case pick order want nodes of
      None \<Rightarrow> \<forall>node \<in> ran nodes. \<not> wanted_name want node
    | Some node \<Rightarrow> node \<in> ran nodes \<and> wanted_name want node \<and>
        (\<forall>other \<in> ran nodes. wanted_name want other \<longrightarrow>
           ni_tunnel_count node \<le> ni_tunnel_count other))"
proof -
  let ?cs = "filter (wanted_name want) (values_in nodes order)"
  have cs: "set ?cs = {n \<in> ran nodes. wanted_name want n}"
    using set_values_in [OF assms] by auto
  show ?thesis
  proof (cases "pick order want nodes")
    case None
    then have "?cs = []" by (simp add: pick_def del: filter_empty_conv)
    with cs None show ?thesis by auto
  next
    case (Some n)
    then have "min_by_key ni_tunnel_count ?cs = Some n" by (simp add: pick_def)
    with min_by_key_in [OF this] min_by_key_least [OF this] cs Some show ?thesis by auto
  qed
qed

theorem pick_correct_witness:
  "\<exists>node. pick [''a'', ''b''] (Some ''n'')
     (nm_register ''b'' ''n'' ''h'' 7002 1 (nm_register ''a'' ''m'' ''h'' 7001 0 nm_new)) = Some node"
proof -
  let ?nodes = "nm_register ''b'' ''n'' ''h'' 7002 1 (nm_register ''a'' ''m'' ''h'' 7001 0 nm_new)"
  have "iteration_order ?nodes [''a'', ''b'']"
    by (auto simp: iteration_order_def nm_register_def nm_new_def)
  note this [THEN pick_correct, of "Some ''n''"]
  moreover obtain node where "?nodes ''b'' = Some node" "ni_name node = ''n''"
    by (simp add: nm_register_def)
  then have "node \<in> ran ?nodes" "wanted_name (Some ''n'') node"
    by (auto simp: ran_def wanted_name_def simp del: fun_upd_apply)
  ultimately show ?thesis by (auto split: option.splits)
qed

end
