(* ===== verification/History.thy ===== *)
theory History
  imports Prelude
begin

text \<open>
  \<open>crates/server/src/history.rs\<close>: two ring buffers of fixed capacity, the last closed
  tunnels and the last visitor connections, and their read access for the dashboard. A
  \<open>VecDeque\<close> is a list with its front first. Each buffer sits behind its own mutex.

  The interface \<open>capped_log\<close> states what recording does to the entries; what the log
  holds after any number of records is proved once in it and used for both buffers.
\<close>

definition MAX_TUNNELS :: nat where
  "MAX_TUNNELS = 500"

definition MAX_CONNECTIONS :: nat where
  "MAX_CONNECTIONS = 1000"

record tunnel_history =
  th_tunnel_id :: string
  th_protocol :: string
  th_local_port :: u16
  th_remote_port :: u16
  th_node :: "string option"
  th_started_at :: string
  th_ended_at :: string
  th_duration_secs :: nat

record connection_history =
  ch_tunnel_id :: string
  ch_conn_id :: string
  ch_source_ip :: string
  ch_source_port :: u16
  ch_connected_at :: string
  ch_duration_secs :: nat

record history =
  hs_tunnels :: "tunnel_history list"
  hs_connections :: "connection_history list"

definition history_new :: history where
  "history_new = \<lparr>hs_tunnels = [], hs_connections = []\<rparr>"

definition record_tunnel :: "tunnel_history \<Rightarrow> history \<Rightarrow> history" where
  "record_tunnel entry h =
     (let queue = hs_tunnels h;
          queue' = (if length queue = MAX_TUNNELS then tl queue else queue)
      in h\<lparr>hs_tunnels := queue' @ [entry]\<rparr>)"

definition record_connection :: "connection_history \<Rightarrow> history \<Rightarrow> history" where
  "record_connection entry h =
     (let queue = hs_connections h;
          queue' = (if length queue = MAX_CONNECTIONS then tl queue else queue)
      in h\<lparr>hs_connections := queue' @ [entry]\<rparr>)"

definition recent_tunnels :: "nat \<Rightarrow> nat \<Rightarrow> history \<Rightarrow> tunnel_history list" where
  "recent_tunnels limit offset h = take limit (drop offset (rev (hs_tunnels h)))"

definition recent_connections ::
    "string option \<Rightarrow> nat \<Rightarrow> history \<Rightarrow> connection_history list" where
  "recent_connections tunnel_id limit h =
     take limit (filter (\<lambda>c. case tunnel_id of None \<Rightarrow> True | Some i \<Rightarrow> ch_tunnel_id c = i)
       (rev (hs_connections h)))"

section \<open>Capped logs\<close>

text \<open>The last \<open>n\<close> elements of a list.\<close>

definition last_n :: "nat \<Rightarrow> 'a list \<Rightarrow> 'a list" where
  "last_n n xs = drop (length xs - n) xs"

lemma length_last_n [simp]: "length (last_n n xs) = min n (length xs)"
  by (simp add: last_n_def)

lemma rev_last_n: "rev (last_n n xs) = take n (rev xs)"
  by (cases "n \<le> length xs") (simp_all add: last_n_def rev_drop)

lemma last_n_snoc:
  assumes "0 < n"
  shows "last_n n (xs @ [x]) =
    (if length (last_n n xs) = n then tl (last_n n xs) else last_n n xs) @ [x]"
proof (cases "n \<le> length xs")
  case True
  then have "length (xs @ [x]) - n = Suc (length xs - n)" using assms by simp
  with True assms show ?thesis
    by (simp add: last_n_def tl_drop drop_Suc)
qed (simp add: last_n_def)

locale capped_log =
  fixes entries :: "'log \<Rightarrow> 'e list"
    and push :: "'e \<Rightarrow> 'log \<Rightarrow> 'log"
    and cap :: nat
  assumes cap_positive: "0 < cap"
    and entries_push:
      "entries (push e q) = (if length (entries q) = cap then tl (entries q) else entries q) @ [e]"
begin

lemma entries_pushes:
  assumes "entries q = last_n cap xs"
  shows "entries (fold push es q) = last_n cap (xs @ es)"
  using assms
proof (induction es arbitrary: q xs)
  case (Cons e es)
  have "entries (push e q) = last_n cap (xs @ [e])"
    using Cons.prems by (simp add: entries_push last_n_snoc [OF cap_positive])
  from Cons.IH [OF this] show ?case by simp
qed simp

lemma entries_from_empty:
  assumes "entries q = []"
  shows "entries (fold push es q) = last_n cap es"
  using entries_pushes [of q "[]" es] assms by (simp add: last_n_def)

lemma length_push: "length (entries q) \<le> cap \<Longrightarrow> length (entries (push e q)) \<le> cap"
  using cap_positive by (auto simp: entries_push)

lemma length_pushes: "length (entries q) \<le> cap \<Longrightarrow> length (entries (fold push es q)) \<le> cap"
  by (induction es arbitrary: q) (simp_all add: length_push)

end

interpretation tunnel_log: capped_log hs_tunnels record_tunnel MAX_TUNNELS
  by unfold_locales (simp_all add: record_tunnel_def MAX_TUNNELS_def Let_def)

interpretation connection_log: capped_log hs_connections record_connection MAX_CONNECTIONS
  by unfold_locales (simp_all add: record_connection_def MAX_CONNECTIONS_def Let_def)

lemma record_tunnel_connections [simp]: "hs_connections (record_tunnel e h) = hs_connections h"
  and record_connection_tunnels [simp]: "hs_tunnels (record_connection c h) = hs_tunnels h"
  by (simp_all add: record_tunnel_def record_connection_def Let_def)

section \<open>Properties\<close>

text \<open>A page of the tunnel history after any number of closed tunnels is that page of the
  500 most recent ones, newest first; older ones are gone and none of the recent is lost.\<close>

lemma recent_tunnels_after:
  "recent_tunnels limit offset (fold record_tunnel closed history_new) =
   take limit (drop offset (take 500 (rev closed)))"
  using tunnel_log.entries_from_empty [of history_new closed]
  by (simp add: recent_tunnels_def rev_last_n history_new_def MAX_TUNNELS_def)

text \<open>The connection history of one tunnel (or of all) is taken from the 1000 most recent
  connections, newest first, up to the limit.\<close>

lemma recent_connections_after:
  "recent_connections tunnel limit (fold record_connection served history_new) =
   take limit (filter (\<lambda>c. tunnel = None \<or> tunnel = Some (ch_tunnel_id c))
     (take 1000 (rev served)))"
proof -
  have "(\<lambda>c :: connection_history. case tunnel of None \<Rightarrow> True | Some i \<Rightarrow> ch_tunnel_id c = i) =
      (\<lambda>c. tunnel = None \<or> tunnel = Some (ch_tunnel_id c))"
    by (cases tunnel) auto
  with connection_log.entries_from_empty [of history_new served] show ?thesis
    by (simp add: recent_connections_def rev_last_n history_new_def MAX_CONNECTIONS_def)
qed

lemma recent_tunnels_pages:
  "recent_tunnels (a + b) offset h = recent_tunnels a offset h @ recent_tunnels b (offset + a) h"
  by (simp add: recent_tunnels_def take_add add.commute)

end
