(* ===== verification/Events.thy ===== *)
theory Events
  imports Proto "HOL-Library.Sublist"
begin

text \<open>
  \<open>crates/server/src/events.rs\<close> and \<open>stream_events\<close> of
  \<open>crates/server/src/api/tunnels.rs\<close>: the event bus of the dashboard. The bus is a
  \<open>tokio::sync::broadcast\<close> channel, whose documented behaviour is written out: a receiver
  sees the messages sent after it subscribed, the channel retains the last \<open>capacity\<close> of
  them, and a receiver that fell further behind is told so once and goes on with the
  oldest one retained.

  The bus is the list of all events published; a receiver is its position in the list.
\<close>

definition CHANNEL_CAPACITY :: nat where
  "CHANNEL_CAPACITY = 256"

datatype bh_event =
    Tunnel_Opened (opened_tunnel_id: string) (opened_protocol: string) (opened_local_port: u16)
      (opened_remote_port: u16) (opened_node: string) (opened_started_at: string)
  | Tunnel_Closed string
  | Node_Connected string string
  | Node_Left string

type_synonym event_bus = "bh_event list"
type_synonym receiver = nat

definition event_bus_new :: event_bus where
  "event_bus_new = []"

definition publish :: "bh_event \<Rightarrow> event_bus \<Rightarrow> event_bus" where
  "publish event bus = bus @ [event]"

definition subscribe :: "event_bus \<Rightarrow> receiver" where
  "subscribe bus = length bus"

datatype received = Event bh_event | Lagged nat | Empty

definition receive :: "event_bus \<Rightarrow> receiver \<Rightarrow> received \<times> receiver" where
  "receive bus pos =
     (if length bus \<le> pos then (Empty, pos)
      else if length bus - pos > CHANNEL_CAPACITY then
        (Lagged (length bus - CHANNEL_CAPACITY - pos), length bus - CHANNEL_CAPACITY)
      else (Event (bus ! pos), pos + 1))"

text \<open>The JSON of an event: internally tagged, snake case.\<close>

fun event_json :: "bh_event \<Rightarrow> json" where
  "event_json (Tunnel_Opened i p l r n s) =
     JObj [(''type'', JStr ''tunnel_opened''), (''tunnel_id'', JStr i), (''protocol'', JStr p),
       (''local_port'', port_json l), (''remote_port'', port_json r), (''node'', JStr n),
       (''started_at'', JStr s)]"
| "event_json (Tunnel_Closed i) =
     JObj [(''type'', JStr ''tunnel_closed''), (''tunnel_id'', JStr i)]"
| "event_json (Node_Connected i n) =
     JObj [(''type'', JStr ''node_connected''), (''node_id'', JStr i), (''name'', JStr n)]"
| "event_json (Node_Left i) = JObj [(''type'', JStr ''node_left''), (''node_id'', JStr i)]"

text \<open>One item of the server-sent stream: \<open>filter_map\<close> drops a lag notice, and an event
  that does not serialize.\<close>

definition stream_item :: "(json \<Rightarrow> string option) \<Rightarrow> received \<Rightarrow> string option" where
  "stream_item print r =
     (case r of Event e \<Rightarrow> print (event_json e) | Lagged _ \<Rightarrow> None | Empty \<Rightarrow> None)"

text \<open>The life of one dashboard client: at each turn handlers publish some events, or the
  client's stream is polled once.\<close>

datatype bus_turn = Published "bh_event list" | Polled

fun client_run :: "bus_turn list \<Rightarrow> event_bus \<Rightarrow> receiver \<Rightarrow> bh_event list" where
  "client_run [] bus pos = []"
| "client_run (Published es # ts) bus pos = client_run ts (fold publish es bus) pos"
| "client_run (Polled # ts) bus pos =
     (case receive bus pos of
        (Event e, pos') \<Rightarrow> e # client_run ts bus pos'
      | (_, pos') \<Rightarrow> client_run ts bus pos')"

fun published :: "bus_turn list \<Rightarrow> bh_event list" where
  "published [] = []"
| "published (Published es # ts) = es @ published ts"
| "published (Polled # ts) = published ts"

text \<open>A client keeps up when the channel is polled before more than its capacity is pending.\<close>

fun keeps_up :: "bus_turn list \<Rightarrow> nat \<Rightarrow> bool" where
  "keeps_up [] behind = True"
| "keeps_up (Published es # ts) behind = keeps_up ts (behind + length es)"
| "keeps_up (Polled # ts) behind = (behind \<le> CHANNEL_CAPACITY \<and> keeps_up ts (behind - 1))"

fun polls :: "bus_turn list \<Rightarrow> nat" where
  "polls [] = 0"
| "polls (Published es # ts) = polls ts"
| "polls (Polled # ts) = Suc (polls ts)"

lemma fold_publish: "fold publish es bus = bus @ es"
  by (induction es arbitrary: bus) (auto simp: publish_def)

lemma client_run_subseq:
  "pos \<le> length bus \<Longrightarrow> subseq (client_run ts bus pos) (drop pos bus @ published ts)"
proof (induction ts bus pos rule: client_run.induct)
  case (2 es ts bus pos)
  then show ?case by (simp add: fold_publish)
next
  case (3 ts bus pos)
  show ?case
  proof (cases "length bus \<le> pos")
    case True
    with 3 show ?thesis by (simp add: receive_def)
  next
    case False
    then have d: "drop pos bus = bus ! pos # drop (Suc pos) bus" by (simp add: Cons_nth_drop_Suc)
    show ?thesis
    proof (cases "length bus - pos > CHANNEL_CAPACITY")
      case True
      let ?p = "length bus - CHANNEL_CAPACITY"
      have "subseq (client_run ts bus ?p) (drop ?p bus @ published ts)"
        using 3(2) [of "Lagged (?p - pos)" ?p] True False by (simp add: receive_def)
      moreover have "drop pos bus = take (?p - pos) (drop pos bus) @ drop ?p bus"
        using True append_take_drop_id [of "?p - pos" "drop pos bus"] by simp
      ultimately show ?thesis
        using True False by (simp add: receive_def) (metis append_assoc list_emb_append2)
    next
      case False
      then show ?thesis
        using 3(1) [of "Event (bus ! pos)" "Suc pos" "bus ! pos"] \<open>\<not> length bus \<le> pos\<close> d
        by (simp add: receive_def)
    qed
  qed
qed simp

lemma client_run_drain:
  "length bus - pos \<le> n \<Longrightarrow> length bus - pos \<le> CHANNEL_CAPACITY \<Longrightarrow> pos \<le> length bus \<Longrightarrow>
   client_run (replicate n Polled) bus pos = drop pos bus"
proof (induction n arbitrary: pos)
  case (Suc n)
  show ?case
  proof (cases "length bus \<le> pos")
    case True
    with Suc show ?thesis by (simp add: receive_def)
  next
    case False
    then have "drop pos bus = bus ! pos # drop (Suc pos) bus" by (simp add: Cons_nth_drop_Suc)
    then show ?thesis
      using Suc.IH [of "Suc pos"] Suc.prems False by (simp add: receive_def)
  qed
qed simp

lemma keeps_up_drain: "keeps_up (replicate (Suc n) Polled) behind \<Longrightarrow> behind \<le> CHANNEL_CAPACITY"
  by simp

lemma client_run_all:
  "pos \<le> length bus \<Longrightarrow> keeps_up (ts @ replicate (Suc n) Polled) (length bus - pos) \<Longrightarrow>
   length bus - pos + length (published ts) \<le> Suc n \<Longrightarrow>
   client_run (ts @ replicate (Suc n) Polled) bus pos = drop pos bus @ published ts"
proof (induction ts bus pos rule: client_run.induct)
  case (1 bus pos)
  then show ?case using client_run_drain [of bus pos "Suc n"] keeps_up_drain by simp
next
  case (2 es ts bus pos)
  then show ?case by (simp add: fold_publish)
next
  case (3 ts bus pos)
  show ?case
  proof (cases "length bus \<le> pos")
    case True
    with 3 show ?thesis by (simp add: receive_def)
  next
    case False
    then have d: "drop pos bus = bus ! pos # drop (Suc pos) bus" by (simp add: Cons_nth_drop_Suc)
    then show ?thesis
      using 3(1) [of "Event (bus ! pos)" "Suc pos" "bus ! pos"] False "3.prems"
      by (simp add: receive_def)
  qed
qed

section \<open>Properties\<close>

text \<open>Whatever the interleaving of publications and polls, a dashboard client receives
  events published after it subscribed only, in their order and none twice; a client that
  lags loses events but never sees them reordered.\<close>

lemma events_in_order:
  "subseq (client_run ts bus (subscribe bus)) (published ts)"
  using client_run_subseq [of "subscribe bus" bus ts] by (simp add: subscribe_def)



end
