(* ===== verification/Server_State.thy ===== *)
theory Server_State
  imports Port_Manager Node_Manager History Rendezvous Events
begin

text \<open>
  \<open>ServerState\<close> of \<open>crates/server/src/control.rs\<close> with the types it holds: the state
  shared by every task of the server and by the HTTP API. Each field sits behind its own
  lock; the operations on a field are those of its component, lifted to the record here.

  A control connection, and the \<open>Notify\<close> that closes the tunnel served on it, are numbers;
  \<open>sv_permits\<close> holds the connections whose \<open>Notify\<close> has a stored permit (\<open>notify_one\<close>
  stores at most one).
\<close>

record tunnel_entry =
  te_protocol :: protocol
  te_local_port :: u16
  te_remote_port :: u16
  te_node :: "string option"
  te_hostname :: "string option"
  te_started_at :: timestamp
  te_route :: "(conn \<times> string \<times> u16) option"
  te_close :: conn

record user_config =
  uc_email :: string
  uc_password_hash :: string

record token_info =
  ti_id :: string
  ti_name :: string
  ti_scope :: string
  ti_created_at :: string
  ti_revoked :: bool

record device_record =
  dv_id :: string
  dv_hostname :: string
  dv_last_seen_at :: timestamp

record server =
  sv_port_mgr :: port_manager
  sv_tokens :: "string list"
  sv_pending :: rendezvous
  sv_node_manager :: node_manager
  sv_active_tunnels :: "string \<rightharpoonup> tunnel_entry"
  sv_jwt_secret :: string
  sv_users :: "user_config list"
  sv_event_bus :: event_bus
  sv_api_tokens :: "string \<rightharpoonup> token_info list"
  sv_devices :: "device_record list"
  sv_history :: history
  sv_permits :: "conn set"

record server_config =
  cf_bind_control :: string
  cf_bind_http :: string
  cf_port_range :: "u16 \<times> u16"
  cf_tokens :: "string list"
  cf_jwt_secret :: string
  cf_users :: "user_config list"

definition server_new :: "server_config \<Rightarrow> server" where
  "server_new cfg =
     \<lparr>sv_port_mgr = pm_new (fst (cf_port_range cfg)) (snd (cf_port_range cfg)),
      sv_tokens = cf_tokens cfg, sv_pending = rv_new, sv_node_manager = nm_new,
      sv_active_tunnels = Map.empty, sv_jwt_secret = cf_jwt_secret cfg, sv_users = cf_users cfg,
      sv_event_bus = event_bus_new, sv_api_tokens = Map.empty, sv_devices = [],
      sv_history = history_new, sv_permits = {}\<rparr>"

section \<open>Operations lifted to the record\<close>

definition sv_publish :: "bh_event \<Rightarrow> server \<Rightarrow> server" where
  "sv_publish e s = s\<lparr>sv_event_bus := publish e (sv_event_bus s)\<rparr>"

definition insert_tunnel :: "string \<Rightarrow> tunnel_entry \<Rightarrow> server \<Rightarrow> server" where
  "insert_tunnel i e s = s\<lparr>sv_active_tunnels := (sv_active_tunnels s)(i \<mapsto> e)\<rparr>"

text \<open>\<open>remove\<close> returns the entry removed.\<close>

definition remove_tunnel :: "string \<Rightarrow> server \<Rightarrow> server \<times> tunnel_entry option" where
  "remove_tunnel i s =
     (s\<lparr>sv_active_tunnels := (sv_active_tunnels s)(i := None)\<rparr>, sv_active_tunnels s i)"

definition known_token :: "string \<Rightarrow> server \<Rightarrow> bool" where
  "known_token t s \<longleftrightarrow> (\<exists>u \<in> set (sv_tokens s). u = t)"

definition protocol_str :: "protocol \<Rightarrow> string" where
  "protocol_str p = (case p of Tcp \<Rightarrow> ''tcp'' | Http \<Rightarrow> ''http'')"

section \<open>Devices\<close>

text \<open>\<open>upsert_device\<close>: the first device with the host name is refreshed, else a new one is
  appended under a fresh id.\<close>

definition upsert :: "string \<Rightarrow> timestamp \<Rightarrow> string \<Rightarrow> device_record list \<Rightarrow> device_record list" where
  "upsert hostname now uuid devices =
     (case List.find (\<lambda>d. dv_hostname d = hostname) devices of
        Some _ \<Rightarrow> update_first (\<lambda>d. dv_hostname d = hostname) (dv_last_seen_at_update (\<lambda>_. now)) devices
      | None \<Rightarrow>
          devices @ [\<lparr>dv_id = uuid, dv_hostname = hostname, dv_last_seen_at = now\<rparr>])"

definition upsert_device :: "string \<Rightarrow> timestamp \<Rightarrow> string \<Rightarrow> server \<Rightarrow> server" where
  "upsert_device hostname now uuid s = s\<lparr>sv_devices := upsert hostname now uuid (sv_devices s)\<rparr>"

lemma upsert_hostnames:
  "map dv_hostname (upsert h now u ds) =
     map dv_hostname ds @ (if h \<in> dv_hostname ` set ds then [] else [h])"
proof (cases "List.find (\<lambda>d. dv_hostname d = h) ds")
  case None
  then have "h \<notin> dv_hostname ` set ds" by (auto simp: find_None_iff)
  with None show ?thesis by (simp add: upsert_def)
next
  case (Some d)
  then have "h \<in> dv_hostname ` set ds" by (auto simp: find_Some_iff)
  with Some show ?thesis by (simp add: upsert_def map_update_first)
qed

lemma find_append:
  "List.find p (xs @ ys) = (case List.find p xs of None \<Rightarrow> List.find p ys | Some x \<Rightarrow> Some x)"
  by (induction xs) auto

lemma upsert_found:
  "\<exists>d. List.find (\<lambda>d. dv_hostname d = h) (upsert h now u ds) = Some d \<and> dv_last_seen_at d = now"
proof (cases "List.find (\<lambda>d. dv_hostname d = h) ds")
  case None
  then show ?thesis by (simp add: upsert_def find_append)
next
  case (Some d)
  have "List.find (\<lambda>d. dv_hostname d = h)
      (update_first (\<lambda>d. dv_hostname d = h) (dv_last_seen_at_update (\<lambda>_. now)) ds) =
    map_option (dv_last_seen_at_update (\<lambda>_. now)) (List.find (\<lambda>d. dv_hostname d = h) ds)"
    by (rule find_update_first) simp
  with Some show ?thesis by (simp add: upsert_def)
qed

lemma upsert_others:
  assumes "g \<noteq> h"
  shows "List.find (\<lambda>d. dv_hostname d = g) (upsert h now u ds) =
    List.find (\<lambda>d. dv_hostname d = g) ds"
proof (cases "List.find (\<lambda>d. dv_hostname d = h) ds")
  case None
  with assms show ?thesis by (simp add: upsert_def find_append split: option.splits)
next
  case (Some d)
  have "List.find (\<lambda>d. dv_hostname d = g)
      (update_first (\<lambda>d. dv_hostname d = h) (dv_last_seen_at_update (\<lambda>_. now)) ds) =
    List.find (\<lambda>d. dv_hostname d = g) ds"
    using assms by (intro find_update_first_other) auto
  with Some show ?thesis by (simp add: upsert_def)
qed

text \<open>The registrations of CLIs, in the order they arrive: host name, time, UUID.\<close>

definition upserts :: "(string \<times> timestamp \<times> string) list \<Rightarrow> device_record list" where
  "upserts regs = fold (\<lambda>(h, now, u). upsert h now u) regs []"

definition last_seen :: "(string \<times> timestamp \<times> string) list \<Rightarrow> string \<Rightarrow> timestamp option" where
  "last_seen regs h = map_option (fst \<circ> snd) (List.find (\<lambda>r. fst r = h) (rev regs))"

lemma upserts_snoc: "upserts (regs @ [(h, now, u)]) = upsert h now u (upserts regs)"
  by (simp add: upserts_def)

section \<open>Properties\<close>

text \<open>After any registrations the device list has exactly one row for each host name
  that registered, with the time of its latest registration.\<close>

lemma devices_one_per_host:
  "distinct (map dv_hostname (upserts regs)) \<and>
   dv_hostname ` set (upserts regs) = fst ` set regs \<and>
   map_option dv_last_seen_at (List.find (\<lambda>d. dv_hostname d = h) (upserts regs)) = last_seen regs h"
proof (induction regs rule: rev_induct)
  case Nil
  then show ?case by (simp add: upserts_def last_seen_def)
next
  case (snoc r regs)
  obtain g now u where r: "r = (g, now, u)" by (cases r)
  let ?ds = "upserts regs"
  have hosts: "map dv_hostname (upserts (regs @ [r])) =
      map dv_hostname ?ds @ (if g \<in> dv_hostname ` set ?ds then [] else [g])"
    by (simp add: r upserts_snoc upsert_hostnames)
  then have "set (map dv_hostname (upserts (regs @ [r]))) = fst ` set (regs @ [r])"
    using snoc.IH r by (auto simp: image_iff)
  moreover have "distinct (map dv_hostname (upserts (regs @ [r])))"
    using hosts snoc.IH by auto
  moreover have "map_option dv_last_seen_at
      (List.find (\<lambda>d. dv_hostname d = h) (upserts (regs @ [r]))) = last_seen (regs @ [r]) h"
  proof (cases "g = h")
    case True
    then show ?thesis
      using upsert_found [of h now u ?ds] by (auto simp: r upserts_snoc last_seen_def)
  next
    case False
    then show ?thesis
      using upsert_others [of h g now u ?ds] snoc.IH by (simp add: r upserts_snoc last_seen_def)
  qed
  ultimately show ?case by simp
qed

end
