(* ===== verification/Auth.thy ===== *)
theory Auth
  imports Server_State Url_Codec
begin

text \<open>
  \<open>crates/server/src/api/auth.rs\<close>: login, the browser login page of the CLI and the
  extractor that guards the API. SHA-256, the JWT library, the clock's text form and
  \<open>HeaderValue::to_str\<close> are not part of the program: they are the fields of \<open>auth_lib\<close>,
  and what is relied on is stated as the hypothesis \<open>jwt_ok\<close>.
\<close>

section \<open>Tokens\<close>

record claims =
  cl_sub :: string
  cl_exp :: nat

record auth_lib =
  al_sha256 :: "string \<Rightarrow> string"
  al_encode :: "string \<Rightarrow> claims \<Rightarrow> string option"
  al_decode :: "string \<Rightarrow> timestamp \<Rightarrow> string \<Rightarrow> claims option"
  al_rfc3339 :: "timestamp \<Rightarrow> string"
  al_to_str :: "string \<Rightarrow> string option"

definition TOKEN_TTL_HOURS :: int where
  "TOKEN_TTL_HOURS = 24"

definition unix_seconds :: "timestamp \<Rightarrow> int" where
  "unix_seconds t = t div 10 ^ 9"

text \<open>The decoder checks the signature and, against the time it runs at, the expiry.\<close>

definition verify_token :: "auth_lib \<Rightarrow> timestamp \<Rightarrow> string \<Rightarrow> string \<Rightarrow> claims option" where
  "verify_token lib now secret token = al_decode lib secret now token"

text \<open>\<open>timestamp() as usize\<close> keeps the low 64 bits.\<close>

definition issue_token ::
    "auth_lib \<Rightarrow> timestamp \<Rightarrow> string \<Rightarrow> string \<Rightarrow> (string \<times> string) option" where
  "issue_token lib now secret email =
     (let expiry = now + TOKEN_TTL_HOURS * 3600 * 10 ^ 9;
          claims = \<lparr>cl_sub = email, cl_exp = nat (unix_seconds expiry mod 2 ^ 64)\<rparr>
      in map_option (\<lambda>token. (token, al_rfc3339 lib expiry)) (al_encode lib secret claims))"

section \<open>Credentials\<close>

definition sha256_hex :: "auth_lib \<Rightarrow> string \<Rightarrow> string" where
  "sha256_hex lib input = concat (map hex2_lower (al_sha256 lib input))"

definition credentials_valid :: "auth_lib \<Rightarrow> server \<Rightarrow> string \<Rightarrow> string \<Rightarrow> bool" where
  "credentials_valid lib s email password =
     (let hash = sha256_hex lib password
      in list_ex (\<lambda>user. uc_email user = email \<and>
           eq_ignore_ascii_case (uc_password_hash user) hash) (sv_users s))"

section \<open>Responses\<close>

datatype response =
    Json_Error nat string
  | Login_Ok string string
  | Redirect_To string
  | Html_Page string

definition unauthorized :: "string \<Rightarrow> response" where
  "unauthorized msg = Json_Error 401 msg"

record login_request =
  lr_email :: string
  lr_password :: string

definition login :: "auth_lib \<Rightarrow> timestamp \<Rightarrow> server \<Rightarrow> login_request \<Rightarrow> response" where
  "login lib now s req =
     (if \<not> credentials_valid lib s (lr_email req) (lr_password req)
      then Json_Error 401 ''invalid credentials''
      else (case issue_token lib now (sv_jwt_secret s) (lr_email req) of
              Some (jwt, expires_at) \<Rightarrow> Login_Ok jwt expires_at
            | None \<Rightarrow> Json_Error 500 ''failed to issue token''))"

section \<open>The login page\<close>

definition html_escape :: "string \<Rightarrow> string" where
  "html_escape input =
     replace_char (CHR ''>'') ''&gt;''
       (replace_char (CHR ''<'') ''&lt;''
         (replace_char (CHR 0x22) ''&quot;''
           (replace_char (CHR ''&'') ''&amp;'' input)))"

definition login_head :: string where
  \<open>login_head =
     ''<!doctype html>'' @ [newline] @
     ''<html lang="es">'' @ [newline] @
     ''<head>'' @ [newline] @
     ''<meta charset="utf-8">'' @ [newline] @
     ''<meta name="viewport" content="width=device-width, initial-scale=1">'' @ [newline] @
     ''<title>borehole '' @ [CHR 0xE2] @ [CHR 0x80] @ [CHR 0x94] @ '' iniciar sesi'' @ [CHR 0xC3] @ [CHR 0xB3] @ ''n</title>'' @ [newline] @
     ''<style>'' @ [newline] @
     ''  body { background:#0a0b0d; color:#e7e9ee; font-family:ui-monospace,monospace;'' @ [newline] @
     ''          display:flex; min-height:100vh; align-items:center; justify-content:center; }'' @ [newline] @
     ''  form { border:1px solid rgba(232,236,242,.17); background:#0d0f13; padding:28px;'' @ [newline] @
     ''          width:320px; }'' @ [newline] @
     ''  h1 { font-size:14px; letter-spacing:2px; text-transform:uppercase; margin:0 0 18px; }'' @ [newline] @
     ''  label { display:block; font-size:11px; color:#878d97; margin:14px 0 4px; }'' @ [newline] @
     ''  input { width:100%; background:#0a0b0d; border:1px solid rgba(232,236,242,.17);'' @ [newline] @
     ''           color:#e7e9ee; padding:8px; font-family:inherit; }'' @ [newline] @
     ''  button { margin-top:20px; width:100%; background:#5b8def; color:#0a0b0d; border:0;'' @ [newline] @
     ''            padding:10px; font-family:inherit; font-weight:600; cursor:pointer; }'' @ [newline] @
     ''  .err { color:#d76a5c; font-size:12px; margin:0 0 12px; }'' @ [newline] @
     ''</style>'' @ [newline] @
     ''</head>'' @ [newline] @
     ''<body>'' @ [newline] @
     ''<form method="get" action="/api/auth/cli">'' @ [newline] @
     ''  <h1>borehole</h1>'' @ [newline] @
     ''  ''\<close>

definition login_error :: string where
  \<open>login_error = ''<p class="err">Credenciales no v'' @ [CHR 0xC3] @ [CHR 0xA1] @ ''lidas.</p>''\<close>

definition login_middle :: string where
  \<open>login_middle =
     [newline] @
     ''  <input type="hidden" name="callback" value="''\<close>

definition login_tail :: string where
  \<open>login_tail =
     ''">'' @ [newline] @
     ''  <label for="email">Email</label>'' @ [newline] @
     ''  <input id="email" name="email" type="email" autocomplete="username" required>'' @ [newline] @
     ''  <label for="password">Contrase'' @ [CHR 0xC3] @ [CHR 0xB1] @ ''a</label>'' @ [newline] @
     ''  <input id="password" name="password" type="password" autocomplete="current-password" required>'' @ [newline] @
     ''  <button type="submit">Iniciar sesi'' @ [CHR 0xC3] @ [CHR 0xB3] @ ''n</button>'' @ [newline] @
     ''</form>'' @ [newline] @
     ''</body>'' @ [newline] @
     ''</html>''\<close>

definition login_html :: "string \<Rightarrow> bool \<Rightarrow> string" where
  "login_html callback error =
     login_head @ (if error then login_error else []) @ login_middle @
     html_escape callback @ login_tail"

record cli_query =
  cq_callback :: string
  cq_email :: "string option"
  cq_password :: "string option"

definition cli_login_page :: "auth_lib \<Rightarrow> timestamp \<Rightarrow> server \<Rightarrow> cli_query \<Rightarrow> response" where
  "cli_login_page lib now s query =
     (case (cq_email query, cq_password query) of
        (Some email, Some password) \<Rightarrow>
          (case (if credentials_valid lib s email password
                 then issue_token lib now (sv_jwt_secret s) email else None) of
             Some (jwt, expires_at) \<Rightarrow> Redirect_To (redirect_url (cq_callback query) jwt expires_at)
           | None \<Rightarrow> Html_Page (login_html (cq_callback query) True))
      | _ \<Rightarrow> Html_Page (login_html (cq_callback query) False))"

section \<open>The extractor\<close>

text \<open>Of a request: the value of the first \<open>Authorization\<close> header and the raw query.\<close>

record parts =
  pt_authorization :: "string option"
  pt_query :: "string option"

definition bearer_token :: "auth_lib \<Rightarrow> parts \<Rightarrow> string option" where
  "bearer_token lib parts =
     Option.bind (Option.bind (pt_authorization parts) (al_to_str lib)) (strip_prefix ''Bearer '')"

fun find_token :: "string list \<Rightarrow> string option" where
  "find_token [] = None"
| "find_token (pair # pairs) =
     (case split_once (CHR ''='') pair of
        None \<Rightarrow> find_token pairs
      | Some (key, value) \<Rightarrow> if key = ''token'' then Some value else find_token pairs)"

definition query_token :: "parts \<Rightarrow> string option" where
  "query_token parts =
     Option.bind (pt_query parts) (\<lambda>q. find_token (split_on (CHR ''&'') q))"

text \<open>\<open>from_request_parts\<close>: the claims, or the response that rejects the request.\<close>

definition authenticate ::
    "auth_lib \<Rightarrow> timestamp \<Rightarrow> server \<Rightarrow> parts \<Rightarrow> response + claims" where
  "authenticate lib now s parts =
     (case (case bearer_token lib parts of Some t \<Rightarrow> Some t | None \<Rightarrow> query_token parts) of
        None \<Rightarrow> Inl (unauthorized ''missing bearer token or token query param'')
      | Some token \<Rightarrow>
          (case verify_token lib now (sv_jwt_secret s) token of
             None \<Rightarrow> Inl (unauthorized ''invalid or expired token'')
           | Some claims \<Rightarrow> Inr claims))"

lemmas auth_defs = login_def cli_login_page_def authenticate_def bearer_token_def query_token_def
  verify_token_def unauthorized_def

section \<open>Escaping\<close>

text \<open>The reference: each special character at once, and what a browser makes of it.\<close>

definition entity :: "char \<Rightarrow> string" where
  "entity c =
     (if c = CHR ''&'' then ''&amp;'' else if c = CHR 0x22 then ''&quot;''
      else if c = CHR ''<'' then ''&lt;'' else if c = CHR ''>'' then ''&gt;'' else [c])"

fun html_unescape :: "nat \<Rightarrow> string \<Rightarrow> string" where
  "html_unescape 0 s = []"
| "html_unescape (Suc n) s =
     (case s of
        [] \<Rightarrow> []
      | c # cs \<Rightarrow>
          if take 5 s = ''&amp;'' then CHR ''&'' # html_unescape n (drop 5 s)
          else if take 6 s = ''&quot;'' then CHR 0x22 # html_unescape n (drop 6 s)
          else if take 4 s = ''&lt;'' then CHR ''<'' # html_unescape n (drop 4 s)
          else if take 4 s = ''&gt;'' then CHR ''>'' # html_unescape n (drop 4 s)
          else c # html_unescape n cs)"

lemma html_escape_one_pass: "html_escape s = concat (map entity s)"
  by (induction s) (simp_all add: html_escape_def entity_def)

lemma unescape_entity: "html_unescape (Suc n) (entity c @ s) = c # html_unescape n s"
  by (simp add: entity_def)

lemma unescape_escape:
  "length s < n \<Longrightarrow> html_unescape n (concat (map entity s)) = s"
proof (induction s arbitrary: n)
  case Nil
  then show ?case by (cases n) auto
next
  case (Cons c s)
  then obtain m where "n = Suc m" "length s < m" by (cases n) auto
  with Cons.IH [of m] show ?case by (simp only: list.map concat.simps unescape_entity)
qed

section \<open>Digests\<close>

lemma ascii_lower_hex: "d < 16 \<Longrightarrow> ascii_lower (hex_digit_lower d) = hex_digit_lower d \<and>
    ascii_lower (hex_digit_upper d) = hex_digit_lower d"
  by (simp add: ascii_lower_def hex_digit_lower_def hex_digit_upper_def less_eq_char_def)

lemma hex_digit_inject: "d < 16 \<Longrightarrow> e < 16 \<Longrightarrow> hex_digit_lower d = hex_digit_lower e \<longleftrightarrow> d = e"
  using hex_val_lower by (metis option.inject)

lemma byte_halves: "byte c div 16 < 16" "byte c mod 16 < 16"
  using byte_less [of c] by (simp_all add: less_mult_imp_div_less)

lemma lower_hex2:
  "map ascii_lower (hex2_lower c) = hex2_lower c" "map ascii_lower (hex2_upper c) = hex2_lower c"
  by (simp_all add: hex2_lower_def hex2_upper_def ascii_lower_hex byte_halves)

lemma hex2_inject: "hex2_lower c = hex2_lower d \<longleftrightarrow> c = d"
proof
  assume "hex2_lower c = hex2_lower d"
  then have "byte c div 16 = byte d div 16" "byte c mod 16 = byte d mod 16"
    by (simp_all add: hex2_lower_def hex_digit_inject byte_halves)
  then have "byte c = byte d" by (metis div_mult_mod_eq)
  then show "c = d" by simp
qed simp

lemma hex_inject:
  "concat (map hex2_lower s) = concat (map hex2_lower t) \<longleftrightarrow> s = t"
proof (induction s arbitrary: t)
  case Nil
  show ?case by (cases t) (simp_all add: hex2_lower_def)
next
  case (Cons c s)
  show ?case
  proof (cases t)
    case (Cons d t')
    have "hex2_lower c @ a = hex2_lower d @ b \<longleftrightarrow> c = d \<and> a = b" for a b
      using hex2_inject [of c d] by (auto simp: hex2_lower_def)
    with Cons.IH Cons show ?thesis by simp
  qed (simp add: hex2_lower_def)
qed

lemma lower_hex:
  "map ascii_lower (concat (map hex2_lower s)) = concat (map hex2_lower s)"
  "map ascii_lower (concat (map hex2_upper s)) = concat (map hex2_lower s)"
  by (induction s) (simp_all add: lower_hex2)

lemma hash_matches:
  assumes "stored = concat (map hex2_lower d) \<or> stored = concat (map hex2_upper d)"
  shows "eq_ignore_ascii_case stored (sha256_hex lib pw) \<longleftrightarrow> al_sha256 lib pw = d"
  using assms hex_inject [of d "al_sha256 lib pw"]
  by (auto simp: eq_ignore_ascii_case_def sha256_hex_def lower_hex)

section \<open>What is relied on of the JWT library\<close>

text \<open>A token that was encoded under a secret decodes under it to its claims until 60 seconds
  (the default leeway) after its expiry and never later; its text is URL-safe base64 and
  dots, which survives a header and a query.\<close>

definition jwt_ok :: "auth_lib \<Rightarrow> bool" where
  "jwt_ok lib \<longleftrightarrow>
     (\<forall>secret c t. al_encode lib secret c = Some t \<longrightarrow>
       (\<forall>now. al_decode lib secret now t =
          (if unix_seconds now \<le> int (cl_exp c) + 60 then Some c else None)) \<and>
       al_to_str lib (''Bearer '' @ t) = Some (''Bearer '' @ t) \<and>
       CHR ''&'' \<notin> set t \<and> valid_utf8 t)"

lemma jwt_okD:
  assumes "jwt_ok lib" and "al_encode lib secret c = Some t"
  shows "al_decode lib secret now t =
      (if unix_seconds now \<le> int (cl_exp c) + 60 then Some c else None)"
    and "al_to_str lib (''Bearer '' @ t) = Some (''Bearer '' @ t)"
    and "CHR ''&'' \<notin> set t" and "valid_utf8 t"
  using assms unfolding jwt_ok_def by blast+

text \<open>A request that carries a token: in the header, or in the query when there is none.\<close>

definition carries :: "parts \<Rightarrow> string \<Rightarrow> bool" where
  "carries parts token \<longleftrightarrow>
     pt_authorization parts = Some (''Bearer '' @ token) \<or>
     pt_authorization parts = None \<and> pt_query parts = Some (''token='' @ token)"

definition sane_clock :: "timestamp \<Rightarrow> bool" where
  "sane_clock now \<longleftrightarrow> 0 \<le> unix_seconds now \<and> unix_seconds now + 86400 < 2 ^ 64"

lemma unix_seconds_ttl: "unix_seconds (now + TOKEN_TTL_HOURS * 3600 * 10 ^ 9) = unix_seconds now + 86400"
  by (simp add: unix_seconds_def TOKEN_TTL_HOURS_def)

lemma issued_claims:
  assumes "issue_token lib now secret email = Some (jwt, expires)" and "sane_clock now"
  obtains c where "al_encode lib secret c = Some jwt" "cl_sub c = email"
    "int (cl_exp c) = unix_seconds now + 86400"
proof
  let ?c = "\<lparr>cl_sub = email, cl_exp = nat (unix_seconds (now + TOKEN_TTL_HOURS * 3600 * 10 ^ 9) mod 2 ^ 64)\<rparr>"
  show "al_encode lib secret ?c = Some jwt"
    using assms(1) by (auto simp: issue_token_def Let_def)
  show "cl_sub ?c = email" by simp
  show "int (cl_exp ?c) = unix_seconds now + 86400"
    using assms(2) by (simp only: unix_seconds_ttl) (simp add: sane_clock_def)
qed

lemma carried_token:
  assumes "carries parts token" and "al_to_str lib (''Bearer '' @ token) = Some (''Bearer '' @ token)"
    and "CHR ''&'' \<notin> set token"
  shows "(case bearer_token lib parts of Some t \<Rightarrow> Some t | None \<Rightarrow> query_token parts) = Some token"
proof -
  have "CHR ''&'' \<notin> set (''token='' @ token)" using assms(3) by simp
  then have "split_on (CHR ''&'') (''token='' @ token) = [''token='' @ token]"
    by (rule split_on_single)
  moreover have "split_once (CHR ''='') (''token='' @ token) = Some (''token'', token)"
    using split_once_append [of "CHR ''=''" "''token''" token] by simp
  moreover have "strip_prefix ''Bearer '' (''Bearer '' @ token) = Some token"
    by (rule strip_prefix_append)
  ultimately show ?thesis
    using assms(1,2)
    unfolding carries_def bearer_token_def query_token_def by (elim disjE conjE) simp_all
qed

lemma issued_token_window:
  assumes "jwt_ok lib" and "issue_token lib now (sv_jwt_secret s) email = Some (jwt, expires)"
    and "sane_clock now" and "sv_jwt_secret s' = sv_jwt_secret s" and "carries parts jwt"
  shows "if unix_seconds later \<le> unix_seconds now + 86400 + 60
    then \<exists>c. authenticate lib later s' parts = Inr c \<and> cl_sub c = email
    else authenticate lib later s' parts = Inl (unauthorized ''invalid or expired token'')"
proof -
  obtain c where c: "al_encode lib (sv_jwt_secret s) c = Some jwt" "cl_sub c = email"
      "int (cl_exp c) = unix_seconds now + 86400"
    using issued_claims [OF assms(2,3)] .
  note j = jwt_okD [OF assms(1) c(1)]
  have t: "(case bearer_token lib parts of Some t \<Rightarrow> Some t | None \<Rightarrow> query_token parts) = Some jwt"
    using carried_token [OF assms(5) j(2,3)] .
  show ?thesis
    using c(2,3) j(1) [of later] assms(4)
    unfolding authenticate_def t by (simp add: verify_token_def)
qed

section \<open>Properties\<close>


text \<open>With user entries that hold the hex digest of a password hash, in either case, a
  login is accepted exactly when some entry has the email and the digest of the password.\<close>

lemma credentials_exact:
  assumes "\<forall>u \<in> set (sv_users s). uc_password_hash u = concat (map hex2_lower (digest u)) \<or>
    uc_password_hash u = concat (map hex2_upper (digest u))"
  shows "credentials_valid lib s email pw \<longleftrightarrow>
    (\<exists>u \<in> set (sv_users s). uc_email u = email \<and> digest u = al_sha256 lib pw)"
  using assms hash_matches
  by (fastforce simp: credentials_valid_def list_ex_iff Let_def)

text \<open>C23: a session is exactly the token's lifetime: the token of an accepted login, in the
  header or in the query, authenticates its user for 24 hours (and the 60 seconds of
  leeway), and is refused as expired ever after.\<close>

theorem login_session_window:
  assumes "jwt_ok lib" and "sane_clock now"
    and "login lib now s req = Login_Ok jwt expires"
    and "sv_jwt_secret s' = sv_jwt_secret s" and "carries parts jwt"
  shows "if unix_seconds later \<le> unix_seconds now + 86400 + 60
    then \<exists>c. authenticate lib later s' parts = Inr c \<and> cl_sub c = lr_email req
    else authenticate lib later s' parts = Inl (unauthorized ''invalid or expired token'')"
proof -
  have "issue_token lib now (sv_jwt_secret s) (lr_email req) = Some (jwt, expires)"
    using assms(3) by (auto simp: login_def split: if_splits option.splits)
  from issued_token_window [OF assms(1) this assms(2,4,5)] show ?thesis .
qed

text \<open>The browser login of the CLI works end to end: for valid credentials the page
  redirects to the CLI's callback with a target from which the CLI reads a token and an
  expiry, and that token authenticates the user.\<close>

lemma browser_login_end_to_end:
  assumes "jwt_ok lib" and "sane_clock now"
    and "credentials_valid lib s email pw"
    and "issue_token lib now (sv_jwt_secret s) email = Some (jwt, expires)"
    and "valid_utf8 expires"
  shows "\<exists>target. cli_login_page lib now s
      \<lparr>cq_callback = callback, cq_email = Some email, cq_password = Some pw\<rparr> =
        Redirect_To (callback @ target) \<and>
    parse_callback (''GET /'' @ target @ '' HTTP/1.1'' @ crlf) = Some (jwt, Some expires) \<and>
    (\<exists>c. authenticate lib now s
      \<lparr>pt_authorization = Some (''Bearer '' @ jwt), pt_query = None\<rparr> = Inr c \<and> cl_sub c = email)"
proof -
  obtain c where c: "al_encode lib (sv_jwt_secret s) c = Some jwt"
    using issued_claims [OF assms(4,2)] .
  obtain target where t: "redirect_url callback jwt expires = callback @ target"
    by (simp add: redirect_url_def)
  have "cli_login_page lib now s
      \<lparr>cq_callback = callback, cq_email = Some email, cq_password = Some pw\<rparr> =
        Redirect_To (callback @ target)"
    using assms(3,4) t by (simp add: cli_login_page_def)
  moreover have "parse_callback (''GET /'' @ target @ '' HTTP/1.1'' @ crlf) = Some (jwt, Some expires)"
    by (rule redirect_read_back [OF jwt_okD(4) [OF assms(1) c] assms(5) t])
  moreover have "\<exists>c. authenticate lib now s
      \<lparr>pt_authorization = Some (''Bearer '' @ jwt), pt_query = None\<rparr> = Inr c \<and> cl_sub c = email"
    using issued_token_window [OF assms(1,4,2) refl, of _ now] by (simp add: carries_def)
  ultimately show ?thesis by blast
qed


section \<open>A concrete library\<close>

text \<open>Tokens in the clear, to show that the hypotheses can hold.\<close>

definition plain_encode :: "string \<Rightarrow> claims \<Rightarrow> string option" where
  "plain_encode secret c = Some (show_nat (cl_exp c) @ ''.'' @ concat (map hex2_lower secret) @
     ''.'' @ concat (map hex2_lower (cl_sub c)))"

fun unhex :: "string \<Rightarrow> string" where
  "unhex (a # b # r) = (case (hex_val a, hex_val b) of
     (Some h, Some l) \<Rightarrow> char_of (h * 16 + l) # unhex r | _ \<Rightarrow> [])"
| "unhex _ = []"

definition plain_decode :: "string \<Rightarrow> timestamp \<Rightarrow> string \<Rightarrow> claims option" where
  "plain_decode secret now t =
     (case split_once (CHR ''.'') t of
        None \<Rightarrow> None
      | Some (e, r) \<Rightarrow>
          (case (parse_digits 0 e, strip_prefix (concat (map hex2_lower secret) @ ''.'') r) of
             (Some n, Some sub) \<Rightarrow>
               if unix_seconds now \<le> int n + 60
               then Some \<lparr>cl_sub = unhex sub, cl_exp = n\<rparr> else None
           | _ \<Rightarrow> None))"

definition plain_lib :: auth_lib where
  "plain_lib = \<lparr>al_sha256 = (\<lambda>s. s), al_encode = plain_encode, al_decode = plain_decode,
     al_rfc3339 = (\<lambda>t. show_nat (nat t)), al_to_str = Some\<rparr>"

lemma unhex_hex: "unhex (concat (map hex2_lower s)) = s"
  by (induction s) (simp_all add: hex2_lower_def hex_val_lower byte_halves)

lemma hex2_bytes: "x \<in> set (hex2_lower c) \<Longrightarrow> 48 \<le> byte x \<and> byte x < 128"
proof -
  have "48 \<le> byte (hex_digit_lower d) \<and> byte (hex_digit_lower d) < 128" if "d < 16" for d
    using that by (simp add: hex_digit_lower_def)
  then show "x \<in> set (hex2_lower c) \<Longrightarrow> 48 \<le> byte x \<and> byte x < 128"
    using byte_halves [of c] by (auto simp: hex2_lower_def)
qed

lemma plain_ok: "jwt_ok plain_lib"
proof -
  have bytes: "x \<in> set (show_nat n @ ''.'' @ concat (map hex2_lower a) @ ''.'' @
      concat (map hex2_lower b)) \<Longrightarrow> 46 \<le> byte x \<and> byte x < 128" for x n a b
    using hex2_bytes show_nat_bytes [of x n] by fastforce
  have "CHR ''.'' \<notin> set (show_nat n)" for n by (rule not_in_show_nat) simp
  then have dec: "plain_decode secret now t =
      (if unix_seconds now \<le> int (cl_exp c) + 60 then Some c else None)"
    if "plain_encode secret c = Some t" for secret c t now
  proof -
    have "split_once (CHR ''.'') t =
        Some (show_nat (cl_exp c), (concat (map hex2_lower secret) @ ''.'') @ concat (map hex2_lower (cl_sub c)))"
      using that \<open>\<And>n. CHR ''.'' \<notin> set (show_nat n)\<close> by (auto simp: plain_encode_def)
    then show ?thesis
      by (simp add: plain_decode_def parse_digits_show_nat unhex_hex del: append_assoc)
  qed
  have "CHR ''&'' \<notin> set t \<and> valid_utf8 t" if "plain_encode secret c = Some t" for secret c t
  proof
    have t: "46 \<le> byte x \<and> byte x < 128" if "x \<in> set t" for x
      using bytes that \<open>plain_encode secret c = Some t\<close> by (auto simp: plain_encode_def)
    then show "valid_utf8 t" by (intro valid_utf8_ascii) blast
    show "CHR ''&'' \<notin> set t" using t [of "CHR ''&''"] by auto
  qed
  with dec show ?thesis by (simp add: jwt_ok_def plain_lib_def)
qed

section \<open>A sample login\<close>

definition sample_config :: server_config where
  "sample_config =
     \<lparr>cf_bind_control = ''0.0.0.0:7000'', cf_bind_http = ''0.0.0.0:80'',
      cf_port_range = (30000, 30009), cf_tokens = [''t''], cf_jwt_secret = ''s'',
      cf_users = [\<lparr>uc_email = ''u'', uc_password_hash = concat (map hex2_upper ''pw'')\<rparr>]\<rparr>"

definition sample_token :: string where
  "sample_token = the (plain_encode ''s'' \<lparr>cl_sub = ''u'', cl_exp = 86400\<rparr>)"

definition sample_expiry :: string where
  "sample_expiry = show_nat 86400000000000"

lemma sample_credentials: "credentials_valid plain_lib (server_new sample_config) ''u'' ''pw''"
  by (simp add: credentials_valid_def server_new_def sample_config_def hash_matches [of _ "''pw''"]
      plain_lib_def)

lemma sample_issue:
  "issue_token plain_lib 0 (sv_jwt_secret (server_new sample_config)) ''u'' =
     Some (sample_token, sample_expiry)"
  by (simp add: issue_token_def TOKEN_TTL_HOURS_def unix_seconds_def plain_lib_def
      server_new_def sample_config_def sample_token_def sample_expiry_def plain_encode_def)

lemma sample_clock: "sane_clock 0"
  by (simp add: sane_clock_def unix_seconds_def)

lemma sample_login:
  "login plain_lib 0 (server_new sample_config) \<lparr>lr_email = ''u'', lr_password = ''pw''\<rparr> =
     Login_Ok sample_token sample_expiry"
  using sample_credentials sample_issue by (simp add: login_def)

theorem login_session_window_witness:
  "(\<exists>c. authenticate plain_lib (10 ^ 9) (server_new sample_config)
      \<lparr>pt_authorization = None, pt_query = Some (''token='' @ sample_token)\<rparr> = Inr c \<and>
      cl_sub c = ''u'') \<and>
   authenticate plain_lib (90000 * 10 ^ 9) (server_new sample_config)
      \<lparr>pt_authorization = None, pt_query = Some (''token='' @ sample_token)\<rparr> =
      Inl (unauthorized ''invalid or expired token'')"
  using login_session_window [OF plain_ok sample_clock sample_login refl, of
      "\<lparr>pt_authorization = None, pt_query = Some (''token='' @ sample_token)\<rparr>" "10 ^ 9"]
    login_session_window [OF plain_ok sample_clock sample_login refl, of
      "\<lparr>pt_authorization = None, pt_query = Some (''token='' @ sample_token)\<rparr>" "90000 * 10 ^ 9"]
  by (simp add: carries_def unix_seconds_def)


end
