(* ===== verification/Dashboard.thy ===== *)
theory Dashboard
  imports Auth
begin

text \<open>
  The REST handlers under \<open>crates/server/src/api/\<close> (\<open>tunnels\<close>, \<open>nodes\<close>, \<open>tokens\<close>,
  \<open>devices\<close>, \<open>history\<close>) and the routes of \<open>main.rs\<close> that lead to them. Each handler is one
  critical section on the field it uses. The order in which a map is iterated, the clock
  and fresh UUIDs are arguments.
\<close>

section \<open>Tunnels\<close>

record tunnel_dto =
  td_tunnel_id :: string
  td_protocol :: string
  td_local_port :: u16
  td_remote_port :: u16
  td_node :: "string option"
  td_device :: "string option"
  td_started_at :: string

definition tunnel_row :: "(timestamp \<Rightarrow> string) \<Rightarrow> string \<Rightarrow> tunnel_entry \<Rightarrow> tunnel_dto" where
  "tunnel_row rfc3339 i e =
     \<lparr>td_tunnel_id = i, td_protocol = protocol_str (te_protocol e),
      td_local_port = te_local_port e, td_remote_port = te_remote_port e, td_node = te_node e,
      td_device = te_hostname e, td_started_at = rfc3339 (te_started_at e)\<rparr>"

definition tunnels_list :: "(timestamp \<Rightarrow> string) \<Rightarrow> string list \<Rightarrow> server \<Rightarrow> tunnel_dto list" where
  "tunnels_list rfc3339 order s =
     List.map_filter (\<lambda>i. map_option (tunnel_row rfc3339 i) (sv_active_tunnels s i)) order"

datatype status = No_Content | Not_Found string

definition tunnels_close :: "string \<Rightarrow> server \<Rightarrow> server \<times> status" where
  "tunnels_close tunnel_id s =
     (case map_option te_close (sv_active_tunnels s tunnel_id) of
        Some notify \<Rightarrow> (s\<lparr>sv_permits := insert notify (sv_permits s)\<rparr>, No_Content)
      | None \<Rightarrow> (s, Not_Found ''tunnel not found''))"

section \<open>Nodes\<close>

record node_dto =
  nd_node_id :: string
  nd_name :: string
  nd_host :: string
  nd_data_port :: u16
  nd_tunnel_count :: nat
  nd_status :: string

definition nodes_list :: "string list \<Rightarrow> server \<Rightarrow> node_dto list" where
  "nodes_list order s =
     map (\<lambda>n. \<lparr>nd_node_id = ni_node_id n, nd_name = ni_name n, nd_host = ni_host n,
         nd_data_port = ni_data_port n, nd_tunnel_count = ni_tunnel_count n, nd_status = ''up''\<rparr>)
       (nm_list order (sv_node_manager s))"

section \<open>Devices\<close>

record device_info =
  di_id :: string
  di_hostname :: string
  di_last_seen_at :: string
  di_tunnel_count :: nat

text \<open>The loop over the active tunnels.\<close>

definition count_host :: "tunnel_entry \<Rightarrow> (string \<rightharpoonup> nat) \<Rightarrow> (string \<rightharpoonup> nat)" where
  "count_host e counts =
     (case te_hostname e of
        None \<Rightarrow> counts
      | Some h \<Rightarrow> counts(h \<mapsto> (case counts h of None \<Rightarrow> 0 | Some n \<Rightarrow> n) + 1))"

definition host_counts :: "string list \<Rightarrow> server \<Rightarrow> string \<rightharpoonup> nat" where
  "host_counts order s = fold count_host (values_in (sv_active_tunnels s) order) Map.empty"

definition devices_list :: "(timestamp \<Rightarrow> string) \<Rightarrow> string list \<Rightarrow> server \<Rightarrow> device_info list" where
  "devices_list rfc3339 order s =
     map (\<lambda>d. \<lparr>di_id = dv_id d, di_hostname = dv_hostname d,
         di_last_seen_at = rfc3339 (dv_last_seen_at d),
         di_tunnel_count = (case host_counts order s (dv_hostname d) of None \<Rightarrow> 0 | Some n \<Rightarrow> n)\<rparr>)
       (sv_devices s)"

section \<open>API tokens\<close>

record create_token =
  ck_name :: string
  ck_scope :: string

definition tokens_list :: "claims \<Rightarrow> server \<Rightarrow> token_info list" where
  "tokens_list auth s = (case sv_api_tokens s (cl_sub auth) of Some ts \<Rightarrow> ts | None \<Rightarrow> [])"

text \<open>\<open>secret\<close> is the fresh UUID in its simple form: 32 hexadecimal digits.\<close>

definition tokens_create ::
    "(timestamp \<Rightarrow> string) \<Rightarrow> claims \<Rightarrow> string \<Rightarrow> timestamp \<Rightarrow> create_token \<Rightarrow> server \<Rightarrow>
     server \<times> (response + string \<times> token_info)" where
  "tokens_create rfc3339 auth secret now req s =
     (if ck_scope req \<notin> {''all'', ''tcp'', ''http''}
      then (s, Inl (Json_Error 400 ''invalid scope''))
      else
        let name = trim (ck_name req)
        in if name = [] then (s, Inl (Json_Error 400 ''name is required''))
           else
             let info = \<lparr>ti_id = ''tnk_'' @ take 8 secret, ti_name = name, ti_scope = ck_scope req,
                   ti_created_at = rfc3339 now, ti_revoked = False\<rparr>
             in (s\<lparr>sv_api_tokens := (sv_api_tokens s)(cl_sub auth \<mapsto> tokens_list auth s @ [info])\<rparr>,
                 Inr (''tnk_'' @ secret, info)))"

definition tokens_revoke :: "claims \<Rightarrow> string \<Rightarrow> server \<Rightarrow> server \<times> status" where
  "tokens_revoke auth i s =
     (case sv_api_tokens s (cl_sub auth) of
        None \<Rightarrow> (s, Not_Found ''token not found'')
      | Some tokens \<Rightarrow>
          (case List.find (\<lambda>t. ti_id t = i) tokens of
             Some _ \<Rightarrow>
               (s\<lparr>sv_api_tokens := (sv_api_tokens s)(cl_sub auth \<mapsto>
                  update_first (\<lambda>t. ti_id t = i) (ti_revoked_update (\<lambda>_. True)) tokens)\<rparr>, No_Content)
           | None \<Rightarrow> (s, Not_Found ''token not found'')))"

section \<open>History\<close>

definition default_limit :: nat where
  "default_limit = 50"

definition history_tunnels :: "nat option \<Rightarrow> nat option \<Rightarrow> server \<Rightarrow> tunnel_history list" where
  "history_tunnels limit offset s =
     recent_tunnels (case limit of None \<Rightarrow> default_limit | Some l \<Rightarrow> l)
       (case offset of None \<Rightarrow> 0 | Some q \<Rightarrow> q) (sv_history s)"

definition history_connections ::
    "string option \<Rightarrow> nat option \<Rightarrow> server \<Rightarrow> connection_history list" where
  "history_connections tunnel_id limit s =
     recent_connections tunnel_id (case limit of None \<Rightarrow> default_limit | Some l \<Rightarrow> l) (sv_history s)"

section \<open>Routes\<close>

text \<open>The requests the API router of \<open>main.rs\<close> knows; the login routes take no claims.\<close>

datatype request =
    Post_Login login_request
  | Get_Cli_Login cli_query
  | Get_Tunnels
  | Delete_Tunnel string
  | Get_Events
  | Get_Nodes
  | Get_Tokens
  | Post_Token create_token
  | Delete_Token string
  | Get_Devices
  | Get_History_Tunnels "nat option" "nat option"
  | Get_History_Connections "string option" "nat option"

datatype reply =
    Plain response
  | Rows_Tunnels "tunnel_dto list"
  | Rows_Nodes "node_dto list"
  | Rows_Tokens "token_info list"
  | Created_Token string token_info
  | Rows_Devices "device_info list"
  | Rows_Tunnel_History "tunnel_history list"
  | Rows_Connection_History "connection_history list"
  | Event_Stream receiver
  | Done status

fun token_reply :: "response + string \<times> token_info \<Rightarrow> reply" where
  "token_reply (Inl r) = Plain r"
| "token_reply (Inr (token, info)) = Created_Token token info"

text \<open>The handlers behind the extractor.\<close>

fun api_guarded ::
    "auth_lib \<Rightarrow> timestamp \<Rightarrow> string list \<Rightarrow> string \<Rightarrow> claims \<Rightarrow> request \<Rightarrow> server \<Rightarrow>
     server \<times> reply" where
  "api_guarded lib now order uuid auth Get_Tunnels s =
     (s, Rows_Tunnels (tunnels_list (al_rfc3339 lib) order s))"
| "api_guarded lib now order uuid auth (Delete_Tunnel i) s =
     (let (s', st) = tunnels_close i s in (s', Done st))"
| "api_guarded lib now order uuid auth Get_Events s = (s, Event_Stream (subscribe (sv_event_bus s)))"
| "api_guarded lib now order uuid auth Get_Nodes s = (s, Rows_Nodes (nodes_list order s))"
| "api_guarded lib now order uuid auth Get_Tokens s = (s, Rows_Tokens (tokens_list auth s))"
| "api_guarded lib now order uuid auth (Post_Token req) s =
     (let (s', r) = tokens_create (al_rfc3339 lib) auth uuid now req s in (s', token_reply r))"
| "api_guarded lib now order uuid auth (Delete_Token i) s =
     (let (s', st) = tokens_revoke auth i s in (s', Done st))"
| "api_guarded lib now order uuid auth Get_Devices s =
     (s, Rows_Devices (devices_list (al_rfc3339 lib) order s))"
| "api_guarded lib now order uuid auth (Get_History_Tunnels l q) s =
     (s, Rows_Tunnel_History (history_tunnels l q s))"
| "api_guarded lib now order uuid auth (Get_History_Connections i l) s =
     (s, Rows_Connection_History (history_connections i l s))"
| "api_guarded lib now order uuid auth (Post_Login req) s = (s, Plain (login lib now s req))"
| "api_guarded lib now order uuid auth (Get_Cli_Login q) s = (s, Plain (cli_login_page lib now s q))"

definition api_handle ::
    "auth_lib \<Rightarrow> timestamp \<Rightarrow> string list \<Rightarrow> string \<Rightarrow> parts \<Rightarrow> request \<Rightarrow> server \<Rightarrow>
     server \<times> reply" where
  "api_handle lib now order uuid parts req s =
     (case req of
        Post_Login lr \<Rightarrow> (s, Plain (login lib now s lr))
      | Get_Cli_Login q \<Rightarrow> (s, Plain (cli_login_page lib now s q))
      | _ \<Rightarrow> (case authenticate lib now s parts of
                Inl r \<Rightarrow> (s, Plain r)
              | Inr auth \<Rightarrow> api_guarded lib now order uuid auth req s))"

section \<open>Counting\<close>

lemma count_fold:
  "(case fold count_host es counts h of None \<Rightarrow> 0 | Some n \<Rightarrow> n) =
   (case counts h of None \<Rightarrow> 0 | Some n \<Rightarrow> n) + length (filter (\<lambda>e. te_hostname e = Some h) es)"
  by (induction es arbitrary: counts) (auto simp: count_host_def split: option.splits)

lemma length_filter_values:
  assumes "iteration_order m order"
  shows "length (filter p (values_in m order)) = card {k. \<exists>v. m k = Some v \<and> p v}"
proof -
  have "length (filter p (List.map_filter m ks)) = length (filter (\<lambda>k. \<exists>v. m k = Some v \<and> p v) ks)" for ks
    by (induction ks) (auto simp: List.map_filter_simps split: option.splits)
  moreover have "length (filter q order) = card {k. q k \<and> k \<in> dom m}" for q
    using assms distinct_length_filter [of order q]
    by (simp add: iteration_order_def Int_def conj_commute)
  moreover have "{k. (\<exists>v. m k = Some v \<and> p v) \<and> k \<in> dom m} = {k. \<exists>v. m k = Some v \<and> p v}" by auto
  ultimately show ?thesis by (simp add: values_in_def)
qed

section \<open>What the API can change\<close>

lemma tokens_create_frame:
  "\<exists>ts. fst (tokens_create rf auth u now req s) = s\<lparr>sv_api_tokens := (sv_api_tokens s)(cl_sub auth := ts)\<rparr>"
proof (cases "fst (tokens_create rf auth u now req s) = s")
  case True
  then have "fst (tokens_create rf auth u now req s) =
      s\<lparr>sv_api_tokens := (sv_api_tokens s)(cl_sub auth := sv_api_tokens s (cl_sub auth))\<rparr>" by simp
  then show ?thesis ..
next
  case False
  then show ?thesis by (auto simp: tokens_create_def Let_def split: if_splits)
qed

lemma tokens_revoke_frame:
  "\<exists>ts. fst (tokens_revoke auth i s) = s\<lparr>sv_api_tokens := (sv_api_tokens s)(cl_sub auth := ts)\<rparr>"
proof (cases "fst (tokens_revoke auth i s) = s")
  case True
  then have "fst (tokens_revoke auth i s) =
      s\<lparr>sv_api_tokens := (sv_api_tokens s)(cl_sub auth := sv_api_tokens s (cl_sub auth))\<rparr>" by simp
  then show ?thesis ..
next
  case False
  then show ?thesis by (auto simp: tokens_revoke_def split: option.splits)
qed

lemma tokens_close_frame:
  "\<exists>n. fst (tunnels_close i s) = s\<lparr>sv_permits := sv_permits s \<union> n\<rparr> \<and>
     n \<subseteq> te_close ` ran (sv_active_tunnels s)"
proof (cases "sv_active_tunnels s i")
  case None
  then have "fst (tunnels_close i s) = s\<lparr>sv_permits := sv_permits s \<union> {}\<rparr>"
    by (simp add: tunnels_close_def)
  then show ?thesis by blast
next
  case (Some e)
  then have "fst (tunnels_close i s) = s\<lparr>sv_permits := sv_permits s \<union> {te_close e}\<rparr>"
    by (simp add: tunnels_close_def)
  moreover have "{te_close e} \<subseteq> te_close ` ran (sv_active_tunnels s)" using Some by (auto simp: ran_def)
  ultimately show ?thesis by blast
qed

lemma api_guarded_state:
  "fst (api_guarded lib now order uuid auth req s) =
     (case req of
        Delete_Tunnel i \<Rightarrow> fst (tunnels_close i s)
      | Post_Token q \<Rightarrow> fst (tokens_create (al_rfc3339 lib) auth uuid now q s)
      | Delete_Token i \<Rightarrow> fst (tokens_revoke auth i s)
      | _ \<Rightarrow> s)"
  by (cases req) (simp_all split: prod.splits)

text \<open>A request is served behind the extractor, or changes nothing.\<close>

lemma api_handle_state:
  "case authenticate lib now s parts of
     Inl r \<Rightarrow> fst (api_handle lib now order uuid parts req s) = s
   | Inr auth \<Rightarrow> fst (api_handle lib now order uuid parts req s) =
       fst (api_guarded lib now order uuid auth req s)"
  by (cases "authenticate lib now s parts"; cases req) (simp_all add: api_handle_def)

text \<open>The change a request may make, as a relation.\<close>

definition api_change :: "string \<Rightarrow> server \<Rightarrow> server \<Rightarrow> bool" where
  "api_change user s s' \<longleftrightarrow>
     (\<exists>ts n. s' = s\<lparr>sv_api_tokens := (sv_api_tokens s)(user := ts), sv_permits := sv_permits s \<union> n\<rparr> \<and>
       n \<subseteq> te_close ` ran (sv_active_tunnels s))"

lemma api_change_refl [simp]: "api_change user s s"
proof -
  have "s = s\<lparr>sv_api_tokens := (sv_api_tokens s)(user := sv_api_tokens s user), sv_permits := sv_permits s \<union> {}\<rparr>"
    by simp
  then show ?thesis unfolding api_change_def by blast
qed

lemma api_changeI:
  "s' = s\<lparr>sv_api_tokens := (sv_api_tokens s)(user := ts)\<rparr> \<Longrightarrow> api_change user s s'"
  unfolding api_change_def by (rule exI [of _ ts], rule exI [of _ "{}"]) simp

lemma api_change_permits:
  assumes "s' = s\<lparr>sv_permits := sv_permits s \<union> n\<rparr>" and "n \<subseteq> te_close ` ran (sv_active_tunnels s)"
  shows "api_change user s s'"
  unfolding api_change_def
  by (rule exI [of _ "sv_api_tokens s user"], rule exI [of _ n]) (simp add: assms)

lemma api_guarded_change: "api_change (cl_sub auth) s (fst (api_guarded lib now order uuid auth req s))"
proof -
  have "api_change u s (fst (tunnels_close i s))" for u i
    using tokens_close_frame [of i s] api_change_permits by blast
  moreover have "api_change (cl_sub auth) s (fst (tokens_create rf auth u now q s))" for rf u q
    using tokens_create_frame [of rf auth u now q s] api_changeI by blast
  moreover have "api_change (cl_sub auth) s (fst (tokens_revoke auth i s))" for i
    using tokens_revoke_frame [of auth i s] api_changeI by blast
  ultimately show ?thesis by (simp add: api_guarded_state split: request.split)
qed

section \<open>Token lists only grow\<close>

definition token_kept :: "token_info \<Rightarrow> token_info \<Rightarrow> bool" where
  "token_kept t t' \<longleftrightarrow> t' = t \<or> t' = t\<lparr>ti_revoked := True\<rparr>"

definition tokens_extend :: "token_info list \<Rightarrow> token_info list \<Rightarrow> bool" where
  "tokens_extend ts ts' \<longleftrightarrow> length ts \<le> length ts' \<and> list_all2 token_kept ts (take (length ts) ts')"

lemma token_kept_refl [simp]: "token_kept t t"
  by (simp add: token_kept_def)

lemma tokens_extend_refl [simp]: "tokens_extend ts ts"
  by (simp add: tokens_extend_def list_all2_same)

lemma tokens_extend_trans:
  assumes "tokens_extend a b" and "tokens_extend b c"
  shows "tokens_extend a c"
proof -
  have kept: "token_kept x y \<Longrightarrow> token_kept y z \<Longrightarrow> token_kept x z" for x y z
    by (auto simp: token_kept_def)
  have "list_all2 token_kept (take (length a) b) (take (length a) c)"
    using assms list_all2_takeI [of token_kept b "take (length b) c" "length a"]
    by (simp add: tokens_extend_def min_def)
  with assms list_all2_trans [of token_kept token_kept token_kept] kept show ?thesis
    unfolding tokens_extend_def by (meson le_trans)
qed

lemma tokens_extend_snoc: "tokens_extend ts (ts @ [t])"
  by (simp add: tokens_extend_def list_all2_same)

lemma update_first_kept: "list_all2 token_kept ts (update_first p (ti_revoked_update (\<lambda>_. True)) ts)"
  by (induction ts) (auto simp: list_all2_same token_kept_def)

lemma api_tokens_extend:
  "tokens_extend (tokens_list who s) (tokens_list who (fst (api_handle lib now order uuid parts req s)))"
proof -
  have create: "tokens_extend (tokens_list who s)
      (tokens_list who (fst (tokens_create rf auth u now q s)))" for rf auth u q
    using tokens_extend_snoc by (auto simp: tokens_create_def tokens_list_def Let_def split: option.splits)
  have revoke: "tokens_extend (tokens_list who s) (tokens_list who (fst (tokens_revoke auth i s)))"
    for auth i
    using update_first_kept
    by (auto simp: tokens_revoke_def tokens_list_def tokens_extend_def list_all2_same split: option.splits)
  have close: "sv_api_tokens (fst (tunnels_close i s)) = sv_api_tokens s" for i
    by (simp add: tunnels_close_def split: option.splits)
  have "tokens_extend (tokens_list who s)
      (tokens_list who (fst (api_guarded lib now order uuid auth req s)))" for auth
    using create revoke close by (simp add: api_guarded_state tokens_list_def split: request.split)
  then show ?thesis
    using api_handle_state [of lib now order uuid parts req s]
    by (cases "authenticate lib now s parts") (auto simp only: sum.case tokens_extend_refl)
qed

fun api_run :: "auth_lib \<Rightarrow> (timestamp \<times> string list \<times> string \<times> parts \<times> request) list \<Rightarrow>
    server \<Rightarrow> server" where
  "api_run lib [] s = s"
| "api_run lib ((now, order, uuid, parts, req) # rs) s =
     api_run lib rs (fst (api_handle lib now order uuid parts req s))"

section \<open>Properties\<close>

text \<open>The API is confined: a request without valid claims changes nothing at all, and one
  with claims changes at most the token list of its own user and the close permits of live
  tunnels; ports, nodes, tunnels, devices, history and events are out of its reach.\<close>

lemma api_confined:
  "case authenticate lib now s parts of
     Inl r \<Rightarrow> fst (api_handle lib now order uuid parts req s) = s
   | Inr auth \<Rightarrow> api_change (cl_sub auth) s (fst (api_handle lib now order uuid parts req s))"
  using api_handle_state [of lib now order uuid parts req s]
  by (cases "authenticate lib now s parts") (simp_all add: api_guarded_change)

text \<open>No API token is ever lost, reordered or un-revoked: over any run of requests, by any
  users, every user's list keeps its entries in place, and the only change to one is that
  it becomes revoked.\<close>

lemma api_tokens_append_only:
  "tokens_extend (tokens_list who s) (tokens_list who (api_run lib rs s))"
proof (induction rs arbitrary: s)
  case (Cons r rs)
  obtain now order uuid parts req where r: "r = (now, order, uuid, parts, req)" by (cases r)
  show ?case
    using tokens_extend_trans [OF api_tokens_extend Cons.IH] by (simp add: r)
qed simp

text \<open>Revoking marks exactly the first token with the id, once and for all; a second
  token of the user with the same id (the first eight digits of its secret) is out of
  reach of every later revocation.\<close>

lemma revoke_first_only:
  assumes "sv_api_tokens s (cl_sub auth) = Some (ts @ t # us)"
    and "ti_id t = i" and "\<forall>u \<in> set ts. ti_id u \<noteq> i"
  shows "snd (tokens_revoke auth i s) = No_Content \<and>
    sv_api_tokens (((\<lambda>s. fst (tokens_revoke auth i s)) ^^ Suc n) s) (cl_sub auth) =
      Some (ts @ t\<lparr>ti_revoked := True\<rparr> # us)"
proof -
  let ?t' = "t\<lparr>ti_revoked := True\<rparr>"
  have upd: "update_first (\<lambda>t. ti_id t = i) (ti_revoked_update (\<lambda>_. True)) (ts @ x # us) =
      ts @ x\<lparr>ti_revoked := True\<rparr> # us" if "ti_id x = i" for x
    using assms(3) that by (induction ts) auto
  have found: "List.find (\<lambda>t. ti_id t = i) (ts @ x # us) = Some x" if "ti_id x = i" for x
    using assms(3) that by (induction ts) auto
  have step: "sv_api_tokens (fst (tokens_revoke auth i r)) (cl_sub auth) =
      Some (ts @ x\<lparr>ti_revoked := True\<rparr> # us)"
    if "sv_api_tokens r (cl_sub auth) = Some (ts @ x # us)" "ti_id x = i" for r x
    using that found [of x] upd [of x] by (simp add: tokens_revoke_def)
  have "sv_api_tokens (((\<lambda>s. fst (tokens_revoke auth i s)) ^^ Suc n) s) (cl_sub auth) =
      Some (ts @ ?t' # us)"
  proof (induction n)
    case 0
    show ?case using step [OF assms(1,2)] by simp
  next
    case (Suc n)
    from step [OF Suc] assms(2) show ?case by simp
  qed
  moreover have "snd (tokens_revoke auth i s) = No_Content"
    using found [OF assms(2)] assms(1) by (simp add: tokens_revoke_def)
  ultimately show ?thesis by simp
qed

text \<open>The device rows count live tunnels: each row's count is the number of active tunnels
  that report the row's host name, in whatever order the map is iterated.\<close>

lemma device_counts_exact:
  assumes "iteration_order (sv_active_tunnels s) order"
  shows "map di_tunnel_count (devices_list rfc3339 order s) =
    map (\<lambda>d. card {i. \<exists>e. sv_active_tunnels s i = Some e \<and> te_hostname e = Some (dv_hostname d)})
      (sv_devices s)"
  using count_fold [of "values_in (sv_active_tunnels s) order" Map.empty]
    length_filter_values [OF assms]
  by (simp add: devices_list_def host_counts_def)

text \<open>The tunnel table is a faithful snapshot: one row for each active tunnel, under its
  id, and no other row.\<close>

lemma tunnel_rows_exact:
  assumes "iteration_order (sv_active_tunnels s) order"
  shows "distinct (map td_tunnel_id (tunnels_list rfc3339 order s)) \<and>
    set (tunnels_list rfc3339 order s) =
      {tunnel_row rfc3339 i e | i e. sv_active_tunnels s i = Some e}"
proof
  have "map td_tunnel_id (tunnels_list rfc3339 is s) = filter (\<lambda>i. i \<in> dom (sv_active_tunnels s)) is"
    for "is"
    by (induction "is") (auto simp: tunnels_list_def tunnel_row_def List.map_filter_simps
      split: option.splits)
  then show "distinct (map td_tunnel_id (tunnels_list rfc3339 order s))"
    using assms by (simp add: iteration_order_def)
  show "set (tunnels_list rfc3339 order s) =
      {tunnel_row rfc3339 i e | i e. sv_active_tunnels s i = Some e}"
    using assms by (force simp: tunnels_list_def set_map_filter iteration_order_def)
qed

section \<open>Samples\<close>

definition sample_entry :: tunnel_entry where
  "sample_entry = \<lparr>te_protocol = Tcp, te_local_port = 8080, te_remote_port = 30001, te_node = None,
     te_hostname = Some ''h'', te_started_at = 0, te_route = None, te_close = 1\<rparr>"

definition sample_token_info :: "string \<Rightarrow> token_info" where
  "sample_token_info name = \<lparr>ti_id = ''tnk_00000000'', ti_name = name, ti_scope = ''all'',
     ti_created_at = ''0'', ti_revoked = False\<rparr>"

definition sample_live :: server where
  "sample_live = (insert_tunnel ''i'' sample_entry (upsert_device ''h'' 0 ''d'' (server_new sample_config)))
     \<lparr>sv_api_tokens := [''u'' \<mapsto> [sample_token_info ''a'', sample_token_info ''b'']]\<rparr>"

lemma sample_live_fields:
  "sv_active_tunnels sample_live = [''i'' \<mapsto> sample_entry]"
  "sv_devices sample_live = [\<lparr>dv_id = ''d'', dv_hostname = ''h'', dv_last_seen_at = 0\<rparr>]"
  "sv_api_tokens sample_live = [''u'' \<mapsto> [sample_token_info ''a'', sample_token_info ''b'']]"
  by (simp_all add: sample_live_def insert_tunnel_def upsert_device_def upsert_def server_new_def)

lemma sample_live_order: "iteration_order (sv_active_tunnels sample_live) [''i'']"
  by (simp add: sample_live_fields iteration_order_def)

end
