(* ===== verification/Control.thy ===== *)
theory Control
  imports Data_Port Dashboard
begin

text \<open>
  The control plane, \<open>crates/server/src/control.rs\<close>: the task of each CLI connection
  (\<open>handle_cli\<close> with \<open>serve_cli_direct\<close>, \<open>serve_cli_via_node\<close> and \<open>serve_tunnel\<close>) and of
  each node connection (\<open>handle_node\<close> with \<open>forward_visitor\<close>).

  A task is its program point with the local variables live there. Every \<open>.await\<close>, and every
  operation on shared state, is a step of its own, so that tasks interleave between them as
  they do in the code. What a step takes from outside (clock, fresh UUID, the choice of the
  random generator, the iteration order of a map, the outcome of a write, what \<open>select!\<close>
  found ready, a line read) is its \<open>io\<close> argument; the step itself is a function.

  Frames written to a control connection are collected in the order of the writes.
\<close>

section \<open>State\<close>

record tunnel_ctx =
  tc_tunnel_id :: string
  tc_port :: u16

datatype cli_pc =
  \<comment> \<open>\<open>handle_cli\<close>\<close>
    K_Token
  | K_Device
  | K_Port
  | K_Pick tunnel_ctx
  \<comment> \<open>\<open>serve_cli_direct\<close> and \<open>serve_tunnel\<close>\<close>
  | K_Bind tunnel_ctx
  | K_Ready tunnel_ctx
  | K_Insert tunnel_ctx
  | K_Publish tunnel_ctx timestamp
  | K_Serve tunnel_ctx
  | K_Notify tunnel_ctx socket string
  \<comment> \<open>\<open>serve_cli_via_node\<close>\<close>
  | K_Open tunnel_ctx node_info
  | K_Node_Insert tunnel_ctx node_info
  | K_Increment tunnel_ctx node_info timestamp
  | K_Node_Publish tunnel_ctx node_info timestamp
  | K_Advertise tunnel_ctx node_info
  | K_Node_Serve tunnel_ctx node_info
  | K_Close_Order tunnel_ctx node_info
  | K_Decrement tunnel_ctx node_info
  \<comment> \<open>the cleanup at the end of \<open>handle_cli\<close>\<close>
  | K_Remove tunnel_ctx
  | K_Record tunnel_ctx tunnel_entry
  | K_Closed tunnel_ctx
  | K_Release tunnel_ctx
  | K_Finished

record cli_task =
  ct_register :: register
  ct_pc :: cli_pc

datatype node_pc =
    R_Token
  | R_Register
  | R_Ack string
  | R_Unregister string
  | R_Publish string
  | R_Loop string
  | R_Lookup string string string
  | R_Forward string string "conn \<times> string \<times> u16"
  | R_Remove string
  | R_Left string
  | R_Finished

record node_task =
  nt_register :: register_node
  nt_host :: string
  nt_pc :: node_pc

text \<open>What the spawned visitor task of \<open>serve_tunnel\<close> keeps for the history. The time is taken
  when the notice to the CLI has been written.\<close>

record visit =
  vi_tunnel_id :: string
  vi_source_ip :: string
  vi_source_port :: u16
  vi_connected_at :: timestamp

record system =
  sy_server :: server
  sy_cli :: "conn \<rightharpoonup> cli_task"
  sy_node :: "conn \<rightharpoonup> node_task"
  sy_sent :: "conn \<Rightarrow> message list"
  sy_visits :: "socket \<rightharpoonup> visit"
  sy_uuids :: "string set"

definition system_new :: "server_config \<Rightarrow> system" where
  "system_new cfg =
     \<lparr>sy_server = server_new cfg, sy_cli = Map.empty, sy_node = Map.empty,
      sy_sent = (\<lambda>_. []), sy_visits = Map.empty, sy_uuids = {}\<rparr>"

datatype serve_event =
    Ev_Close
  | Ev_Visitor socket string u16
  | Ev_Accept_Error
  | Ev_Line
  | Ev_Gone

record io =
  io_ok :: bool
  io_sent :: bool
  io_now :: timestamp
  io_uuid :: string
  io_choice :: "u16 option"
  io_order :: "string list"
  io_event :: serve_event
  io_line :: "(nat \<times> string) io_result"

section \<open>Steps of a task\<close>

definition on_server :: "(server \<Rightarrow> server) \<Rightarrow> system \<Rightarrow> system" where
  "on_server f sys = sys\<lparr>sy_server := f (sy_server sys)\<rparr>"

text \<open>\<open>send\<close> to a control connection; a failed write delivers no frame.\<close>

definition deliver :: "conn \<Rightarrow> message \<Rightarrow> bool \<Rightarrow> system \<Rightarrow> system" where
  "deliver c m ok sys =
     (if ok then sys\<lparr>sy_sent := (sy_sent sys)(c := sy_sent sys c @ [m])\<rparr> else sys)"

definition reject_to :: "conn \<Rightarrow> string \<Rightarrow> bool \<Rightarrow> system \<Rightarrow> system" where
  "reject_to c reason ok sys = deliver c (Error \<lparr>em_reason = reason\<rparr>) ok sys"

definition goto_cli :: "conn \<Rightarrow> cli_pc \<Rightarrow> system \<Rightarrow> system" where
  "goto_cli c pc sys =
     sys\<lparr>sy_cli := (sy_cli sys)(c := map_option (\<lambda>t. t\<lparr>ct_pc := pc\<rparr>) (sy_cli sys c))\<rparr>"

definition goto_node :: "conn \<Rightarrow> node_pc \<Rightarrow> system \<Rightarrow> system" where
  "goto_node c pc sys =
     sys\<lparr>sy_node := (sy_node sys)(c := map_option (\<lambda>t. t\<lparr>nt_pc := pc\<rparr>) (sy_node sys c))\<rparr>"

subsection \<open>Admission: the first half of \<open>handle_cli\<close>\<close>

definition step_token :: "conn \<Rightarrow> io \<Rightarrow> register \<Rightarrow> system \<Rightarrow> system" where
  "step_token c io reg sys =
     (if known_token (rg_token reg) (sy_server sys) then goto_cli c K_Device sys
      else goto_cli c K_Finished (reject_to c ''invalid token'' (io_sent io) sys))"

definition step_device :: "conn \<Rightarrow> io \<Rightarrow> register \<Rightarrow> system \<Rightarrow> system" where
  "step_device c io reg sys =
     goto_cli c K_Port
       (case rg_hostname reg of
          Some hostname \<Rightarrow> on_server (upsert_device hostname (io_now io) (io_uuid io)) sys
        | None \<Rightarrow> sys)"

definition request_port :: "register \<Rightarrow> io \<Rightarrow> port_manager \<Rightarrow> port_manager \<times> u16 option" where
  "request_port reg io pool =
     (case rg_remote_port reg of
        Some p \<Rightarrow> acquire_specific p pool
      | None \<Rightarrow> acquire (io_choice io) pool)"

definition step_port :: "conn \<Rightarrow> io \<Rightarrow> register \<Rightarrow> system \<Rightarrow> system" where
  "step_port c io reg sys =
     (let (pool, port) = request_port reg io (sv_port_mgr (sy_server sys));
          sys' = on_server (sv_port_mgr_update (\<lambda>_. pool)) sys
      in case port of
           None \<Rightarrow> goto_cli c K_Finished (reject_to c ''no port available'' (io_sent io) sys')
         | Some p \<Rightarrow> goto_cli c (K_Pick \<lparr>tc_tunnel_id = io_uuid io, tc_port = p\<rparr>) sys')"

definition step_pick :: "conn \<Rightarrow> io \<Rightarrow> register \<Rightarrow> tunnel_ctx \<Rightarrow> system \<Rightarrow> system" where
  "step_pick c io reg x sys =
     (case pick (io_order io) (rg_node reg) (sv_node_manager (sy_server sys)) of
        Some node \<Rightarrow> goto_cli c (K_Open x node) sys
      | None \<Rightarrow> goto_cli c (K_Bind x) sys)"

subsection \<open>The direct path: \<open>serve_cli_direct\<close>\<close>

definition step_bind :: "conn \<Rightarrow> io \<Rightarrow> tunnel_ctx \<Rightarrow> system \<Rightarrow> system" where
  "step_bind c io x sys =
     (if io_ok io then goto_cli c (K_Ready x) sys
      else goto_cli c (K_Remove x) (reject_to c ''failed to open tunnel port'' (io_sent io) sys))"

definition step_ready :: "conn \<Rightarrow> io \<Rightarrow> tunnel_ctx \<Rightarrow> system \<Rightarrow> system" where
  "step_ready c io x sys =
     goto_cli c (if io_sent io then K_Insert x else K_Remove x)
       (deliver c (Registered \<lparr>rd_remote_port = tc_port x, rd_node_host = None,
          rd_node_port = None\<rparr>) (io_sent io) sys)"

definition entry_for ::
    "register \<Rightarrow> tunnel_ctx \<Rightarrow> conn \<Rightarrow> node_info option \<Rightarrow> timestamp \<Rightarrow> tunnel_entry" where
  "entry_for reg x c node started_at =
     \<lparr>te_protocol = rg_protocol reg, te_local_port = rg_local_port reg,
      te_remote_port = tc_port x, te_node = map_option ni_name node,
      te_hostname = rg_hostname reg, te_started_at = started_at,
      te_route = map_option (\<lambda>n. (c, ni_host n, ni_data_port n)) node, te_close = c\<rparr>"

definition opened_event ::
    "(timestamp \<Rightarrow> string) \<Rightarrow> register \<Rightarrow> tunnel_ctx \<Rightarrow> node_info option \<Rightarrow> timestamp \<Rightarrow> bh_event" where
  "opened_event rfc3339 reg x node started_at =
     Tunnel_Opened (tc_tunnel_id x) (protocol_str (rg_protocol reg)) (rg_local_port reg)
       (tc_port x) (case node of None \<Rightarrow> [] | Some n \<Rightarrow> ni_name n) (rfc3339 started_at)"

definition step_insert :: "conn \<Rightarrow> io \<Rightarrow> register \<Rightarrow> tunnel_ctx \<Rightarrow> system \<Rightarrow> system" where
  "step_insert c io reg x sys =
     goto_cli c (K_Publish x (io_now io))
       (on_server (insert_tunnel (tc_tunnel_id x) (entry_for reg x c None (io_now io))) sys)"

definition step_publish ::
    "(timestamp \<Rightarrow> string) \<Rightarrow> conn \<Rightarrow> register \<Rightarrow> tunnel_ctx \<Rightarrow> timestamp \<Rightarrow> system \<Rightarrow> system" where
  "step_publish rfc3339 c reg x started_at sys =
     goto_cli c (K_Serve x) (on_server (sv_publish (opened_event rfc3339 reg x None started_at)) sys)"

text \<open>One turn of \<open>serve_tunnel\<close>: the branch of \<open>select!\<close> that is ready.\<close>

definition step_serve :: "conn \<Rightarrow> io \<Rightarrow> tunnel_ctx \<Rightarrow> system \<Rightarrow> system" where
  "step_serve c io x sys =
     (case io_event io of
        Ev_Close \<Rightarrow>
          if c \<in> sv_permits (sy_server sys)
          then goto_cli c (K_Remove x) (on_server (sv_permits_update (\<lambda>ps. ps - {c})) sys)
          else sys
      | Ev_Visitor v ip port \<Rightarrow>
          goto_cli c (K_Notify x v (io_uuid io))
            (on_server (sv_pending_update (rv_accept v (io_uuid io)))
              (sys\<lparr>sy_visits := (sy_visits sys)(v \<mapsto>
                 \<lparr>vi_tunnel_id = tc_tunnel_id x, vi_source_ip = ip, vi_source_port = port,
                  vi_connected_at = io_now io\<rparr>)\<rparr>))
      | Ev_Accept_Error \<Rightarrow> sys
      | Ev_Line \<Rightarrow> sys
      | Ev_Gone \<Rightarrow> goto_cli c (K_Remove x) sys)"

definition step_notify :: "conn \<Rightarrow> io \<Rightarrow> tunnel_ctx \<Rightarrow> socket \<Rightarrow> string \<Rightarrow> system \<Rightarrow> system" where
  "step_notify c io x v conn_id sys =
     (if io_sent io
      then goto_cli c (K_Serve x) (on_server (sv_pending_update (rv_notified v))
             (deliver c (New_Conn \<lparr>nc_conn_id = conn_id, nc_node_host = None, nc_node_port = None\<rparr>)
                True (sys\<lparr>sy_visits := (sy_visits sys)
                  (v := map_option (vi_connected_at_update (\<lambda>_. io_now io)) (sy_visits sys v))\<rparr>)))
      else goto_cli c (K_Remove x) (on_server (sv_pending_update (rv_notify_failed v)) sys))"

subsection \<open>The path through a node: \<open>serve_cli_via_node\<close>\<close>

definition step_open :: "conn \<Rightarrow> io \<Rightarrow> tunnel_ctx \<Rightarrow> node_info \<Rightarrow> system \<Rightarrow> system" where
  "step_open c io x node sys =
     goto_cli c (if io_sent io then K_Node_Insert x node else K_Bind x)
       (deliver (ni_tx node)
          (Open_Tunnel \<lparr>ot_tunnel_id = tc_tunnel_id x, ot_remote_port = tc_port x\<rparr>) (io_sent io) sys)"

definition step_node_insert ::
    "conn \<Rightarrow> io \<Rightarrow> register \<Rightarrow> tunnel_ctx \<Rightarrow> node_info \<Rightarrow> system \<Rightarrow> system" where
  "step_node_insert c io reg x node sys =
     goto_cli c (K_Increment x node (io_now io))
       (on_server (insert_tunnel (tc_tunnel_id x) (entry_for reg x c (Some node) (io_now io))) sys)"

definition step_increment ::
    "conn \<Rightarrow> tunnel_ctx \<Rightarrow> node_info \<Rightarrow> timestamp \<Rightarrow> system \<Rightarrow> system" where
  "step_increment c x node started_at sys =
     goto_cli c (K_Node_Publish x node started_at)
       (on_server (sv_node_manager_update (increment_tunnels (ni_node_id node))) sys)"

definition step_node_publish ::
    "(timestamp \<Rightarrow> string) \<Rightarrow> conn \<Rightarrow> register \<Rightarrow> tunnel_ctx \<Rightarrow> node_info \<Rightarrow> timestamp \<Rightarrow>
     system \<Rightarrow> system" where
  "step_node_publish rfc3339 c reg x node started_at sys =
     goto_cli c (K_Advertise x node)
       (on_server (sv_publish (opened_event rfc3339 reg x (Some node) started_at)) sys)"

definition step_advertise :: "conn \<Rightarrow> io \<Rightarrow> tunnel_ctx \<Rightarrow> node_info \<Rightarrow> system \<Rightarrow> system" where
  "step_advertise c io x node sys =
     goto_cli c (K_Node_Serve x node)
       (deliver c (Registered \<lparr>rd_remote_port = tc_port x, rd_node_host = Some (ni_host node),
          rd_node_port = Some (ni_data_port node)\<rparr>) (io_sent io) sys)"

definition step_node_serve :: "conn \<Rightarrow> io \<Rightarrow> tunnel_ctx \<Rightarrow> node_info \<Rightarrow> system \<Rightarrow> system" where
  "step_node_serve c io x node sys =
     (case io_event io of
        Ev_Close \<Rightarrow>
          if c \<in> sv_permits (sy_server sys)
          then goto_cli c (K_Close_Order x node) (on_server (sv_permits_update (\<lambda>ps. ps - {c})) sys)
          else sys
      | Ev_Gone \<Rightarrow> goto_cli c (K_Close_Order x node) sys
      | _ \<Rightarrow> sys)"

definition step_close_order :: "conn \<Rightarrow> io \<Rightarrow> tunnel_ctx \<Rightarrow> node_info \<Rightarrow> system \<Rightarrow> system" where
  "step_close_order c io x node sys =
     goto_cli c (K_Decrement x node)
       (deliver (ni_tx node) (Close_Tunnel \<lparr>ct_tunnel_id = tc_tunnel_id x\<rparr>) (io_sent io) sys)"

definition step_decrement :: "conn \<Rightarrow> tunnel_ctx \<Rightarrow> node_info \<Rightarrow> system \<Rightarrow> system" where
  "step_decrement c x node sys =
     goto_cli c (K_Remove x)
       (on_server (sv_node_manager_update (decrement_tunnels (ni_node_id node))) sys)"

subsection \<open>Cleanup: the second half of \<open>handle_cli\<close>\<close>

definition step_remove :: "conn \<Rightarrow> tunnel_ctx \<Rightarrow> system \<Rightarrow> system" where
  "step_remove c x sys =
     (let (s', removed) = remove_tunnel (tc_tunnel_id x) (sy_server sys);
          sys' = sys\<lparr>sy_server := s'\<rparr>
      in case removed of
           Some entry \<Rightarrow> goto_cli c (K_Record x entry) sys'
         | None \<Rightarrow> goto_cli c (K_Release x) sys')"

definition archive_entry ::
    "(timestamp \<Rightarrow> string) \<Rightarrow> string \<Rightarrow> tunnel_entry \<Rightarrow> timestamp \<Rightarrow> tunnel_history" where
  "archive_entry rfc3339 tunnel_id entry ended_at =
     \<lparr>th_tunnel_id = tunnel_id, th_protocol = protocol_str (te_protocol entry),
      th_local_port = te_local_port entry, th_remote_port = te_remote_port entry,
      th_node = te_node entry, th_started_at = rfc3339 (te_started_at entry),
      th_ended_at = rfc3339 ended_at,
      th_duration_secs = nat ((ended_at - te_started_at entry) div 10 ^ 9)\<rparr>"

definition step_record ::
    "(timestamp \<Rightarrow> string) \<Rightarrow> conn \<Rightarrow> io \<Rightarrow> tunnel_ctx \<Rightarrow> tunnel_entry \<Rightarrow> system \<Rightarrow> system" where
  "step_record rfc3339 c io x entry sys =
     goto_cli c (K_Closed x)
       (on_server (sv_history_update
          (record_tunnel (archive_entry rfc3339 (tc_tunnel_id x) entry (io_now io)))) sys)"

definition step_closed :: "conn \<Rightarrow> tunnel_ctx \<Rightarrow> system \<Rightarrow> system" where
  "step_closed c x sys =
     goto_cli c (K_Release x) (on_server (sv_publish (Tunnel_Closed (tc_tunnel_id x))) sys)"

definition step_release :: "conn \<Rightarrow> tunnel_ctx \<Rightarrow> system \<Rightarrow> system" where
  "step_release c x sys =
     goto_cli c K_Finished (on_server (sv_port_mgr_update (release (tc_port x))) sys)"

text \<open>The next step of the task of a CLI connection.\<close>

definition cli_step :: "(timestamp \<Rightarrow> string) \<Rightarrow> conn \<Rightarrow> io \<Rightarrow> system \<Rightarrow> system" where
  "cli_step rfc3339 c io sys =
     (case sy_cli sys c of
        None \<Rightarrow> sys
      | Some t \<Rightarrow>
          (case ct_pc t of
             K_Token \<Rightarrow> step_token c io (ct_register t) sys
           | K_Device \<Rightarrow> step_device c io (ct_register t) sys
           | K_Port \<Rightarrow> step_port c io (ct_register t) sys
           | K_Pick x \<Rightarrow> step_pick c io (ct_register t) x sys
           | K_Bind x \<Rightarrow> step_bind c io x sys
           | K_Ready x \<Rightarrow> step_ready c io x sys
           | K_Insert x \<Rightarrow> step_insert c io (ct_register t) x sys
           | K_Publish x ts \<Rightarrow> step_publish rfc3339 c (ct_register t) x ts sys
           | K_Serve x \<Rightarrow> step_serve c io x sys
           | K_Notify x v i \<Rightarrow> step_notify c io x v i sys
           | K_Open x node \<Rightarrow> step_open c io x node sys
           | K_Node_Insert x node \<Rightarrow> step_node_insert c io (ct_register t) x node sys
           | K_Increment x node ts \<Rightarrow> step_increment c x node ts sys
           | K_Node_Publish x node ts \<Rightarrow> step_node_publish rfc3339 c (ct_register t) x node ts sys
           | K_Advertise x node \<Rightarrow> step_advertise c io x node sys
           | K_Node_Serve x node \<Rightarrow> step_node_serve c io x node sys
           | K_Close_Order x node \<Rightarrow> step_close_order c io x node sys
           | K_Decrement x node \<Rightarrow> step_decrement c x node sys
           | K_Remove x \<Rightarrow> step_remove c x sys
           | K_Record x entry \<Rightarrow> step_record rfc3339 c io x entry sys
           | K_Closed x \<Rightarrow> step_closed c x sys
           | K_Release x \<Rightarrow> step_release c x sys
           | K_Finished \<Rightarrow> sys))"

subsection \<open>The task of a node connection: \<open>handle_node\<close>\<close>

definition step_node_token :: "conn \<Rightarrow> io \<Rightarrow> register_node \<Rightarrow> system \<Rightarrow> system" where
  "step_node_token c io reg sys =
     (if known_token (rn_token reg) (sy_server sys) then goto_node c R_Register sys
      else goto_node c R_Finished (reject_to c ''invalid token'' (io_sent io) sys))"

definition step_node_register ::
    "conn \<Rightarrow> io \<Rightarrow> register_node \<Rightarrow> string \<Rightarrow> system \<Rightarrow> system" where
  "step_node_register c io reg host sys =
     goto_node c (R_Ack (io_uuid io))
       (on_server (sv_node_manager_update
          (nm_register (io_uuid io) (rn_name reg) host (rn_data_port reg) c)) sys)"

definition step_node_ack :: "conn \<Rightarrow> io \<Rightarrow> string \<Rightarrow> system \<Rightarrow> system" where
  "step_node_ack c io node_id sys =
     goto_node c (if io_sent io then R_Publish node_id else R_Unregister node_id)
       (deliver c (Node_Registered \<lparr>nr_node_id = node_id\<rparr>) (io_sent io) sys)"

definition step_node_connected :: "conn \<Rightarrow> register_node \<Rightarrow> string \<Rightarrow> system \<Rightarrow> system" where
  "step_node_connected c reg node_id sys =
     goto_node c (R_Loop node_id) (on_server (sv_publish (Node_Connected node_id (rn_name reg))) sys)"

text \<open>One turn of the loop: a line was read, or the connection ended.\<close>

definition step_node_loop :: "codec \<Rightarrow> conn \<Rightarrow> io \<Rightarrow> string \<Rightarrow> system \<Rightarrow> system" where
  "step_node_loop cd c io node_id sys =
     (case io_line io of
        Io_Err \<Rightarrow> goto_node c (R_Remove node_id) sys
      | Io_Ok (n, line) \<Rightarrow>
          if n = 0 then goto_node c (R_Remove node_id) sys
          else (case from_line cd line of
                  Some (Visitor_Conn vc) \<Rightarrow>
                    goto_node c (R_Lookup node_id (vc_tunnel_id vc) (vc_conn_id vc)) sys
                | _ \<Rightarrow> sys))"

text \<open>\<open>forward_visitor\<close>: the route is looked up under the lock, the notice sent after it.\<close>

definition step_lookup :: "conn \<Rightarrow> string \<Rightarrow> string \<Rightarrow> string \<Rightarrow> system \<Rightarrow> system" where
  "step_lookup c node_id tunnel_id conn_id sys =
     (case Option.bind (sv_active_tunnels (sy_server sys) tunnel_id) te_route of
        Some route \<Rightarrow> goto_node c (R_Forward node_id conn_id route) sys
      | None \<Rightarrow> goto_node c (R_Loop node_id) sys)"

definition step_forward ::
    "conn \<Rightarrow> io \<Rightarrow> string \<Rightarrow> string \<Rightarrow> conn \<times> string \<times> u16 \<Rightarrow> system \<Rightarrow> system" where
  "step_forward c io node_id conn_id route sys =
     (case route of (cli, host, port) \<Rightarrow>
        goto_node c (R_Loop node_id)
          (deliver cli (New_Conn \<lparr>nc_conn_id = conn_id, nc_node_host = Some host,
             nc_node_port = Some port\<rparr>) (io_sent io) sys))"

definition step_node_remove :: "conn \<Rightarrow> string \<Rightarrow> node_pc \<Rightarrow> system \<Rightarrow> system" where
  "step_node_remove c node_id next sys =
     goto_node c next (on_server (sv_node_manager_update (nm_remove node_id)) sys)"

definition step_node_left :: "conn \<Rightarrow> string \<Rightarrow> system \<Rightarrow> system" where
  "step_node_left c node_id sys =
     goto_node c R_Finished (on_server (sv_publish (Node_Left node_id)) sys)"

definition node_step :: "codec \<Rightarrow> conn \<Rightarrow> io \<Rightarrow> system \<Rightarrow> system" where
  "node_step cd c io sys =
     (case sy_node sys c of
        None \<Rightarrow> sys
      | Some t \<Rightarrow>
          (case nt_pc t of
             R_Token \<Rightarrow> step_node_token c io (nt_register t) sys
           | R_Register \<Rightarrow> step_node_register c io (nt_register t) (nt_host t) sys
           | R_Ack i \<Rightarrow> step_node_ack c io i sys
           | R_Unregister i \<Rightarrow> step_node_remove c i R_Finished sys
           | R_Publish i \<Rightarrow> step_node_connected c (nt_register t) i sys
           | R_Loop i \<Rightarrow> step_node_loop cd c io i sys
           | R_Lookup i tunnel_id conn_id \<Rightarrow> step_lookup c i tunnel_id conn_id sys
           | R_Forward i conn_id route \<Rightarrow> step_forward c io i conn_id route sys
           | R_Remove i \<Rightarrow> step_node_remove c i (R_Left i) sys
           | R_Left i \<Rightarrow> step_node_left c i sys
           | R_Finished \<Rightarrow> sys))"

section \<open>The first frame: \<open>handle_client\<close>\<close>

datatype client_kind =
    As_Cli register
  | As_Node register_node
  | Refused string
  | Gone

definition classify :: "codec \<Rightarrow> string option io_result \<Rightarrow> client_kind" where
  "classify cd first =
     (case first of
        Io_Err \<Rightarrow> Gone
      | Io_Ok None \<Rightarrow> Gone
      | Io_Ok (Some line) \<Rightarrow>
          (case from_line cd line of
             Some (Register reg) \<Rightarrow> As_Cli reg
           | Some (Register_Node reg) \<Rightarrow> As_Node reg
           | Some _ \<Rightarrow> Refused ''expected register or register_node''
           | None \<Rightarrow> Refused ''malformed first message''))"

text \<open>\<open>host\<close> is the peer's address, which \<open>handle_node\<close> takes from the socket.\<close>

definition handle_client :: "codec \<Rightarrow> conn \<Rightarrow> stream \<Rightarrow> string \<Rightarrow> bool \<Rightarrow> system \<Rightarrow> system" where
  "handle_client cd c stream host ok sys =
     (case classify cd (fst (read_frame stream)) of
        As_Cli reg \<Rightarrow>
          sys\<lparr>sy_cli := (sy_cli sys)(c \<mapsto> \<lparr>ct_register = reg, ct_pc = K_Token\<rparr>)\<rparr>
      | As_Node reg \<Rightarrow>
          sys\<lparr>sy_node := (sy_node sys)(c \<mapsto>
            \<lparr>nt_register = reg, nt_host = host, nt_pc = R_Token\<rparr>)\<rparr>
      | Refused reason \<Rightarrow> reject_to c reason ok sys
      | Gone \<Rightarrow> sys)"

section \<open>The end of a visit\<close>

text \<open>A proxied visitor is done: the connection goes to the history.\<close>

definition visit_record ::
    "(timestamp \<Rightarrow> string) \<Rightarrow> visit \<Rightarrow> string \<Rightarrow> timestamp \<Rightarrow> connection_history" where
  "visit_record rfc3339 vi conn_id now =
     \<lparr>ch_tunnel_id = vi_tunnel_id vi, ch_conn_id = conn_id, ch_source_ip = vi_source_ip vi,
      ch_source_port = vi_source_port vi, ch_connected_at = rfc3339 (vi_connected_at vi),
      ch_duration_secs = nat ((now - vi_connected_at vi) div 10 ^ 9)\<rparr>"

definition visitor_done ::
    "(timestamp \<Rightarrow> string) \<Rightarrow> socket \<Rightarrow> timestamp \<Rightarrow> system \<Rightarrow> system" where
  "visitor_done rfc3339 v now sys =
     (case (rv_visitors (sv_pending (sy_server sys)) v, sy_visits sys v) of
        (Some vs, Some vi) \<Rightarrow>
          on_server (sv_history_update (record_connection (visit_record rfc3339 vi (vs_conn_id vs) now)))
            (on_server (sv_pending_update (rv_finish v)) sys)
      | _ \<Rightarrow> sys)"

section \<open>The system\<close>

text \<open>Fresh UUIDs are drawn from a set that never repeats; the other draws are legitimate
  choices in the current state.\<close>

definition draws_ok :: "io \<Rightarrow> system \<Rightarrow> bool" where
  "draws_ok io sys \<longleftrightarrow>
     io_uuid io \<notin> sy_uuids sys \<and>
     chosen_from (available (sv_port_mgr (sy_server sys))) (io_choice io) \<and>
     iteration_order (sv_node_manager (sy_server sys)) (io_order io) \<and>
     (case io_event io of
        Ev_Visitor v _ _ \<Rightarrow> rv_visitors (sv_pending (sy_server sys)) v = None
      | _ \<Rightarrow> True)"

definition drawn :: "string \<Rightarrow> system \<Rightarrow> system" where
  "drawn uuid sys = sys\<lparr>sy_uuids := insert uuid (sy_uuids sys)\<rparr>"

inductive sys_step :: "codec \<Rightarrow> auth_lib \<Rightarrow> system \<Rightarrow> system \<Rightarrow> bool" for cd lib where
  connect: "sy_cli sys c = None \<Longrightarrow> sy_node sys c = None \<Longrightarrow> sy_sent sys c = [] \<Longrightarrow>
    sys_step cd lib sys (handle_client cd c stream host ok sys)"
| cli: "draws_ok io sys \<Longrightarrow>
    sys_step cd lib sys (drawn (io_uuid io) (cli_step (al_rfc3339 lib) c io sys))"
| node: "draws_ok io sys \<Longrightarrow>
    sys_step cd lib sys (drawn (io_uuid io) (node_step cd c io sys))"
| data: "op_enabled op (sv_pending (sy_server sys)) \<Longrightarrow>
    sys_step cd lib sys (on_server (sv_pending_update (op_apply cd op)) sys)"
| visit: "visitor_in (sv_pending (sy_server sys)) v (\<lambda>vs. \<exists>d. vs_phase vs = V_Proxying d) \<Longrightarrow>
    sys_step cd lib sys (visitor_done (al_rfc3339 lib) v now sys)"
| api: "sys_step cd lib sys
    (on_server (\<lambda>s. fst (api_handle lib now order uuid parts req s)) sys)"

inductive sys_reachable :: "codec \<Rightarrow> auth_lib \<Rightarrow> server_config \<Rightarrow> system \<Rightarrow> bool"
  for cd lib cfg where
  start: "sys_reachable cd lib cfg (system_new cfg)"
| step: "sys_reachable cd lib cfg sys \<Longrightarrow> sys_step cd lib sys sys' \<Longrightarrow>
    sys_reachable cd lib cfg sys'"

end
