(* ===== verification/Control_Facts.thy ===== *)
theory Control_Facts
  imports Control
begin

text \<open>
  What the elementary updates of a step of the control plane (\<open>Control\<close>) change and leave
  alone, as rewrite rules: the vocabulary of the invariant proofs in the theories after
  this one.
\<close>

section \<open>What elementary updates leave alone\<close>

named_theorems frame \<open>selectors of the system after an elementary update\<close>

lemma goto_cli_frame [frame, simp]:
  "sy_server (goto_cli c pc sys) = sy_server sys"
  "sy_node (goto_cli c pc sys) = sy_node sys"
  "sy_sent (goto_cli c pc sys) = sy_sent sys"
  "sy_visits (goto_cli c pc sys) = sy_visits sys"
  "sy_uuids (goto_cli c pc sys) = sy_uuids sys"
  by (simp_all add: goto_cli_def)

lemma goto_cli_task [simp]:
  "sy_cli sys c = Some t \<Longrightarrow> sy_cli (goto_cli c pc sys) = (sy_cli sys)(c \<mapsto> t\<lparr>ct_pc := pc\<rparr>)"
  by (simp add: goto_cli_def)

lemma goto_node_frame [frame, simp]:
  "sy_server (goto_node c pc' sys) = sy_server sys"
  "sy_cli (goto_node c pc' sys) = sy_cli sys"
  "sy_sent (goto_node c pc' sys) = sy_sent sys"
  "sy_visits (goto_node c pc' sys) = sy_visits sys"
  "sy_uuids (goto_node c pc' sys) = sy_uuids sys"
  by (simp_all add: goto_node_def)

lemma goto_node_task [simp]:
  "sy_node sys c = Some t \<Longrightarrow> sy_node (goto_node c pc sys) = (sy_node sys)(c \<mapsto> t\<lparr>nt_pc := pc\<rparr>)"
  by (simp add: goto_node_def)

lemma on_server_frame [frame, simp]:
  "sy_server (on_server f sys) = f (sy_server sys)"
  "sy_cli (on_server f sys) = sy_cli sys"
  "sy_node (on_server f sys) = sy_node sys"
  "sy_sent (on_server f sys) = sy_sent sys"
  "sy_visits (on_server f sys) = sy_visits sys"
  "sy_uuids (on_server f sys) = sy_uuids sys"
  by (simp_all add: on_server_def)

lemma deliver_frame [frame, simp]:
  "sy_server (deliver d m ok sys) = sy_server sys"
  "sy_cli (deliver d m ok sys) = sy_cli sys"
  "sy_node (deliver d m ok sys) = sy_node sys"
  "sy_visits (deliver d m ok sys) = sy_visits sys"
  "sy_uuids (deliver d m ok sys) = sy_uuids sys"
  by (simp_all add: deliver_def)

lemma deliver_sent:
  "sy_sent (deliver d m ok sys) = (if ok then (sy_sent sys)(d := sy_sent sys d @ [m]) else sy_sent sys)"
  by (simp add: deliver_def)

lemma reject_frame [frame, simp]:
  "sy_server (reject_to d r ok sys) = sy_server sys"
  "sy_cli (reject_to d r ok sys) = sy_cli sys"
  "sy_node (reject_to d r ok sys) = sy_node sys"
  "sy_visits (reject_to d r ok sys) = sy_visits sys"
  "sy_uuids (reject_to d r ok sys) = sy_uuids sys"
  by (simp_all add: reject_to_def)

lemma drawn_frame [frame, simp]:
  "sy_server (drawn u sys) = sy_server sys"
  "sy_cli (drawn u sys) = sy_cli sys"
  "sy_node (drawn u sys) = sy_node sys"
  "sy_sent (drawn u sys) = sy_sent sys"
  "sy_visits (drawn u sys) = sy_visits sys"
  "sy_uuids (drawn u sys) = insert u (sy_uuids sys)"
  by (simp_all add: drawn_def)

lemma publish_frame [frame, simp]:
  "sv_port_mgr (sv_publish e s) = sv_port_mgr s"
  "sv_tokens (sv_publish e s) = sv_tokens s"
  "sv_pending (sv_publish e s) = sv_pending s"
  "sv_node_manager (sv_publish e s) = sv_node_manager s"
  "sv_active_tunnels (sv_publish e s) = sv_active_tunnels s"
  "sv_permits (sv_publish e s) = sv_permits s"
  "sv_event_bus (sv_publish e s) = sv_event_bus s @ [e]"
  by (simp_all add: sv_publish_def publish_def)

lemma insert_tunnel_frame [frame, simp]:
  "sv_port_mgr (insert_tunnel i e s) = sv_port_mgr s"
  "sv_pending (insert_tunnel i e s) = sv_pending s"
  "sv_node_manager (insert_tunnel i e s) = sv_node_manager s"
  "sv_active_tunnels (insert_tunnel i e s) = (sv_active_tunnels s)(i \<mapsto> e)"
  "sv_event_bus (insert_tunnel i e s) = sv_event_bus s"
  by (simp_all add: insert_tunnel_def)

lemma upsert_frame [frame, simp]:
  "sv_port_mgr (upsert_device h n u s) = sv_port_mgr s"
  "sv_pending (upsert_device h n u s) = sv_pending s"
  "sv_node_manager (upsert_device h n u s) = sv_node_manager s"
  "sv_active_tunnels (upsert_device h n u s) = sv_active_tunnels s"
  "sv_event_bus (upsert_device h n u s) = sv_event_bus s"
  by (simp_all add: upsert_device_def)

lemma api_frame:
  "sv_port_mgr (fst (api_handle lib now order uuid parts req s)) = sv_port_mgr s"
  "sv_pending (fst (api_handle lib now order uuid parts req s)) = sv_pending s"
  "sv_node_manager (fst (api_handle lib now order uuid parts req s)) = sv_node_manager s"
  "sv_active_tunnels (fst (api_handle lib now order uuid parts req s)) = sv_active_tunnels s"
  "sv_event_bus (fst (api_handle lib now order uuid parts req s)) = sv_event_bus s"
  "sv_devices (fst (api_handle lib now order uuid parts req s)) = sv_devices s"
  "sv_history (fst (api_handle lib now order uuid parts req s)) = sv_history s"
proof -
  let ?s' = "fst (api_handle lib now order uuid parts req s)"
  have "?s' = s \<or> (\<exists>u. api_change u s ?s')"
    using api_handle_state [of lib now order uuid parts req s] api_guarded_change
    by (cases "authenticate lib now s parts") (simp_all, metis)
  then have "\<exists>ts n. ?s' = s\<lparr>sv_api_tokens := ts, sv_permits := n\<rparr>"
  proof
    assume "?s' = s"
    then have "?s' = s\<lparr>sv_api_tokens := sv_api_tokens s, sv_permits := sv_permits s\<rparr>" by simp
    then show ?thesis by blast
  next
    assume "\<exists>u. api_change u s ?s'"
    then show ?thesis unfolding api_change_def by blast
  qed
  then obtain ts n where "?s' = s\<lparr>sv_api_tokens := ts, sv_permits := n\<rparr>" by blast
  then show "sv_port_mgr ?s' = sv_port_mgr s" "sv_pending ?s' = sv_pending s"
    "sv_node_manager ?s' = sv_node_manager s" "sv_active_tunnels ?s' = sv_active_tunnels s"
    "sv_event_bus ?s' = sv_event_bus s" "sv_devices ?s' = sv_devices s"
    "sv_history ?s' = sv_history s"
    by simp_all
qed

lemmas cli_defs =
  step_token_def step_device_def step_port_def step_pick_def step_bind_def step_ready_def
  step_insert_def step_publish_def step_serve_def step_notify_def step_open_def
  step_node_insert_def step_increment_def step_node_publish_def step_advertise_def
  step_node_serve_def step_close_order_def step_decrement_def step_remove_def step_record_def
  step_closed_def step_release_def

lemmas node_defs =
  step_node_token_def step_node_register_def step_node_ack_def step_node_connected_def
  step_node_loop_def step_lookup_def step_forward_def step_node_remove_def step_node_left_def

lemma cli_step_uuids [simp]: "sy_uuids (cli_step rf c io sys) = sy_uuids sys"
  by (simp add: cli_step_def cli_defs remove_tunnel_def Let_def case_prod_beta
      split: option.split cli_pc.split serve_event.split)

text \<open>A node task touches no CLI task and neither ports nor tunnels.\<close>

lemma node_step_frame:
  "sy_cli (node_step cd c io sys) = sy_cli sys"
  "sv_port_mgr (sy_server (node_step cd c io sys)) = sv_port_mgr (sy_server sys)"
  "sv_active_tunnels (sy_server (node_step cd c io sys)) = sv_active_tunnels (sy_server sys)"
  "sv_pending (sy_server (node_step cd c io sys)) = sv_pending (sy_server sys)"
  "sy_visits (node_step cd c io sys) = sy_visits sys"
  "sy_uuids (node_step cd c io sys) = sy_uuids sys"
  by (simp_all add: node_step_def node_defs split: option.splits node_pc.splits io_result.splits
      prod.splits message.splits)

lemma handle_client_frame:
  "sy_server (handle_client cd c stream host ok sys) = sy_server sys"
  "sy_visits (handle_client cd c stream host ok sys) = sy_visits sys"
  "sy_uuids (handle_client cd c stream host ok sys) = sy_uuids sys"
  by (simp_all add: handle_client_def split: client_kind.splits)

lemma handle_client_cli:
  "sy_cli (handle_client cd c stream host ok sys) = sy_cli sys \<or>
   (\<exists>reg. sy_cli (handle_client cd c stream host ok sys) =
      (sy_cli sys)(c \<mapsto> \<lparr>ct_register = reg, ct_pc = K_Token\<rparr>))"
  by (auto simp: handle_client_def split: client_kind.splits)

lemma visitor_done_frame:
  "sy_cli (visitor_done rf v now sys) = sy_cli sys"
  "sy_node (visitor_done rf v now sys) = sy_node sys"
  "sy_sent (visitor_done rf v now sys) = sy_sent sys"
  "sy_uuids (visitor_done rf v now sys) = sy_uuids sys"
  "sv_port_mgr (sy_server (visitor_done rf v now sys)) = sv_port_mgr (sy_server sys)"
  "sv_active_tunnels (sy_server (visitor_done rf v now sys)) = sv_active_tunnels (sy_server sys)"
  "sv_node_manager (sy_server (visitor_done rf v now sys)) = sv_node_manager (sy_server sys)"
  "sv_event_bus (sy_server (visitor_done rf v now sys)) = sv_event_bus (sy_server sys)"
  by (simp_all add: visitor_done_def split: option.splits)

end
