(* ===== verification/Http_Routes.thy ===== *)
theory Http_Routes
  imports Dashboard
begin

text \<open>
  The HTTP port: the routes that \<open>main\<close> of \<open>crates/server/src/main.rs\<close> registers, and the
  embedded dashboard of \<open>crates/server/src/api/mod.rs\<close> that answers every other path.

  What \<open>axum\<close> does is a parameter (\<open>extractors\<close>) where it decodes: captured path segments,
  query strings and JSON bodies, each with the status of its rejection. The extractors of a
  handler run in the order of its arguments, so the claims come first. The permissive CORS
  layer answers \<open>OPTIONS\<close> itself; \<open>get\<close> serves \<open>HEAD\<close> too.
\<close>

section \<open>Requests and replies\<close>

datatype http_method = M_Get | M_Head | M_Post | M_Delete | M_Options | M_Other

record http_request =
  hr_method :: http_method
  hr_path :: string
  hr_parts :: parts
  hr_body :: string

record extractors =
  ex_path :: "string \<Rightarrow> string option"
  ex_login :: "http_request \<Rightarrow> nat + login_request"
  ex_cli_query :: "http_request \<Rightarrow> nat + cli_query"
  ex_token :: "http_request \<Rightarrow> nat + create_token"
  ex_tunnels_page :: "http_request \<Rightarrow> nat + nat option \<times> nat option"
  ex_connections_page :: "http_request \<Rightarrow> nat + string option \<times> nat option"

datatype http_reply =
    Api reply
  | Rejected nat
  | Method_Not_Allowed
  | Preflight
  | Asset string string
  | Index_Page string
  | Not_Built

section \<open>The API router\<close>

datatype endpoint =
    E_Login
  | E_Cli_Page
  | E_Tunnels
  | E_Tunnel string
  | E_Events
  | E_Nodes
  | E_Tokens
  | E_Create_Token
  | E_Token string
  | E_Devices
  | E_History_Tunnels
  | E_History_Connections

datatype routed = To endpoint | Wrong_Method | No_Route

definition via_get :: "endpoint \<Rightarrow> http_method \<Rightarrow> routed" where
  "via_get e m = (if m = M_Get \<or> m = M_Head then To e else Wrong_Method)"

definition via :: "http_method \<Rightarrow> endpoint \<Rightarrow> http_method \<Rightarrow> routed" where
  "via m' e m = (if m = m' then To e else Wrong_Method)"

text \<open>The segments of the path below \<open>/api\<close>. A captured segment is not empty.\<close>

definition api_router :: "string list \<Rightarrow> http_method \<Rightarrow> routed" where
  "api_router segments m =
     (case segments of
        [a] \<Rightarrow>
          if a = ''tunnels'' then via_get E_Tunnels m
          else if a = ''events'' then via_get E_Events m
          else if a = ''nodes'' then via_get E_Nodes m
          else if a = ''tokens'' then
            (case via_get E_Tokens m of To e \<Rightarrow> To e | _ \<Rightarrow> via M_Post E_Create_Token m)
          else if a = ''devices'' then via_get E_Devices m
          else No_Route
      | [a, b] \<Rightarrow>
          if a = ''auth'' \<and> b = ''login'' then via M_Post E_Login m
          else if a = ''auth'' \<and> b = ''cli'' then via_get E_Cli_Page m
          else if a = ''tunnels'' \<and> b \<noteq> [] then via M_Delete (E_Tunnel b) m
          else if a = ''tokens'' \<and> b \<noteq> [] then via M_Delete (E_Token b) m
          else if a = ''history'' \<and> b = ''tunnels'' then via_get E_History_Tunnels m
          else if a = ''history'' \<and> b = ''connections'' then via_get E_History_Connections m
          else No_Route
      | _ \<Rightarrow> No_Route)"

section \<open>Endpoints\<close>

text \<open>The handlers without the claims extractor.\<close>

definition login_route :: "endpoint \<Rightarrow> bool" where
  "login_route e \<longleftrightarrow> e = E_Login \<or> e = E_Cli_Page"

definition captured :: "extractors \<Rightarrow> (string \<Rightarrow> request) \<Rightarrow> string \<Rightarrow> nat + request" where
  "captured ex f i = (case ex_path ex i of Some j \<Rightarrow> Inr (f j) | None \<Rightarrow> Inl 400)"

definition api_extract :: "extractors \<Rightarrow> endpoint \<Rightarrow> http_request \<Rightarrow> nat + request" where
  "api_extract ex e rq =
     (case e of
        E_Login \<Rightarrow> map_sum (\<lambda>st. st) Post_Login (ex_login ex rq)
      | E_Cli_Page \<Rightarrow> map_sum (\<lambda>st. st) Get_Cli_Login (ex_cli_query ex rq)
      | E_Tunnels \<Rightarrow> Inr Get_Tunnels
      | E_Tunnel i \<Rightarrow> captured ex Delete_Tunnel i
      | E_Events \<Rightarrow> Inr Get_Events
      | E_Nodes \<Rightarrow> Inr Get_Nodes
      | E_Tokens \<Rightarrow> Inr Get_Tokens
      | E_Create_Token \<Rightarrow> map_sum (\<lambda>st. st) Post_Token (ex_token ex rq)
      | E_Token i \<Rightarrow> captured ex Delete_Token i
      | E_Devices \<Rightarrow> Inr Get_Devices
      | E_History_Tunnels \<Rightarrow>
          map_sum (\<lambda>st. st) (\<lambda>(l, q). Get_History_Tunnels l q) (ex_tunnels_page ex rq)
      | E_History_Connections \<Rightarrow>
          map_sum (\<lambda>st. st) (\<lambda>(i, l). Get_History_Connections i l) (ex_connections_page ex rq))"

text \<open>\<open>now\<close>, \<open>order\<close> and \<open>uuid\<close> are those of the handlers.\<close>

definition serve_endpoint ::
    "auth_lib \<Rightarrow> extractors \<Rightarrow> timestamp \<Rightarrow> string list \<Rightarrow> string \<Rightarrow> endpoint \<Rightarrow> http_request \<Rightarrow>
     server \<Rightarrow> server \<times> http_reply" where
  "serve_endpoint lib ex now order uuid e rq s =
     (case (if login_route e then None
            else case authenticate lib now s (hr_parts rq) of Inl r \<Rightarrow> Some r | Inr _ \<Rightarrow> None) of
        Some r \<Rightarrow> (s, Api (Plain r))
      | None \<Rightarrow>
          (case api_extract ex e rq of
             Inl st \<Rightarrow> (s, Rejected st)
           | Inr req \<Rightarrow>
               (case api_handle lib now order uuid (hr_parts rq) req s of (s', r) \<Rightarrow> (s', Api r))))"

section \<open>The embedded dashboard\<close>

type_synonym web_dir = "string \<rightharpoonup> string"

definition serve_index :: "web_dir \<Rightarrow> http_reply" where
  "serve_index web =
     (case web ''index.html'' of
        Some f \<Rightarrow> Index_Page (if valid_utf8 f then f else [])
      | None \<Rightarrow> Not_Built)"

text \<open>\<open>mime\<close> is \<open>mime_guess\<close> by the path.\<close>

definition serve_static :: "(string \<Rightarrow> string) \<Rightarrow> web_dir \<Rightarrow> string \<Rightarrow> http_reply" where
  "serve_static mime web path =
     (case web path of
        Some file \<Rightarrow> Asset (mime path) file
      | None \<Rightarrow> serve_index web)"

definition static_router ::
    "(string \<Rightarrow> string) \<Rightarrow> web_dir \<Rightarrow> extractors \<Rightarrow> http_request \<Rightarrow> http_reply" where
  "static_router mime web ex rq =
     (if hr_method rq \<noteq> M_Get \<and> hr_method rq \<noteq> M_Head then Method_Not_Allowed
      else if tl (hr_path rq) = [] then serve_index web
      else (case ex_path ex (tl (hr_path rq)) of
              None \<Rightarrow> Rejected 400
            | Some path \<Rightarrow> serve_static mime web path))"

section \<open>The application\<close>

text \<open>The path starts with a slash. The nested router comes first, the dashboard is the fallback
  of both.\<close>

definition route_of :: "http_request \<Rightarrow> routed" where
  "route_of rq =
     (case split_on (CHR ''/'') (tl (hr_path rq)) of
        a # segments \<Rightarrow> if a = ''api'' then api_router segments (hr_method rq) else No_Route
      | [] \<Rightarrow> No_Route)"

definition http_serve ::
    "auth_lib \<Rightarrow> (string \<Rightarrow> string) \<Rightarrow> web_dir \<Rightarrow> extractors \<Rightarrow> timestamp \<Rightarrow> string list \<Rightarrow> string \<Rightarrow>
     http_request \<Rightarrow> server \<Rightarrow> server \<times> http_reply" where
  "http_serve lib mime web ex now order uuid rq s =
     (case route_of rq of
        No_Route \<Rightarrow> (s, static_router mime web ex rq)
      | To e \<Rightarrow> serve_endpoint lib ex now order uuid e rq s
      | Wrong_Method \<Rightarrow> (s, if hr_method rq = M_Options then Preflight else Method_Not_Allowed))"

section \<open>Properties\<close>

lemma authenticate_secret:
  "sv_jwt_secret t = sv_jwt_secret s \<Longrightarrow> authenticate lib now t parts = authenticate lib now s parts"
  unfolding authenticate_def by (rule subst, assumption) (rule refl)

text \<open>The login routes read the users and the secret, and nothing else of the server.\<close>

lemma login_replies:
  assumes "sv_jwt_secret t = sv_jwt_secret s" and "sv_users t = sv_users s"
  shows "login lib now t lr = login lib now s lr"
    and "cli_login_page lib now t q = cli_login_page lib now s q"
  unfolding login_def cli_login_page_def credentials_valid_def assms by (rule refl)+

lemma extract_open:
  "api_extract ex e rq = Inr req \<Longrightarrow>
   login_route e \<longleftrightarrow> (\<exists>lr. req = Post_Login lr) \<or> (\<exists>q. req = Get_Cli_Login q)"
  by (cases e) (auto simp: api_extract_def login_route_def captured_def map_sum_def
      split: sum.splits option.splits)

lemma serve_login_route:
  assumes "login_route e"
  obtains st where "\<And>s. serve_endpoint lib ex now order uuid e rq s = (s, Rejected st)"
  | lr where "\<And>s. serve_endpoint lib ex now order uuid e rq s = (s, Api (Plain (login lib now s lr)))"
  | q where "\<And>s. serve_endpoint lib ex now order uuid e rq s =
      (s, Api (Plain (cli_login_page lib now s q)))"
proof (cases "api_extract ex e rq")
  case (Inl st)
  then show ?thesis using assms that(1) by (simp add: serve_endpoint_def)
next
  case (Inr req)
  then consider lr where "req = Post_Login lr" | q where "req = Get_Cli_Login q"
    using assms extract_open by blast
  then show ?thesis
    using assms Inr that(2,3) by cases (simp_all add: serve_endpoint_def api_handle_def)
qed

text \<open>Whatever a request does to the server is what one of the handlers does.\<close>

lemma http_serve_state:
  "fst (http_serve lib mime web ex now order uuid rq s) = s \<or>
   (\<exists>req. fst (http_serve lib mime web ex now order uuid rq s) =
      fst (api_handle lib now order uuid (hr_parts rq) req s))"
  by (auto simp: http_serve_def serve_endpoint_def case_prod_beta
      split: routed.split option.split sum.split)

text \<open>C24: the HTTP port is confined, whatever is sent to it. A request without valid claims
  changes nothing, and its reply does not depend on tunnels, ports, nodes, API tokens,
  devices, events or history: a server that shares only the users and the secret answers the
  same. A request with claims changes at most the token list of its own user and the close
  permits of live tunnels, and only on a route of the API below \<open>/api\<close>.\<close>

theorem http_confined:
  assumes "sv_jwt_secret t = sv_jwt_secret s" and "sv_users t = sv_users s"
  shows "case authenticate lib now s (hr_parts rq) of
      Inl _ \<Rightarrow> fst (http_serve lib mime web ex now order uuid rq s) = s \<and>
        snd (http_serve lib mime web ex now order uuid rq t) =
          snd (http_serve lib mime web ex now order uuid rq s)
    | Inr auth \<Rightarrow> api_change (cl_sub auth) s (fst (http_serve lib mime web ex now order uuid rq s)) \<and>
        (fst (http_serve lib mime web ex now order uuid rq s) \<noteq> s \<longrightarrow>
          (\<exists>e. route_of rq = To e \<and> \<not> login_route e))"
proof (cases "\<exists>e. route_of rq = To e")
  case False
  then show ?thesis
    by (cases "route_of rq") (simp_all add: http_serve_def split: sum.split)
next
  case True
  then obtain e where e: "route_of rq = To e" ..
  show ?thesis
  proof (cases "login_route e")
    case True
    then show ?thesis
      by (rule serve_login_route [where lib = lib and ex = ex and now = now and order = order and
          uuid = uuid and rq = rq])
        (simp_all add: e http_serve_def login_replies [OF assms] split: sum.split)
  next
    case False
    show ?thesis
    proof (cases "authenticate lib now s (hr_parts rq)")
      case (Inl r)
      with False authenticate_secret [OF assms(1), of lib now "hr_parts rq"] show ?thesis
        by (simp add: e http_serve_def serve_endpoint_def)
    next
      case (Inr auth)
      have "api_change (cl_sub auth) s (fst (api_handle lib now order uuid (hr_parts rq) req s))" for req
        using api_confined [where lib = lib and now = now and s = s and parts = "hr_parts rq" and
            order = order and uuid = uuid and req = req]
        by (simp add: Inr)
      with False Inr show ?thesis
        by (simp add: e http_serve_def serve_endpoint_def case_prod_beta split: sum.split)
    qed
  qed
qed

definition sample_extractors :: extractors where
  "sample_extractors = \<lparr>ex_path = Some, ex_login = \<lambda>_. Inl 415, ex_cli_query = \<lambda>_. Inl 400,
     ex_token = \<lambda>_. Inl 415, ex_tunnels_page = \<lambda>_. Inr (None, None),
     ex_connections_page = \<lambda>_. Inr (None, None)\<rparr>"

definition closing :: "string \<Rightarrow> http_request" where
  "closing i = \<lparr>hr_method = M_Delete, hr_path = ''/api/tunnels/'' @ i,
     hr_parts = \<lparr>pt_authorization = None, pt_query = None\<rparr>, hr_body = []\<rparr>"

lemma closing_route: "route_of (closing ''3'') = To (E_Tunnel ''3'')"
  by (simp add: route_of_def closing_def api_router_def via_def)

theorem http_confined_witness:
  "\<forall>lib mime web now order uuid s.
     fst (http_serve lib mime web sample_extractors now order uuid (closing ''3'') s) = s \<and>
     snd (http_serve lib mime web sample_extractors now order uuid (closing ''3'')
        (s\<lparr>sv_active_tunnels := Map.empty\<rparr>)) =
     snd (http_serve lib mime web sample_extractors now order uuid (closing ''3'') s)"
proof (intro allI)
  fix lib mime web now order uuid s
  have "authenticate lib now s (hr_parts (closing ''3'')) =
      Inl (unauthorized ''missing bearer token or token query param'')"
    by (simp add: auth_defs closing_def)
  with http_confined [where t = "s\<lparr>sv_active_tunnels := Map.empty\<rparr>" and s = s and lib = lib and
      now = now and rq = "closing ''3''" and mime = mime and web = web and ex = sample_extractors and
      order = order and uuid = uuid]
  show "fst (http_serve lib mime web sample_extractors now order uuid (closing ''3'') s) = s \<and>
     snd (http_serve lib mime web sample_extractors now order uuid (closing ''3'')
        (s\<lparr>sv_active_tunnels := Map.empty\<rparr>)) =
     snd (http_serve lib mime web sample_extractors now order uuid (closing ''3'') s)"
    by simp
qed

end
