(* ===== verification/Addresses.thy ===== *)
theory Addresses
  imports Rust_Text
begin

text \<open>
  Addresses and arguments: \<open>ServerConfig::data_port\<close> (\<open>crates/server/src/config.rs\<close>),
  \<open>control_host\<close> (\<open>crates/server/src/main.rs\<close>), \<open>data_addr_of\<close> and \<open>host_of\<close>
  (\<open>crates/cli/src/tunnel.rs\<close>, \<open>host_of\<close> also in the node agent), and
  \<open>parse_config_path\<close> of the two daemons.

  Server and CLI compute the data endpoint separately, the one from its bind address, the
  other from the address it dials; they meet only if the two computations agree.
\<close>

section \<open>Server\<close>

definition data_port :: "string \<Rightarrow> u16" where
  "data_port bind_control =
     (case rsplit_once (CHR '':'') bind_control of
        None \<Rightarrow> 0
      | Some (_, port) \<Rightarrow>
          (case parse_u16 port of None \<Rightarrow> 0 | Some p \<Rightarrow> saturating_add_u16 p 1))"

definition control_host :: "string \<Rightarrow> string" where
  "control_host bind =
     (case rsplit_once (CHR '':'') bind of Some (host, _) \<Rightarrow> host | None \<Rightarrow> bind)"

text \<open>The address of the data listener, as \<open>main\<close> formats it.\<close>

definition data_listener_addr :: "string \<Rightarrow> string" where
  "data_listener_addr bind = control_host bind @ '':'' @ show_u16 (data_port bind)"

section \<open>CLI and node\<close>

definition host_of :: "string \<Rightarrow> string" where
  "host_of addr =
     (case rsplit_once (CHR '':'') addr of Some (host, _) \<Rightarrow> host | None \<Rightarrow> addr)"

datatype addr_error = Not_Host_Port | Invalid_Port

definition data_addr_of :: "string \<Rightarrow> addr_error + string" where
  "data_addr_of addr =
     (case rsplit_once (CHR '':'') addr of
        None \<Rightarrow> Inl Not_Host_Port
      | Some (host, port) \<Rightarrow>
          (case parse_u16 port of
             None \<Rightarrow> Inl Invalid_Port
           | Some p \<Rightarrow> Inr (host @ '':'' @ show_u16 (saturating_add_u16 p 1))))"

text \<open>Where the CLI takes a visitor's data connection: to the node, or to the server.\<close>

definition data_endpoint :: "string \<Rightarrow> (string \<times> u16) option \<Rightarrow> addr_error + string" where
  "data_endpoint server_addr node =
     (case node of
        Some (host, port) \<Rightarrow> Inr (host @ '':'' @ show_u16 port)
      | None \<Rightarrow> data_addr_of server_addr)"

section \<open>Arguments of the daemons\<close>

definition config_flag :: string where
  "config_flag = ''--config''"

text \<open>The loop over the arguments after the program name; \<open>None\<close> is the default path.\<close>

fun config_path_arg :: "string list \<Rightarrow> string option" where
  "config_path_arg [] = None"
| "config_path_arg (a # rest) =
     (if a = config_flag then
        (case rest of [] \<Rightarrow> None | path # _ \<Rightarrow> Some path)
      else config_path_arg rest)"

definition parse_config_path :: "string \<Rightarrow> string list \<Rightarrow> string" where
  "parse_config_path dflt args =
     (case config_path_arg (tl args) of Some path \<Rightarrow> path | None \<Rightarrow> dflt)"

lemma config_path_arg_skip:
  "config_flag \<notin> set xs \<Longrightarrow> config_path_arg (xs @ ys) = config_path_arg ys"
  by (induction xs) auto

section \<open>Properties\<close>

lemma data_addr_of_Inr:
  "rsplit_once (CHR '':'') addr = Some (h, p) \<Longrightarrow> parse_u16 p = Some n \<Longrightarrow>
   data_addr_of addr = Inr (h @ '':'' @ show_u16 (saturating_add_u16 n 1)) \<and>
   data_port addr = saturating_add_u16 n 1 \<and> host_of addr = h \<and> control_host addr = h"
  by (simp add: data_addr_of_def data_port_def host_of_def control_host_def)

text \<open>Server and CLI agree on the data endpoint: for one and the same address the CLI
  dials exactly what the server listens on, and it reports an error exactly when the
  address has no port in range, in which case the server's port is 0.\<close>

lemma data_endpoint_agrees:
  "case data_addr_of addr of
     Inr a \<Rightarrow> a = data_listener_addr addr \<and> host_of addr = control_host addr \<and>
       data_port addr \<noteq> 0
   | Inl _ \<Rightarrow> data_port addr = 0"
proof (cases "rsplit_once (CHR '':'') addr")
  case None
  then show ?thesis by (simp add: data_addr_of_def data_port_def del: rsplit_once_None)
next
  case (Some hp)
  obtain h p where hp: "hp = (h, p)" by (cases hp)
  have "saturating_add_u16 n 1 \<noteq> 0" for n
    using unat_saturating_add_u16 [of n 1] by (auto simp: word_unat_eq_iff)
  with Some hp show ?thesis
    by (cases "parse_u16 p") (auto simp: data_addr_of_def data_port_def data_listener_addr_def
      host_of_def control_host_def)
qed

text \<open>The data port is the port after the control port, with no wrap-around; at the top
  of the range it saturates, and then it is the control port itself, so that the server
  cannot bind both.\<close>

lemma data_port_next:
  "unat (data_port (host @ '':'' @ show_u16 p)) = (if unat p < 65535 then unat p + 1 else unat p)"
  using unat_u16_le [of p] unat_saturating_add_u16 [of p 1]
  by (simp add: data_port_def)

text \<open>The configuration path is the argument after the first flag, wherever it stands;
  a flag with nothing after it, and no flag, give the default.\<close>

lemma config_path_first_flag:
  assumes "config_flag \<notin> set before"
  shows "parse_config_path d (prog # before) = d \<and>
    parse_config_path d (prog # before @ [config_flag]) = d \<and>
    parse_config_path d (prog # before @ config_flag # path # rest) = path"
  using config_path_arg_skip [OF assms, of "[]"] config_path_arg_skip [OF assms, of "[config_flag]"]
    config_path_arg_skip [OF assms, of "config_flag # path # rest"]
  by (simp add: parse_config_path_def)

end
