(* ===== verification/Node_Agent.thy ===== *)
theory Node_Agent
  imports Data_Port Addresses
begin

text \<open>
  The edge agent, \<open>crates/node/src/main.rs\<close>: the session with the server (\<open>run_session\<close>,
  \<open>serve_orders\<close>, \<open>open_tunnel\<close>), the task that accepts visitors on the public port of each
  tunnel (\<open>tunnel_accept_loop\<close>), and the data port, whose table of pending visitors is a
  \<open>Rendezvous\<close> that all sessions share.

  A \<open>JoinHandle\<close> is the number of its task. A task exists, and its listener is bound, until it
  is dropped; \<open>abort\<close> only marks it, and the runtime drops it at some later point, until when
  it may still make steps. Outcomes of socket operations are inputs of a step.
\<close>

section \<open>State\<close>

record node_config =
  nf_server_addr :: string
  nf_token :: string
  nf_name :: string
  nf_data_port :: u16
  nf_data_bind :: string

type_synonym task = nat

datatype accept_phase =
    A_Accept                \<comment> \<open>awaiting a visitor\<close>
  | A_Report socket string  \<comment> \<open>visitor and id are in the table; the notice is being written\<close>

record accept_task =
  at_tunnel_id :: string
  at_port :: u16
  at_phase :: accept_phase
  at_aborted :: bool

datatype session_error =
    Connect_Failed
  | Write_Failed
  | Read_Failed
  | Malformed_Verdict
  | Rejected string
  | Unexpected_Verdict message
  | Server_Disconnected

datatype session_pc =
    S_Connect
  | S_Register
  | S_Verdict
  | S_Orders
  | S_Teardown session_error
  | S_Sleep session_error

record agent =
  ag_pc :: session_pc
  ag_pending :: rendezvous
  ag_tunnels :: "string \<rightharpoonup> task"
  ag_tasks :: "task \<rightharpoonup> accept_task"
  ag_next :: task
  ag_sent :: "message list"

definition agent_new :: agent where
  "agent_new = \<lparr>ag_pc = S_Connect, ag_pending = rv_new, ag_tunnels = Map.empty,
     ag_tasks = Map.empty, ag_next = 0, ag_sent = []\<rparr>"

section \<open>Orders of the server\<close>

definition abort_task :: "task \<Rightarrow> agent \<Rightarrow> agent" where
  "abort_task h ag =
     ag\<lparr>ag_tasks := (ag_tasks ag)(h := map_option (at_aborted_update (\<lambda>_. True)) (ag_tasks ag h))\<rparr>"

text \<open>\<open>ok\<close> is the outcome of the bind. The handle replaces an older one under the same id, which
  is dropped without an abort.\<close>

definition node_open_tunnel :: "string \<Rightarrow> u16 \<Rightarrow> bool \<Rightarrow> agent \<Rightarrow> agent" where
  "node_open_tunnel tunnel_id remote_port ok ag =
     (if ok
      then ag\<lparr>ag_tasks := (ag_tasks ag)(ag_next ag \<mapsto> \<lparr>at_tunnel_id = tunnel_id,
               at_port = remote_port, at_phase = A_Accept, at_aborted = False\<rparr>),
              ag_tunnels := (ag_tunnels ag)(tunnel_id \<mapsto> ag_next ag),
              ag_next := ag_next ag + 1\<rparr>
      else ag)"

definition node_close_tunnel :: "string \<Rightarrow> agent \<Rightarrow> agent" where
  "node_close_tunnel tunnel_id ag =
     (case ag_tunnels ag tunnel_id of
        Some h \<Rightarrow> abort_task h (ag\<lparr>ag_tunnels := (ag_tunnels ag)(tunnel_id := None)\<rparr>)
      | None \<Rightarrow> ag)"

definition apply_order :: "message option \<Rightarrow> bool \<Rightarrow> agent \<Rightarrow> agent" where
  "apply_order m ok ag =
     (case m of
        Some (Open_Tunnel ot) \<Rightarrow> node_open_tunnel (ot_tunnel_id ot) (ot_remote_port ot) ok ag
      | Some (Close_Tunnel ct) \<Rightarrow> node_close_tunnel (ct_tunnel_id ct) ag
      | _ \<Rightarrow> ag)"

text \<open>One turn of \<open>serve_orders\<close>.\<close>

definition serve_order :: "codec \<Rightarrow> (nat \<times> string) io_result \<Rightarrow> bool \<Rightarrow> agent \<Rightarrow> agent" where
  "serve_order cd line ok ag =
     (case line of
        Io_Err \<Rightarrow> ag\<lparr>ag_pc := S_Teardown Read_Failed\<rparr>
      | Io_Ok (n, text) \<Rightarrow>
          if n = 0 then ag\<lparr>ag_pc := S_Teardown Server_Disconnected\<rparr>
          else apply_order (from_line cd text) ok ag)"

section \<open>Sessions\<close>

text \<open>The verdict on the registration. A closed connection reads as an empty line, which does
  not decode.\<close>

definition verdict :: "codec \<Rightarrow> (nat \<times> string) io_result \<Rightarrow> session_error + string" where
  "verdict cd line =
     (case line of
        Io_Err \<Rightarrow> Inl Read_Failed
      | Io_Ok (n, text) \<Rightarrow>
          (case from_line cd text of
             None \<Rightarrow> Inl Malformed_Verdict
           | Some (Node_Registered nr) \<Rightarrow> Inr (nr_node_id nr)
           | Some (Error err) \<Rightarrow> Inl (Rejected (em_reason err))
           | Some other \<Rightarrow> Inl (Unexpected_Verdict other)))"

text \<open>All listeners of the session are aborted (\<open>drain\<close>).\<close>

definition teardown :: "agent \<Rightarrow> agent" where
  "teardown ag =
     ag\<lparr>ag_tasks := (\<lambda>h. if h \<in> ran (ag_tunnels ag)
          then map_option (at_aborted_update (\<lambda>_. True)) (ag_tasks ag h) else ag_tasks ag h),
        ag_tunnels := Map.empty\<rparr>"

definition register_frame :: "node_config \<Rightarrow> message" where
  "register_frame cfg =
     Register_Node \<lparr>rn_token = nf_token cfg, rn_name = nf_name cfg, rn_data_port = nf_data_port cfg\<rparr>"

text \<open>\<open>main\<close> runs sessions forever; a failed one is followed by a pause.\<close>

definition session_step ::
    "codec \<Rightarrow> node_config \<Rightarrow> bool \<Rightarrow> (nat \<times> string) io_result \<Rightarrow> agent \<Rightarrow> agent" where
  "session_step cd cfg ok line ag =
     (case ag_pc ag of
        S_Connect \<Rightarrow> ag\<lparr>ag_pc := if ok then S_Register else S_Sleep Connect_Failed\<rparr>
      | S_Register \<Rightarrow>
          if ok then ag\<lparr>ag_pc := S_Verdict, ag_sent := ag_sent ag @ [register_frame cfg]\<rparr>
          else ag\<lparr>ag_pc := S_Sleep Write_Failed\<rparr>
      | S_Verdict \<Rightarrow>
          (case verdict cd line of
             Inr _ \<Rightarrow> ag\<lparr>ag_pc := S_Orders, ag_tunnels := Map.empty\<rparr>
           | Inl e \<Rightarrow> ag\<lparr>ag_pc := S_Sleep e\<rparr>)
      | S_Orders \<Rightarrow> serve_order cd line ok ag
      | S_Teardown e \<Rightarrow> (teardown ag)\<lparr>ag_pc := S_Sleep e\<rparr>
      | S_Sleep _ \<Rightarrow> ag\<lparr>ag_pc := S_Connect\<rparr>)"

section \<open>The task of a tunnel\<close>

definition set_accept_phase :: "task \<Rightarrow> accept_phase \<Rightarrow> agent \<Rightarrow> agent" where
  "set_accept_phase h ph ag =
     ag\<lparr>ag_tasks := (ag_tasks ag)(h := map_option (at_phase_update (\<lambda>_. ph)) (ag_tasks ag h))\<rparr>"

definition node_accept :: "task \<Rightarrow> socket \<Rightarrow> string \<Rightarrow> agent \<Rightarrow> agent" where
  "node_accept h v conn_id ag =
     set_accept_phase h (A_Report v conn_id)
       (ag\<lparr>ag_pending := rv_accept v conn_id (ag_pending ag)\<rparr>)"

text \<open>The notice was written and the waiting task is spawned, or it failed and the loop goes on.\<close>

definition node_report :: "task \<Rightarrow> bool \<Rightarrow> agent \<Rightarrow> agent" where
  "node_report h ok ag =
     (case ag_tasks ag h of
        Some t \<Rightarrow>
          (case at_phase t of
             A_Report v conn_id \<Rightarrow>
               set_accept_phase h A_Accept
                 (if ok
                  then ag\<lparr>ag_pending := rv_notified v (ag_pending ag),
                    ag_sent := ag_sent ag @ [Visitor_Conn
                      \<lparr>vc_tunnel_id = at_tunnel_id t, vc_conn_id = conn_id\<rparr>]\<rparr>
                  else ag\<lparr>ag_pending := rv_notify_failed v (ag_pending ag)\<rparr>)
           | A_Accept \<Rightarrow> ag)
      | None \<Rightarrow> ag)"

text \<open>The runtime drops an aborted task: its listener is closed, and a visitor whose notice was
  under way is abandoned.\<close>

definition drop_task :: "task \<Rightarrow> agent \<Rightarrow> agent" where
  "drop_task h ag =
     (let ag' = ag\<lparr>ag_tasks := (ag_tasks ag)(h := None)\<rparr>
      in case ag_tasks ag h of
           Some t \<Rightarrow>
             (case at_phase t of
                A_Report v _ \<Rightarrow> ag'\<lparr>ag_pending := rv_abandon v (ag_pending ag)\<rparr>
              | A_Accept \<Rightarrow> ag')
         | None \<Rightarrow> ag')"

section \<open>Steps\<close>

text \<open>A port can be bound only when no other listener is.\<close>

definition bind_free :: "u16 \<Rightarrow> agent \<Rightarrow> bool" where
  "bind_free p ag \<longleftrightarrow> (\<forall>t \<in> ran (ag_tasks ag). at_port t \<noteq> p)"

definition order_port :: "codec \<Rightarrow> (nat \<times> string) io_result \<Rightarrow> u16 option" where
  "order_port cd line =
     (case line of
        Io_Ok (n, text) \<Rightarrow>
          (case from_line cd text of Some (Open_Tunnel ot) \<Rightarrow> Some (ot_remote_port ot) | _ \<Rightarrow> None)
      | Io_Err \<Rightarrow> None)"

inductive agent_step :: "codec \<Rightarrow> node_config \<Rightarrow> agent \<Rightarrow> agent \<Rightarrow> bool" for cd cfg where
  session: "(\<And>p. ag_pc ag = S_Orders \<Longrightarrow> ok \<Longrightarrow> order_port cd line = Some p \<Longrightarrow> bind_free p ag) \<Longrightarrow>
    agent_step cd cfg ag (session_step cd cfg ok line ag)"
| accept: "ag_tasks ag h = Some t \<Longrightarrow> at_phase t = A_Accept \<Longrightarrow>
    rv_visitors (ag_pending ag) v = None \<Longrightarrow> \<not> id_used (ag_pending ag) conn_id \<Longrightarrow>
    agent_step cd cfg ag (node_accept h v conn_id ag)"
| report: "ag_tasks ag h = Some t \<Longrightarrow> agent_step cd cfg ag (node_report h ok ag)"
| drop: "ag_tasks ag h = Some t \<Longrightarrow> at_aborted t \<Longrightarrow> agent_step cd cfg ag (drop_task h ag)"
| data: "op_enabled op (ag_pending ag) \<Longrightarrow>
    agent_step cd cfg ag (ag\<lparr>ag_pending := op_apply cd op (ag_pending ag)\<rparr>)"
| finish: "visitor_in (ag_pending ag) v (\<lambda>vs. \<exists>d. vs_phase vs = V_Proxying d) \<Longrightarrow>
    agent_step cd cfg ag (ag\<lparr>ag_pending := rv_finish v (ag_pending ag)\<rparr>)"

inductive agent_reachable :: "codec \<Rightarrow> node_config \<Rightarrow> agent \<Rightarrow> bool" for cd cfg where
  start: "agent_reachable cd cfg agent_new"
| step: "agent_reachable cd cfg ag \<Longrightarrow> agent_step cd cfg ag ag' \<Longrightarrow> agent_reachable cd cfg ag'"

end
