(* ===== verification/Cli_Files.thy ===== *)
theory Cli_Files
  imports Framing
begin

text \<open>
  What the commands of the CLI share: the files under the home directory, written and read as
  pretty-printed JSON (\<open>std::fs\<close>, \<open>PathBuf::join\<close> on Unix, \<open>home_dir\<close> of
  \<open>crates/cli/src/config.rs\<close>), and the prompt of \<open>crates/cli/src/main.rs\<close>.

  \<open>serde_json\<close> with a derived \<open>Deserialize\<close> is a parameter (\<open>text_codec\<close>), what the program
  relies on is the locale \<open>text_format\<close>. What the commands print is not modelled.
\<close>

section \<open>Files\<close>

text \<open>A file is its bytes, or there is something at the path that cannot be read.\<close>

datatype disk_file = File string | Unreadable

type_synonym files = "string \<rightharpoonup> disk_file"

text \<open>How a \<open>std::fs::write\<close> ends: it truncates the file first, so that a failure after that
  leaves a part of the contents.\<close>

datatype write_end = Written | Not_Opened | Cut nat

definition write_file :: "string \<Rightarrow> string \<Rightarrow> write_end \<Rightarrow> files \<Rightarrow> bool \<times> files" where
  "write_file path contents w fs =
     (case w of
        Written \<Rightarrow> (True, fs(path \<mapsto> File contents))
      | Not_Opened \<Rightarrow> (False, fs)
      | Cut n \<Rightarrow> (False, fs(path \<mapsto> File (take n contents))))"

definition path_exists :: "string \<Rightarrow> files \<Rightarrow> bool" where
  "path_exists path fs \<longleftrightarrow> fs path \<noteq> None"

text \<open>\<open>read_to_string\<close> wants UTF-8.\<close>

definition read_to_string :: "string \<Rightarrow> files \<Rightarrow> string option" where
  "read_to_string path fs =
     (case fs path of
        Some (File s) \<Rightarrow> if valid_utf8 s then Some s else None
      | _ \<Rightarrow> None)"

section \<open>Paths\<close>

definition path_join :: "string \<Rightarrow> string \<Rightarrow> string" where
  "path_join base name =
     (if name \<noteq> [] \<and> hd name = CHR ''/'' \<or> base = [] then name
      else if last base = CHR ''/'' then base @ name
      else base @ ''/'' @ name)"

record cli_env =
  ev_home :: "string option"
  ev_userprofile :: "string option"

definition home_dir :: "cli_env \<Rightarrow> string option" where
  "home_dir env =
     (case (case ev_home env of Some h \<Rightarrow> Some h | None \<Rightarrow> ev_userprofile env) of
        Some p \<Rightarrow> if p = [] then None else Some p
      | None \<Rightarrow> None)"

section \<open>JSON files\<close>

record 'a text_codec =
  tx_pretty :: "json \<Rightarrow> string option"
  tx_parse :: "string \<Rightarrow> 'a option"

datatype file_error = Cannot_Serialize | Cannot_Write | Cannot_Read | Cannot_Parse

definition save_json ::
    "'a text_codec \<Rightarrow> ('a \<Rightarrow> json) \<Rightarrow> string \<Rightarrow> 'a \<Rightarrow> write_end \<Rightarrow> files \<Rightarrow>
      file_error option \<times> files" where
  "save_json tc shape path a w fs =
     (case tx_pretty tc (shape a) of
        None \<Rightarrow> (Some Cannot_Serialize, fs)
      | Some s \<Rightarrow> (case write_file path s w fs of (ok, fs') \<Rightarrow> (if ok then None else Some Cannot_Write, fs')))"

definition load_json :: "'a text_codec \<Rightarrow> string \<Rightarrow> files \<Rightarrow> file_error + 'a" where
  "load_json tc path fs =
     (case read_to_string path fs of
        None \<Rightarrow> Inl Cannot_Read
      | Some s \<Rightarrow> (case tx_parse tc s of None \<Rightarrow> Inl Cannot_Parse | Some a \<Rightarrow> Inr a))"

text \<open>What is relied on: a value whose strings are strings of Rust is printed as UTF-8 text that
  decodes to it, and a JSON object that is cut short does not decode.\<close>

locale text_format =
  fixes tc :: "'a text_codec" and shape :: "'a \<Rightarrow> json" and good :: "'a \<Rightarrow> bool"
  assumes printed: "good a \<Longrightarrow> \<exists>s. tx_pretty tc (shape a) = Some s \<and> valid_utf8 s \<and> tx_parse tc s = Some a"
    and cut_short: "good a \<Longrightarrow> tx_pretty tc (shape a) = Some s \<Longrightarrow> n < length s \<Longrightarrow>
      tx_parse tc (take n s) = None"
begin

lemma text_of:
  assumes "good a"
  obtains s where "tx_pretty tc (shape a) = Some s" "valid_utf8 s" "tx_parse tc s = Some a"
  using printed [OF assms] by blast

text \<open>A save succeeds exactly when the file is written, touches no other file, and is read back.\<close>

lemma save_cases:
  assumes "good a"
  shows "fst (save_json tc shape path a w fs) = (if w = Written then None else Some Cannot_Write)"
    and "path' \<noteq> path \<Longrightarrow> snd (save_json tc shape path a w fs) path' = fs path'"
    and "w = Written \<Longrightarrow> load_json tc path (snd (save_json tc shape path a w fs)) = Inr a"
    and "w = Written \<Longrightarrow> path_exists path (snd (save_json tc shape path a w fs))"
proof -
  obtain s where "tx_pretty tc (shape a) = Some s" "valid_utf8 s" "tx_parse tc s = Some a"
    using text_of [OF assms] .
  then show "fst (save_json tc shape path a w fs) = (if w = Written then None else Some Cannot_Write)"
    and "path' \<noteq> path \<Longrightarrow> snd (save_json tc shape path a w fs) path' = fs path'"
    and "w = Written \<Longrightarrow> load_json tc path (snd (save_json tc shape path a w fs)) = Inr a"
    and "w = Written \<Longrightarrow> path_exists path (snd (save_json tc shape path a w fs))"
    by (auto simp: save_json_def load_json_def write_file_def read_to_string_def path_exists_def
        split: write_end.split)
qed

text \<open>However a save ends, the file holds the value, nothing that decodes, or what it held.\<close>

lemma load_saved:
  assumes "good a"
  obtains (saved) "load_json tc path (snd (save_json tc shape path a w fs)) = Inr a"
  | (garbled) e where "load_json tc path (snd (save_json tc shape path a w fs)) = Inl e"
  | (kept) "snd (save_json tc shape path a w fs) = fs"
proof -
  obtain s where s: "tx_pretty tc (shape a) = Some s" "valid_utf8 s" "tx_parse tc s = Some a"
    using text_of [OF assms] .
  show thesis
  proof (cases w)
    case (Cut n)
    show thesis
    proof (cases "n < length s")
      case True
      from cut_short [OF assms s(1) True] s(1) Cut garbled show thesis
        by (cases "valid_utf8 (take n s)")
          (simp_all add: save_json_def load_json_def write_file_def read_to_string_def)
    next
      case False
      with s Cut saved show thesis
        by (simp add: save_json_def load_json_def write_file_def read_to_string_def)
    qed
  qed (use s saved kept in
      \<open>simp_all add: save_json_def load_json_def write_file_def read_to_string_def\<close>)
qed

end

lemma load_same: "fs path = fs' path \<Longrightarrow> load_json tc path fs = load_json tc path fs'"
  by (simp add: load_json_def read_to_string_def)

section \<open>Prompts\<close>

text \<open>\<open>prompt\<close>: one trimmed line of the standard input.\<close>

definition prompt :: "stream \<Rightarrow> string option \<times> stream" where
  "prompt stdin =
     (case read_line stdin of
        (Io_Ok (_, line), rest) \<Rightarrow> (Some (trim line), rest)
      | (Io_Err, rest) \<Rightarrow> (None, rest))"

section \<open>The reference codec\<close>

text \<open>The printer and parser of \<open>Json_Reference\<close> with a decoder of the members, for texts the
  printer makes.\<close>

definition members_codec ::
    "('a \<Rightarrow> json) \<Rightarrow> ((string \<times> json) list \<Rightarrow> 'a option) \<Rightarrow> 'a text_codec" where
  "members_codec shape dec =
     \<lparr>tx_pretty = print_object,
      tx_parse = (\<lambda>s. case Option.bind (parse_object s) dec of
         Some a \<Rightarrow> if print_object (shape a) = Some s then Some a else None
       | None \<Rightarrow> None)\<rparr>"

definition plain_members :: "(string \<times> json) list \<Rightarrow> bool" where
  "plain_members fs \<longleftrightarrow> fs \<noteq> [] \<and> (\<forall>(k, v) \<in> set fs. scalar v) \<and>
     (\<forall>(k, v) \<in> set fs. valid_utf8 k \<and> (\<forall>t \<in> set (json_strings v). valid_utf8 t))"

lemma print_object_shape:
  assumes "print_object j = Some s"
  obtains fs ms where "j = JObj fs" "print_members fs = Some ms" "s = ''{'' @ ms @ ''}''"
  using assms by (cases j) auto

text \<open>No printed object is the beginning of another.\<close>

lemma printed_prefix_free:
  assumes "print_object j = Some s" and "print_object j' = Some (take n s)" and "n < length s"
    and "j = JObj (f # fs)"
  shows False
proof -
  obtain ms where ms: "print_members (f # fs) = Some ms" "s = ''{'' @ ms @ ''}''"
    using print_object_shape [OF assms(1)] assms(4) by (metis json.inject(5))
  obtain gs ns where ns: "print_members gs = Some ns" "take n s = ''{'' @ ns @ ''}''"
    using print_object_shape [OF assms(2)] by metis
  define t where "t = drop n s"
  have "s = ''{'' @ ns @ ''}'' @ t" using ns(2) append_take_drop_id [of n s] by (simp add: t_def)
  with ms(2) have eq: "ms @ ''}'' = ns @ ''}'' @ t" by simp
  have "t \<noteq> []" using assms(3) by (simp add: t_def)
  have "gs \<noteq> []"
  proof
    assume "gs = []"
    with ns(1) eq print_members_head [OF ms(1)] show False by (auto simp: quote_char_def)
  qed
  let ?k = "Suc (length (f # fs) + length gs)"
  have "parse_members ?k (ms @ ''}'' @ []) = Some (f # fs, [])"
    by (rule parse_members_printed [OF ms(1)]) simp_all
  moreover have "parse_members ?k (ns @ ''}'' @ t) = Some (gs, t)"
    using \<open>gs \<noteq> []\<close> by (intro parse_members_printed [OF ns(1)]) simp_all
  ultimately show False using eq \<open>t \<noteq> []\<close> by simp
qed

lemma members_codec_format:
  assumes "\<And>a. good a \<Longrightarrow> \<exists>fs. shape a = JObj fs \<and> plain_members fs \<and> dec fs = Some a"
  shows "text_format (members_codec shape dec) shape good"
proof
  fix a
  assume "good a"
  with assms obtain fs where fs: "shape a = JObj fs" "plain_members fs" "dec fs = Some a" by blast
  then obtain body where body: "print_members fs = Some body"
    using print_members_scalar [of fs] unfolding plain_members_def by blast
  from fs(2) have "valid_utf8 body"
    unfolding plain_members_def by (elim conjE) (rule print_members_valid [OF body])
  then have "valid_utf8 (''{'' @ body @ ''}'')"
    by (simp add: valid_utf8_Cons_ascii valid_utf8_append)
  moreover have "print_object (JObj fs) = Some (''{'' @ body @ ''}'')" using body by simp
  moreover from this have "parse_object (''{'' @ body @ ''}'') = Some fs"
    by (rule parse_object_printed)
  ultimately show "\<exists>s. tx_pretty (members_codec shape dec) (shape a) = Some s \<and> valid_utf8 s \<and>
      tx_parse (members_codec shape dec) s = Some a"
    using fs by (simp add: members_codec_def)
next
  fix a s n
  assume a: "good a" "tx_pretty (members_codec shape dec) (shape a) = Some s" "n < length s"
  with assms obtain f fs where "shape a = JObj (f # fs)"
    by (metis plain_members_def list.exhaust)
  with a printed_prefix_free [of "shape a" s _ n f fs]
  show "tx_parse (members_codec shape dec) (take n s) = None"
    by (auto simp: members_codec_def split: option.split)
qed

end
