(* ===== verification/Startup.thy ===== *)
theory Startup
  imports Control_Facts Http_Routes Node_Agent Cli_Files
begin

text \<open>
  How the two daemons come up: \<open>main\<close> of \<open>crates/server/src/main.rs\<close> with the configuration
  file of \<open>config.rs\<close>, the TLS material and the three listeners, and \<open>main\<close> of
  \<open>crates/node/src/main.rs\<close>; then the connections that the server accepts and the session that
  a node opens.

  Parameters: the decoder of the configuration (\<open>text_codec\<close>), the PEM readers and rustls'
  check of a certificate against its key (\<open>tls_lib\<close>), the host name check of rustls, and the
  operating system's answer to a bind, given the addresses that the process holds.
\<close>

section \<open>The configuration of the server\<close>

record server_file = server_config +
  cf_tls_cert :: string
  cf_tls_key :: string

datatype start_error =
    Config_Failed file_error
  | Cert_Not_Opened
  | Cert_Not_Parsed
  | No_Certificates
  | Key_Not_Opened
  | Key_Not_Parsed
  | No_Private_Key
  | Invalid_Cert_Or_Key
  | Http_Bind_Failed
  | Control_Bind_Failed
  | Data_Bind_Failed

definition server_config_load ::
    "'a server_file_scheme text_codec \<Rightarrow> string \<Rightarrow> files \<Rightarrow> file_error + 'a server_file_scheme" where
  "server_config_load tc path fs = load_json tc path fs"

definition DEFAULT_SERVER_CONFIG :: string where
  "DEFAULT_SERVER_CONFIG = ''/etc/borehole/config.json''"

section \<open>TLS material\<close>

record ('cert, 'key, 'acceptor) tls_lib =
  tl_certs :: "string \<Rightarrow> 'cert list option"
  tl_private_key :: "string \<Rightarrow> 'key option option"
  tl_server_config :: "'cert list \<Rightarrow> 'key \<Rightarrow> 'acceptor option"

text \<open>A file that cannot be read counts as one that cannot be opened.\<close>

definition open_file :: "string \<Rightarrow> files \<Rightarrow> string option" where
  "open_file path fs = (case fs path of Some (File s) \<Rightarrow> Some s | _ \<Rightarrow> None)"

definition load_certs ::
    "('cert, 'key, 'acceptor) tls_lib \<Rightarrow> string \<Rightarrow> files \<Rightarrow> start_error + 'cert list" where
  "load_certs tls path fs =
     (case open_file path fs of
        None \<Rightarrow> Inl Cert_Not_Opened
      | Some pem \<Rightarrow>
          (case tl_certs tls pem of
             None \<Rightarrow> Inl Cert_Not_Parsed
           | Some certs \<Rightarrow> if certs = [] then Inl No_Certificates else Inr certs))"

definition load_key ::
    "('cert, 'key, 'acceptor) tls_lib \<Rightarrow> string \<Rightarrow> files \<Rightarrow> start_error + 'key" where
  "load_key tls path fs =
     (case open_file path fs of
        None \<Rightarrow> Inl Key_Not_Opened
      | Some pem \<Rightarrow>
          (case tl_private_key tls pem of
             None \<Rightarrow> Inl Key_Not_Parsed
           | Some None \<Rightarrow> Inl No_Private_Key
           | Some (Some key) \<Rightarrow> Inr key))"

definition build_tls_acceptor ::
    "('cert, 'key, 'acceptor) tls_lib \<Rightarrow> 'a server_file_scheme \<Rightarrow> files \<Rightarrow> start_error + 'acceptor" where
  "build_tls_acceptor tls cfg fs =
     (case load_certs tls (cf_tls_cert cfg) fs of
        Inl e \<Rightarrow> Inl e
      | Inr certs \<Rightarrow>
          (case load_key tls (cf_tls_key cfg) fs of
             Inl e \<Rightarrow> Inl e
           | Inr key \<Rightarrow>
               (case tl_server_config tls certs key of
                  None \<Rightarrow> Inl Invalid_Cert_Or_Key
                | Some acceptor \<Rightarrow> Inr acceptor)))"

section \<open>The start of the server\<close>

text \<open>\<open>bind held addr\<close>: can the address be bound while the process holds \<open>held\<close>?\<close>

type_synonym os_bind = "string list \<Rightarrow> string \<Rightarrow> bool"

record 'acceptor running =
  up_acceptor :: 'acceptor
  up_http :: string
  up_control :: string
  up_data :: string
  up_system :: system

definition server_main ::
    "server_file text_codec \<Rightarrow> ('cert, 'key, 'acceptor) tls_lib \<Rightarrow> os_bind \<Rightarrow> string list \<Rightarrow> files \<Rightarrow>
     start_error + 'acceptor running" where
  "server_main tc tls bind args fs =
     (case server_config_load tc (parse_config_path DEFAULT_SERVER_CONFIG args) fs of
        Inl e \<Rightarrow> Inl (Config_Failed e)
      | Inr cfg \<Rightarrow>
          (case build_tls_acceptor tls cfg fs of
             Inl e \<Rightarrow> Inl e
           | Inr acceptor \<Rightarrow>
               (let http = cf_bind_http cfg;
                    control = cf_bind_control cfg;
                    data_addr = control_host control @ '':'' @ show_u16 (data_port control)
                in if \<not> bind [] http then Inl Http_Bind_Failed
                   else if \<not> bind [http] control then Inl Control_Bind_Failed
                   else if \<not> bind [http, control] data_addr then Inl Data_Bind_Failed
                   else Inr \<lparr>up_acceptor = acceptor, up_http = http, up_control = control,
                          up_data = data_addr, up_system = system_new (server_config.truncate cfg)\<rparr>)))"

text \<open>A turn of the accept loop and the task it spawns: without a connection, or without a TLS
  handshake, nothing is handled.\<close>

definition server_accept ::
    "codec \<Rightarrow> conn \<Rightarrow> bool \<Rightarrow> bool \<Rightarrow> stream \<Rightarrow> string \<Rightarrow> bool \<Rightarrow> system \<Rightarrow> system" where
  "server_accept cd c accepted handshake stream host ok sys =
     (if \<not> accepted then sys
      else if \<not> handshake then sys
      else handle_client cd c stream host ok sys)"

section \<open>The start of a node\<close>

datatype node_error = Node_Config_Failed file_error | Node_Data_Bind_Failed

definition DEFAULT_NODE_CONFIG :: string where
  "DEFAULT_NODE_CONFIG = ''/etc/borehole/node.json''"

definition node_config_load :: "node_config text_codec \<Rightarrow> string \<Rightarrow> files \<Rightarrow> file_error + node_config" where
  "node_config_load tc path fs = load_json tc path fs"

text \<open>The connector cannot fail to be built.\<close>

definition node_main ::
    "node_config text_codec \<Rightarrow> os_bind \<Rightarrow> string list \<Rightarrow> files \<Rightarrow> node_error + node_config \<times> agent" where
  "node_main tc bind args fs =
     (case node_config_load tc (parse_config_path DEFAULT_NODE_CONFIG args) fs of
        Inl e \<Rightarrow> Inl (Node_Config_Failed e)
      | Inr cfg \<Rightarrow>
          if bind [] (nf_data_bind cfg) then Inr (cfg, agent_new) else Inl Node_Data_Bind_Failed)"

text \<open>The connection of a session: the host is a name rustls accepts, TCP and TLS come up. The
  certificate of the server is not looked at (\<open>NoCertVerifier\<close>).\<close>

definition node_connects :: "(string \<Rightarrow> bool) \<Rightarrow> bool \<Rightarrow> bool \<Rightarrow> node_config \<Rightarrow> bool" where
  "node_connects valid_name tcp handshake cfg \<longleftrightarrow>
     valid_name (host_of (nf_server_addr cfg)) \<and> tcp \<and> handshake"

section \<open>The running server\<close>

text \<open>What happens to the shared state once the server is up: a turn of the accept loop, a request
  on the HTTP port, or a step of one of the tasks of the control plane.\<close>

inductive process_reachable ::
    "codec \<Rightarrow> auth_lib \<Rightarrow> (string \<Rightarrow> string) \<Rightarrow> web_dir \<Rightarrow> extractors \<Rightarrow> 'acceptor running \<Rightarrow>
     system \<Rightarrow> bool" for cd lib mime web ex up where
  up: "process_reachable cd lib mime web ex up (up_system up)"
| accept: "process_reachable cd lib mime web ex up sys \<Longrightarrow>
    sy_cli sys c = None \<Longrightarrow> sy_node sys c = None \<Longrightarrow> sy_sent sys c = [] \<Longrightarrow>
    process_reachable cd lib mime web ex up (server_accept cd c accepted handshake stream host ok sys)"
| request: "process_reachable cd lib mime web ex up sys \<Longrightarrow>
    process_reachable cd lib mime web ex up
      (on_server (\<lambda>s. fst (http_serve lib mime web ex now order uuid rq s)) sys)"
| cli: "process_reachable cd lib mime web ex up sys \<Longrightarrow> draws_ok io sys \<Longrightarrow>
    process_reachable cd lib mime web ex up (drawn (io_uuid io) (cli_step (al_rfc3339 lib) c io sys))"
| node: "process_reachable cd lib mime web ex up sys \<Longrightarrow> draws_ok io sys \<Longrightarrow>
    process_reachable cd lib mime web ex up (drawn (io_uuid io) (node_step cd c io sys))"
| data: "process_reachable cd lib mime web ex up sys \<Longrightarrow> op_enabled op (sv_pending (sy_server sys)) \<Longrightarrow>
    process_reachable cd lib mime web ex up (on_server (sv_pending_update (op_apply cd op)) sys)"
| visit: "process_reachable cd lib mime web ex up sys \<Longrightarrow>
    visitor_in (sv_pending (sy_server sys)) v (\<lambda>vs. \<exists>d. vs_phase vs = V_Proxying d) \<Longrightarrow>
    process_reachable cd lib mime web ex up (visitor_done (al_rfc3339 lib) v now sys)"

lemma http_request_step:
  "on_server (\<lambda>s. fst (http_serve lib mime web ex now order uuid rq s)) sys = sys \<or>
   sys_step cd lib sys (on_server (\<lambda>s. fst (http_serve lib mime web ex now order uuid rq s)) sys)"
proof -
  let ?s = "sy_server sys"
  from http_serve_state [of lib mime web ex now order uuid rq ?s] show ?thesis
  proof
    assume "fst (http_serve lib mime web ex now order uuid rq ?s) = ?s"
    then show ?thesis by (simp add: on_server_def)
  next
    assume "\<exists>req. fst (http_serve lib mime web ex now order uuid rq ?s) =
      fst (api_handle lib now order uuid (hr_parts rq) req ?s)"
    then obtain req where "fst (http_serve lib mime web ex now order uuid rq ?s) =
      fst (api_handle lib now order uuid (hr_parts rq) req ?s)" ..
    then have "on_server (\<lambda>s. fst (http_serve lib mime web ex now order uuid rq s)) sys =
      on_server (\<lambda>s. fst (api_handle lib now order uuid (hr_parts rq) req s)) sys"
      by (simp add: on_server_def)
    then show ?thesis using sys_step.api by simp
  qed
qed

lemma process_reachable_system:
  assumes "process_reachable cd lib mime web ex up sys" and "up_system up = system_new cfg"
  shows "sys_reachable cd lib cfg sys"
  using assms(1)
proof induction
  case up
  show ?case unfolding assms(2) by (rule sys_reachable.start)
next
  case (accept sys c accepted handshake stream host ok)
  then show ?case
    by (auto simp: server_accept_def intro: sys_reachable.step sys_step.connect)
next
  case (request sys now order uuid rq)
  with http_request_step [of lib mime web ex now order uuid rq sys cd] show ?case
    by (auto intro: sys_reachable.step)
qed (blast intro: sys_reachable.step sys_step.intros)+

section \<open>Endpoints\<close>

definition endpoint_of :: "string \<Rightarrow> (string \<times> u16) option" where
  "endpoint_of addr =
     (case rsplit_once (CHR '':'') addr of
        Some (host, port) \<Rightarrow> map_option (Pair host) (parse_u16 port)
      | None \<Rightarrow> None)"

text \<open>What is relied on: an address is bound only if it has a port, and an endpoint that the
  process already listens on cannot be bound again; port 0 stands for any free one.\<close>

definition bind_laws :: "os_bind \<Rightarrow> bool" where
  "bind_laws bind \<longleftrightarrow> (\<forall>held a. bind held a \<longrightarrow>
     (\<exists>host port. endpoint_of a = Some (host, port) \<and>
        (\<forall>b \<in> set held. endpoint_of b = Some (host, port) \<longrightarrow> port = 0)))"

lemma endpoint_of_show [simp]: "endpoint_of (h @ CHR '':'' # show_u16 p) = Some (h, p)"
  by (simp add: endpoint_of_def)

lemma data_endpoint_of:
  assumes "endpoint_of a = Some (h, p)"
  shows "control_host a = h" and "data_port a = saturating_add_u16 p 1"
  using assms
  by (auto simp: endpoint_of_def control_host_def data_port_def simp del: rsplit_once_None
      split: option.splits)

lemma next_port_distinct:
  assumes "p = 65535 \<Longrightarrow> False"
  shows "unat p < 65535" and "saturating_add_u16 p 1 = p + 1"
proof -
  have "unat p \<noteq> 65535" using assms by (auto simp: word_unat_eq_iff)
  then show l: "unat p < 65535" using unat_u16_le [of p] by simp
  then have "unat (p + 1) = unat p + 1" by (simp add: unat_word_ariths)
  with l show "saturating_add_u16 p 1 = p + 1"
    by (simp add: word_unat_eq_iff unat_saturating_add_u16)
qed

lemma server_main_cases:
  assumes "server_main tc tls bind args fs = Inr up"
  obtains cfg where "server_config_load tc (parse_config_path DEFAULT_SERVER_CONFIG args) fs = Inr cfg"
    "build_tls_acceptor tls cfg fs = Inr (up_acceptor up)"
    "up_http up = cf_bind_http cfg" "up_control up = cf_bind_control cfg"
    "up_data up = control_host (up_control up) @ '':'' @ show_u16 (data_port (up_control up))"
    "bind [] (up_http up)" "bind [up_http up] (up_control up)"
    "bind [up_http up, up_control up] (up_data up)"
    "up_system up = system_new (server_config.truncate cfg)"
  using assms
  by (auto simp: server_main_def Let_def split: sum.splits if_splits)

lemma build_tls_acceptor_Inr:
  "build_tls_acceptor tls cfg fs = Inr acceptor \<longleftrightarrow>
     (\<exists>certs key. load_certs tls (cf_tls_cert cfg) fs = Inr certs \<and>
       load_key tls (cf_tls_key cfg) fs = Inr key \<and> tl_server_config tls certs key = Some acceptor)"
  by (auto simp: build_tls_acceptor_def split: sum.splits option.splits)

lemma load_certs_Inr:
  "load_certs tls path fs = Inr certs \<longleftrightarrow>
     (\<exists>pem. fs path = Some (File pem) \<and> tl_certs tls pem = Some certs \<and> certs \<noteq> [])"
  by (auto simp: load_certs_def open_file_def split: option.splits disk_file.splits)

section \<open>A sample start\<close>

definition sample_server_file :: server_file where
  "sample_server_file =
     \<lparr>cf_bind_control = ''0.0.0.0:7000'', cf_bind_http = ''0.0.0.0:80'', cf_port_range = (30000, 30001),
      cf_tokens = [''t''], cf_jwt_secret = ''s'', cf_users = [], cf_tls_cert = ''cert'', cf_tls_key = ''key''\<rparr>"

definition sample_server_codec :: "server_file text_codec" where
  "sample_server_codec = \<lparr>tx_pretty = \<lambda>_. None,
     tx_parse = \<lambda>s. if s = ''{..}'' then Some sample_server_file else None\<rparr>"

definition sample_tls :: "(string, string, string) tls_lib" where
  "sample_tls = \<lparr>tl_certs = \<lambda>pem. Some [pem], tl_private_key = \<lambda>pem. Some (Some pem),
     tl_server_config = \<lambda>_ key. Some key\<rparr>"

definition sample_disk :: files where
  "sample_disk = [DEFAULT_SERVER_CONFIG \<mapsto> File ''{..}'', ''cert'' \<mapsto> File ''c'', ''key'' \<mapsto> File ''k'']"

definition bind_fresh :: os_bind where
  "bind_fresh held a \<longleftrightarrow> endpoint_of a \<noteq> None \<and> (\<forall>b \<in> set held. endpoint_of b \<noteq> endpoint_of a)"

lemma bind_fresh_laws: "bind_laws bind_fresh"
  by (auto simp: bind_laws_def bind_fresh_def)

definition sample_up :: "string running" where
  "sample_up = \<lparr>up_acceptor = ''k'', up_http = ''0.0.0.0:80'', up_control = ''0.0.0.0:7000'',
     up_data = ''0.0.0.0:7001'', up_system = system_new (server_config.truncate sample_server_file)\<rparr>"

lemma sample_endpoints:
  "endpoint_of ''0.0.0.0:80'' = Some (''0.0.0.0'', 80)"
  "endpoint_of ''0.0.0.0:7000'' = Some (''0.0.0.0'', 7000)"
  "endpoint_of ''0.0.0.0:7001'' = Some (''0.0.0.0'', 7001)"
  using endpoint_of_show [of "''0.0.0.0''" 80] endpoint_of_show [of "''0.0.0.0''" 7000]
    endpoint_of_show [of "''0.0.0.0''" 7001]
  by (simp_all add: show_nat.simps digit_char_def char_of_def bit_0)

lemma sample_data_addr:
  "control_host ''0.0.0.0:7000'' = ''0.0.0.0''" "data_port ''0.0.0.0:7000'' = 7001"
  "show_u16 7001 = ''7001''"
proof -
  have "saturating_add_u16 7000 1 = (7001 :: u16)" by (simp add: saturating_add_u16_def)
  then show "control_host ''0.0.0.0:7000'' = ''0.0.0.0''" "data_port ''0.0.0.0:7000'' = 7001"
    using data_endpoint_of [OF sample_endpoints(2)] by simp_all
  show "show_u16 7001 = ''7001''" by (simp add: show_nat.simps digit_char_def char_of_def bit_0)
qed

lemma sample_start: "server_main sample_server_codec sample_tls bind_fresh [''borehole-server''] sample_disk = Inr sample_up"
proof -
  have load: "server_config_load sample_server_codec DEFAULT_SERVER_CONFIG sample_disk = Inr sample_server_file"
    by (simp add: server_config_load_def load_json_def read_to_string_def sample_disk_def
        sample_server_codec_def DEFAULT_SERVER_CONFIG_def valid_utf8_ascii)
  have tls: "build_tls_acceptor sample_tls sample_server_file sample_disk = Inr ''k''"
    by (simp add: build_tls_acceptor_def load_certs_def load_key_def open_file_def sample_tls_def
        sample_disk_def sample_server_file_def DEFAULT_SERVER_CONFIG_def)
  have binds: "cf_bind_http sample_server_file = ''0.0.0.0:80''"
    "cf_bind_control sample_server_file = ''0.0.0.0:7000''"
    by (simp_all add: sample_server_file_def)
  show ?thesis
    unfolding server_main_def
    using load tls
    by (simp add: parse_config_path_def binds sample_data_addr [simplified] bind_fresh_def sample_endpoints sample_up_def Let_def)
qed

section \<open>Properties\<close>





end
