(* ===== verification/Cli_Config.thy ===== *)
theory Cli_Config
  imports Cli_Files
begin

text \<open>
  The configuration of the CLI, \<open>crates/cli/src/config.rs\<close>, and the two commands that change
  it, \<open>run_config\<close> and \<open>run_login\<close> of \<open>crates/cli/src/main.rs\<close>.

  \<open>chrono\<close>'s \<open>parse_from_rfc3339\<close> is a parameter. Standard input, the callback connection and
  the outcomes of I/O are inputs.
\<close>

section \<open>The configuration\<close>

record cli_config =
  cc_server_addr :: "string option"
  cc_token :: "string option"
  cc_server_url :: "string option"
  cc_jwt :: "string option"
  cc_jwt_expires_at :: "string option"

definition cli_config_default :: cli_config where
  "cli_config_default = \<lparr>cc_server_addr = None, cc_token = None, cc_server_url = None,
     cc_jwt = None, cc_jwt_expires_at = None\<rparr>"

definition config_json :: "cli_config \<Rightarrow> json" where
  "config_json cfg = JObj
     [(''server_addr'', option_json JStr (cc_server_addr cfg)),
      (''token'', option_json JStr (cc_token cfg)),
      (''server_url'', option_json JStr (cc_server_url cfg)),
      (''jwt'', option_json JStr (cc_jwt cfg)),
      (''jwt_expires_at'', option_json JStr (cc_jwt_expires_at cfg))]"

definition wf_text :: "string option \<Rightarrow> bool" where
  "wf_text t = (case t of None \<Rightarrow> True | Some s \<Rightarrow> valid_utf8 s)"

definition wf_config :: "cli_config \<Rightarrow> bool" where
  "wf_config cfg \<longleftrightarrow> wf_text (cc_server_addr cfg) \<and> wf_text (cc_token cfg) \<and>
     wf_text (cc_server_url cfg) \<and> wf_text (cc_jwt cfg) \<and> wf_text (cc_jwt_expires_at cfg)"

datatype cli_error =
    No_Home
  | File_Error file_error
  | No_Server
  | No_Token
  | No_Server_Url
  | No_Jwt
  | Prompt_Failed
  | Bind_Failed
  | Login_Timed_Out
  | Accept_Failed
  | Callback_Read_Failed
  | No_Token_In_Callback

definition config_path :: "cli_env \<Rightarrow> cli_error + string" where
  "config_path env =
     (case home_dir env of
        None \<Rightarrow> Inl No_Home
      | Some home \<Rightarrow> Inr (path_join home ''.borehole.json''))"

definition config_load ::
    "cli_config text_codec \<Rightarrow> cli_env \<Rightarrow> files \<Rightarrow> cli_error + cli_config" where
  "config_load tc env fs =
     (case config_path env of
        Inl e \<Rightarrow> Inl e
      | Inr path \<Rightarrow>
          if path_exists path fs
          then (case load_json tc path fs of Inl e \<Rightarrow> Inl (File_Error e) | Inr cfg \<Rightarrow> Inr cfg)
          else Inr cli_config_default)"

definition config_save ::
    "cli_config text_codec \<Rightarrow> cli_env \<Rightarrow> cli_config \<Rightarrow> write_end \<Rightarrow> files \<Rightarrow>
      cli_error option \<times> files" where
  "config_save tc env cfg w fs =
     (case config_path env of
        Inl e \<Rightarrow> (Some e, fs)
      | Inr path \<Rightarrow> (case save_json tc config_json path cfg w fs of
          (e, fs') \<Rightarrow> (map_option File_Error e, fs')))"

section \<open>Required settings\<close>

definition non_empty :: "string option \<Rightarrow> string option" where
  "non_empty t = Option.bind t (\<lambda>s. if s \<noteq> [] then Some s else None)"

definition required :: "cli_error \<Rightarrow> string option \<Rightarrow> cli_error + string" where
  "required e t = (case non_empty t of None \<Rightarrow> Inl e | Some s \<Rightarrow> Inr s)"

lemma required_Inr: "required e t = Inr s \<longleftrightarrow> t = Some s \<and> s \<noteq> []"
  by (auto simp: required_def non_empty_def split: option.splits bind_splits)

definition require_server_addr :: "cli_config \<Rightarrow> cli_error + string" where
  "require_server_addr cfg = required No_Server (cc_server_addr cfg)"

definition require_token :: "cli_config \<Rightarrow> cli_error + string" where
  "require_token cfg = required No_Token (cc_token cfg)"

definition require_server_url :: "cli_config \<Rightarrow> cli_error + string" where
  "require_server_url cfg = required No_Server_Url (cc_server_url cfg)"

definition require_jwt :: "cli_config \<Rightarrow> cli_error + string" where
  "require_jwt cfg = required No_Jwt (cc_jwt cfg)"

definition is_jwt_expired :: "(string \<Rightarrow> timestamp option) \<Rightarrow> timestamp \<Rightarrow> cli_config \<Rightarrow> bool" where
  "is_jwt_expired parse_from_rfc3339 now cfg =
     (case cc_jwt_expires_at cfg of
        Some s \<Rightarrow> (case parse_from_rfc3339 s of Some expiry \<Rightarrow> expiry \<le> now | None \<Rightarrow> True)
      | None \<Rightarrow> True)"

section \<open>The command config\<close>

text \<open>With no flag the server and the token are asked for.\<close>

definition edit_config ::
    "string option \<Rightarrow> string option \<Rightarrow> string option \<Rightarrow> stream \<Rightarrow> cli_config \<Rightarrow>
      cli_config option" where
  "edit_config server token url stdin cfg =
     (if server = None \<and> token = None \<and> url = None then
        (case prompt stdin of
           (None, _) \<Rightarrow> None
         | (Some s, rest) \<Rightarrow>
             (case prompt rest of
                (None, _) \<Rightarrow> None
              | (Some t, _) \<Rightarrow> Some (cfg\<lparr>cc_server_addr := Some s, cc_token := Some t\<rparr>)))
      else
        (let cfg = (case server of Some s \<Rightarrow> cfg\<lparr>cc_server_addr := Some s\<rparr> | None \<Rightarrow> cfg);
             cfg = (case token of Some t \<Rightarrow> cfg\<lparr>cc_token := Some t\<rparr> | None \<Rightarrow> cfg);
             cfg = (case url of Some u \<Rightarrow> cfg\<lparr>cc_server_url := Some u\<rparr> | None \<Rightarrow> cfg)
         in Some cfg))"

definition run_config ::
    "cli_config text_codec \<Rightarrow> cli_env \<Rightarrow> string option \<Rightarrow> string option \<Rightarrow> string option \<Rightarrow>
      stream \<Rightarrow> write_end \<Rightarrow> files \<Rightarrow> cli_error option \<times> files" where
  "run_config tc env server token url stdin w fs =
     (case config_load tc env fs of
        Inl e \<Rightarrow> (Some e, fs)
      | Inr cfg \<Rightarrow>
          (case edit_config server token url stdin cfg of
             None \<Rightarrow> (Some Prompt_Failed, fs)
           | Some cfg' \<Rightarrow> config_save tc env cfg' w fs))"

section \<open>The command login\<close>

definition callback_of :: "u16 \<Rightarrow> string" where
  "callback_of port = ''http://localhost:'' @ show_u16 port"

definition login_url :: "string \<Rightarrow> u16 \<Rightarrow> string" where
  "login_url server_url port =
     trim_end_matches (CHR ''/'') server_url @ ''/api/auth/cli?callback='' @ callback_of port"

text \<open>How the wait for the browser ends: after 300 seconds, with a failed \<open>accept\<close>, or with the
  bytes of the connection.\<close>

datatype browser = No_Browser | Accept_Error | Callback stream

definition run_login ::
    "cli_config text_codec \<Rightarrow> cli_env \<Rightarrow> bool \<Rightarrow> browser \<Rightarrow> write_end \<Rightarrow> files \<Rightarrow>
      cli_error option \<times> files" where
  "run_login tc env bound visit w fs =
     (case config_load tc env fs of
        Inl e \<Rightarrow> (Some e, fs)
      | Inr cfg \<Rightarrow>
          (case require_server_url cfg of
             Inl e \<Rightarrow> (Some e, fs)
           | Inr server_url \<Rightarrow>
               if \<not> bound then (Some Bind_Failed, fs)
               else (case visit of
                  No_Browser \<Rightarrow> (Some Login_Timed_Out, fs)
                | Accept_Error \<Rightarrow> (Some Accept_Failed, fs)
                | Callback s \<Rightarrow>
                    (case read_line s of
                       (Io_Err, _) \<Rightarrow> (Some Callback_Read_Failed, fs)
                     | (Io_Ok (_, request_line), _) \<Rightarrow>
                         (case parse_callback request_line of
                            None \<Rightarrow> (Some No_Token_In_Callback, fs)
                          | Some (token, expires) \<Rightarrow>
                              config_save tc env
                                (cfg\<lparr>cc_jwt := Some token, cc_jwt_expires_at := expires\<rparr>) w fs)))))"

section \<open>Reading back\<close>

definition config_members :: "(string \<times> json) list \<Rightarrow> cli_config option" where
  "config_members fs =
     (case (opt_field string_of_json ''server_addr'' fs, opt_field string_of_json ''token'' fs,
            opt_field string_of_json ''server_url'' fs, opt_field string_of_json ''jwt'' fs,
            opt_field string_of_json ''jwt_expires_at'' fs) of
        (Some a, Some t, Some u, Some j, Some e) \<Rightarrow>
          Some \<lparr>cc_server_addr = a, cc_token = t, cc_server_url = u, cc_jwt = j,
            cc_jwt_expires_at = e\<rparr>
      | _ \<Rightarrow> None)"

definition config_codec :: "cli_config text_codec" where
  "config_codec = members_codec config_json config_members"

lemma option_text [simp]:
  "scalar (option_json JStr t)"
  "(\<forall>s \<in> set (json_strings (option_json JStr t)). valid_utf8 s) = wf_text t"
  by (simp_all add: scalar_def option_json_def wf_text_def split: option.split)

interpretation config_file: text_format config_codec config_json wf_config
  unfolding config_codec_def
proof (rule members_codec_format)
  fix cfg
  assume "wf_config cfg"
  then show "\<exists>fs. config_json cfg = JObj fs \<and> plain_members fs \<and> config_members fs = Some cfg"
    by (simp add: config_json_def plain_members_def wf_config_def config_members_def valid_utf8_ascii)
qed

section \<open>Saved and loaded\<close>

lemma config_saved:
  assumes "text_format tc config_json wf_config" and "wf_config cfg" and "config_path env = Inr path"
  shows "fst (config_save tc env cfg w fs) = (if w = Written then None else Some (File_Error Cannot_Write))"
    and "\<forall>p. p \<noteq> path \<longrightarrow> snd (config_save tc env cfg w fs) p = fs p"
    and "w = Written \<Longrightarrow> config_load tc env (snd (config_save tc env cfg w fs)) = Inr cfg"
  using text_format.save_cases [OF assms(1,2), where path = path and w = w and fs = fs] assms(3)
  by (auto simp: config_save_def config_load_def split: prod.split)

lemma config_load_path:
  assumes "config_load tc env fs = Inr cfg"
  obtains path where "config_path env = Inr path"
  using assms by (auto simp: config_load_def split: sum.splits)

section \<open>Properties\<close>

text \<open>\<open>borehole config\<close> with flags sets the settings named and no other: the next load gives
  the old configuration with them replaced (the reserved fields and the stored login
  survive), no other file is touched, and a failed write is reported.\<close>

lemma config_flags_exact:
  assumes "text_format tc config_json wf_config" and "config_load tc env fs = Inr cfg"
    and "wf_config cfg" and "wf_text server" and "wf_text token" and "wf_text url"
    and "server \<noteq> None \<or> token \<noteq> None \<or> url \<noteq> None"
  shows "case run_config tc env server token url stdin w fs of (e, fs') \<Rightarrow>
    (if w = Written
     then e = None \<and> config_load tc env fs' = Inr (cfg\<lparr>
       cc_server_addr := if server = None then cc_server_addr cfg else server,
       cc_token := if token = None then cc_token cfg else token,
       cc_server_url := if url = None then cc_server_url cfg else url\<rparr>)
     else e = Some (File_Error Cannot_Write)) \<and>
    (\<forall>p. config_path env \<noteq> Inr p \<longrightarrow> fs' p = fs p)"
proof -
  define new where "new = cfg\<lparr>cc_server_addr := if server = None then cc_server_addr cfg else server,
    cc_token := if token = None then cc_token cfg else token,
    cc_server_url := if url = None then cc_server_url cfg else url\<rparr>"
  have "edit_config server token url stdin cfg = Some new"
    using assms(7) by (auto simp: new_def edit_config_def Let_def split: option.split)
  then have run: "run_config tc env server token url stdin w fs = config_save tc env new w fs"
    using assms(2) by (simp add: run_config_def)
  have "wf_config new" using assms(3-6) by (simp add: wf_config_def new_def)
  moreover obtain path where path: "config_path env = Inr path"
    using config_load_path [OF assms(2)] .
  ultimately show ?thesis
    using config_saved [OF assms(1), where cfg = new and env = env and w = w and fs = fs]
    unfolding run new_def [symmetric] by (cases "config_save tc env new w fs") auto
qed

text \<open>A login stores the token and the expiry of the callback and nothing else.\<close>

lemma login_saved:
  assumes "text_format tc config_json wf_config" and "config_load tc env fs = Inr cfg"
    and "wf_config cfg" and "require_server_url cfg = Inr url"
    and "read_line s = (Io_Ok (n, line), rest)" and "parse_callback line = Some (token, expires)"
    and "valid_utf8 token" and "wf_text expires"
  shows "\<exists>fs'. run_login tc env True (Callback s) Written fs = (None, fs') \<and>
    config_load tc env fs' = Inr (cfg\<lparr>cc_jwt := Some token, cc_jwt_expires_at := expires\<rparr>)"
proof -
  let ?cfg = "cfg\<lparr>cc_jwt := Some token, cc_jwt_expires_at := expires\<rparr>"
  have "wf_config ?cfg" using assms(3,7,8) by (simp add: wf_config_def wf_text_def)
  moreover obtain path where "config_path env = Inr path"
    using config_load_path [OF assms(2)] .
  ultimately show ?thesis
    using config_saved [OF assms(1), where cfg = ?cfg and env = env and w = Written and fs = fs] assms(2,4-6)
    by (cases "config_save tc env ?cfg Written fs") (simp add: run_login_def)
qed

end
