(* ===== verification/Cli_Records.thy ===== *)
theory Cli_Records
  imports Cli_Config "HOL-Library.List_Lexorder"
begin

text \<open>
  The registry of background tunnels, \<open>crates/cli/src/tunnels.rs\<close>: one JSON file per tunnel
  under \<open>~/.borehole/tunnels\<close>. The outcomes of creating the directory, of removing a file and
  the entries that reading the directory yields are inputs.
\<close>

section \<open>Records\<close>

definition STATE_STARTING :: string where
  "STATE_STARTING = ''starting''"

definition STATE_ACTIVE :: string where
  "STATE_ACTIVE = ''active''"

record tunnel_record =
  tr_id :: string
  tr_pid :: u32
  tr_protocol :: string
  tr_local_port :: u16
  tr_remote_port :: "u16 option"
  tr_node :: "string option"
  tr_state :: string

definition record_json :: "tunnel_record \<Rightarrow> json" where
  "record_json r = JObj
     [(''id'', JStr (tr_id r)),
      (''pid'', JNum (unat (tr_pid r))),
      (''protocol'', JStr (tr_protocol r)),
      (''local_port'', port_json (tr_local_port r)),
      (''remote_port'', option_json port_json (tr_remote_port r)),
      (''node'', option_json JStr (tr_node r)),
      (''state'', JStr (tr_state r))]"

definition wf_record :: "tunnel_record \<Rightarrow> bool" where
  "wf_record r \<longleftrightarrow> valid_utf8 (tr_id r) \<and> valid_utf8 (tr_protocol r) \<and> wf_text (tr_node r) \<and>
     valid_utf8 (tr_state r)"

datatype record_error =
    No_Home_Dir
  | No_Tunnels_Dir
  | Record_File file_error
  | Not_Removed
  | Not_Listed

section \<open>Operations\<close>

text \<open>\<open>made\<close> is the outcome of \<open>create_dir_all\<close>.\<close>

definition tunnels_dir :: "cli_env \<Rightarrow> bool \<Rightarrow> record_error + string" where
  "tunnels_dir env made =
     (case home_dir env of
        None \<Rightarrow> Inl No_Home_Dir
      | Some home \<Rightarrow>
          if made then Inr (path_join (path_join home ''.borehole'') ''tunnels'')
          else Inl No_Tunnels_Dir)"

definition record_path :: "cli_env \<Rightarrow> bool \<Rightarrow> string \<Rightarrow> record_error + string" where
  "record_path env made tid =
     (case tunnels_dir env made of
        Inl e \<Rightarrow> Inl e
      | Inr dir \<Rightarrow> Inr (path_join dir (tid @ ''.json'')))"

definition record_save ::
    "tunnel_record text_codec \<Rightarrow> cli_env \<Rightarrow> bool \<Rightarrow> tunnel_record \<Rightarrow> write_end \<Rightarrow> files \<Rightarrow>
      record_error option \<times> files" where
  "record_save tc env made r w fs =
     (case record_path env made (tr_id r) of
        Inl e \<Rightarrow> (Some e, fs)
      | Inr path \<Rightarrow>
          (case save_json tc record_json path r w fs of
             (e, fs') \<Rightarrow> (map_option Record_File e, fs')))"

definition record_load ::
    "tunnel_record text_codec \<Rightarrow> cli_env \<Rightarrow> bool \<Rightarrow> string \<Rightarrow> files \<Rightarrow> record_error + tunnel_record" where
  "record_load tc env made tid fs =
     (case record_path env made tid of
        Inl e \<Rightarrow> Inl e
      | Inr path \<Rightarrow>
          (case load_json tc path fs of Inl e \<Rightarrow> Inl (Record_File e) | Inr r \<Rightarrow> Inr r))"

text \<open>\<open>remove_file\<close>: fails when the file is gone, or for a reason of its own (\<open>\<not> ok\<close>).\<close>

definition remove_file :: "string \<Rightarrow> bool \<Rightarrow> files \<Rightarrow> bool \<times> files" where
  "remove_file path ok fs =
     (if ok \<and> path_exists path fs then (True, fs(path := None)) else (False, fs))"

definition record_remove ::
    "cli_env \<Rightarrow> bool \<Rightarrow> string \<Rightarrow> bool \<Rightarrow> files \<Rightarrow> record_error option \<times> files" where
  "record_remove env made tid ok fs =
     (case record_path env made tid of
        Inl e \<Rightarrow> (Some e, fs)
      | Inr path \<Rightarrow>
          if path_exists path fs
          then (case remove_file path ok fs of (r, fs') \<Rightarrow> (if r then None else Some Not_Removed, fs'))
          else (None, fs))"

text \<open>\<open>Path::extension\<close> of a path with a file name: what follows its last dot, unless that is
  its first character.\<close>

definition file_name :: "string \<Rightarrow> string" where
  "file_name path = (case rsplit_once (CHR ''/'') path of Some (_, name) \<Rightarrow> name | None \<Rightarrow> path)"

definition path_extension :: "string \<Rightarrow> string option" where
  "path_extension path =
     (case rsplit_once (CHR ''.'') (file_name path) of
        Some (stem, ext) \<Rightarrow> if stem = [] then None else Some ext
      | None \<Rightarrow> None)"

text \<open>The loop over the entries; \<open>None\<close> is an entry that could not be read.\<close>

fun list_entries ::
    "tunnel_record text_codec \<Rightarrow> files \<Rightarrow> string option list \<Rightarrow> tunnel_record list option" where
  "list_entries tc fs [] = Some []"
| "list_entries tc fs (None # entries) = None"
| "list_entries tc fs (Some path # entries) =
     (if path_extension path \<noteq> Some ''json'' then list_entries tc fs entries
      else (case load_json tc path fs of
              Inl _ \<Rightarrow> list_entries tc fs entries
            | Inr r \<Rightarrow> map_option (\<lambda>rs. r # rs) (list_entries tc fs entries)))"

text \<open>\<open>entries\<close> is what \<open>read_dir\<close> yields (\<open>None\<close>: it fails); \<open>present\<close> says that the directory
  exists, and \<open>sort_by\<close> is stable.\<close>

definition record_list ::
    "tunnel_record text_codec \<Rightarrow> cli_env \<Rightarrow> bool \<Rightarrow> bool \<Rightarrow> string option list option \<Rightarrow> files \<Rightarrow>
      record_error + tunnel_record list" where
  "record_list tc env made present entries fs =
     (case tunnels_dir env made of
        Inl e \<Rightarrow> Inl e
      | Inr _ \<Rightarrow>
          if \<not> present then Inr []
          else (case Option.bind entries (list_entries tc fs) of
                  None \<Rightarrow> Inl Not_Listed
                | Some records \<Rightarrow> Inr (sort_key tr_id records)))"

section \<open>Reading back\<close>

definition pid_of_json :: "json \<Rightarrow> u32 option" where
  "pid_of_json j = (case j of JNum n \<Rightarrow> if n < 2 ^ 32 then Some (of_nat n) else None | _ \<Rightarrow> None)"

definition record_members :: "(string \<times> json) list \<Rightarrow> tunnel_record option" where
  "record_members fs =
     (case (str_field ''id'' fs, Option.bind (map_of fs ''pid'') pid_of_json,
            str_field ''protocol'' fs, port_field ''local_port'' fs,
            opt_field port_of_json ''remote_port'' fs, opt_field string_of_json ''node'' fs,
            str_field ''state'' fs) of
        (Some i, Some p, Some pr, Some l, Some r, Some n, Some s) \<Rightarrow>
          Some \<lparr>tr_id = i, tr_pid = p, tr_protocol = pr, tr_local_port = l, tr_remote_port = r,
            tr_node = n, tr_state = s\<rparr>
      | _ \<Rightarrow> None)"

definition record_codec :: "tunnel_record text_codec" where
  "record_codec = members_codec record_json record_members"

lemma pid_json [simp]: "pid_of_json (JNum (unat p)) = Some p"
  using unsigned_less [of p] by (simp add: pid_of_json_def)

lemma scalar_ports [simp]:
  "scalar (port_json p)" "scalar (option_json port_json q)" "scalar (JStr s)" "scalar (JNum n)"
  "json_strings (port_json p) = []" "json_strings (option_json port_json q) = []"
  by (simp_all add: scalar_def port_json_def option_json_def split: option.split)

interpretation record_file: text_format record_codec record_json wf_record
  unfolding record_codec_def
proof (rule members_codec_format)
  fix r
  assume "wf_record r"
  then show "\<exists>fs. record_json r = JObj fs \<and> plain_members fs \<and> record_members fs = Some r"
    by (simp add: record_json_def plain_members_def wf_record_def record_members_def valid_utf8_ascii)
qed

section \<open>Properties\<close>

lemma record_saved:
  assumes "text_format tc record_json wf_record" and "wf_record r"
    and "record_path env made (tr_id r) = Inr path"
  shows "fst (record_save tc env made r w fs) =
      (if w = Written then None else Some (Record_File Cannot_Write))"
    and "\<forall>p. p \<noteq> path \<longrightarrow> snd (record_save tc env made r w fs) p = fs p"
    and "w = Written \<Longrightarrow> record_load tc env made (tr_id r) (snd (record_save tc env made r w fs)) = Inr r"
    and "w = Written \<Longrightarrow> path_exists path (snd (record_save tc env made r w fs))"
  using text_format.save_cases [OF assms(1,2), where path = path and w = w and fs = fs]
    assms(3)
  by (auto simp: record_save_def record_load_def split: prod.split)

text \<open>Names that stay inside the directory have files of their own.\<close>

definition plain_id :: "string \<Rightarrow> bool" where
  "plain_id tid \<longleftrightarrow> tid \<noteq> [] \<and> CHR ''/'' \<notin> set tid"

lemma record_path_inject:
  assumes "record_path env made i = Inr p" and "record_path env made j = Inr p"
    and "plain_id i" and "plain_id j"
  shows "i = j"
proof -
  have "hd i \<noteq> CHR ''/''" "hd j \<noteq> CHR ''/''"
    using assms(3,4) hd_in_set unfolding plain_id_def by metis+
  with assms show ?thesis
    by (auto simp: record_path_def path_join_def plain_id_def split: sum.splits if_splits)
qed

text \<open>The registry keeps one record per tunnel: a saved record is what the next load of its
  id gives, a removed one is gone and can be removed again, and neither changes what is
  stored under another id.\<close>

lemma registry_roundtrip:
  assumes "text_format tc record_json wf_record" and "wf_record r"
    and "record_path env made (tr_id r) = Inr path"
    and "record_save tc env made r Written fs = (e, fs')" and "record_remove env made (tr_id r) True fs' = (e', fs'')"
  shows "e = None \<and> record_load tc env made (tr_id r) fs' = Inr r \<and>
    e' = None \<and> record_load tc env made (tr_id r) fs'' = Inl (Record_File Cannot_Read) \<and>
    record_remove env made (tr_id r) ok fs'' = (None, fs'') \<and>
    (\<forall>i. plain_id i \<and> plain_id (tr_id r) \<and> i \<noteq> tr_id r \<longrightarrow>
      record_load tc env made i fs' = record_load tc env made i fs \<and>
      record_load tc env made i fs'' = record_load tc env made i fs)"
proof -
  note saved = record_saved [OF assms(1-3), where w = Written and fs = fs, unfolded assms(4)]
  have gone: "e' = None" "fs'' = fs'(path := None)"
    using assms(3,5) saved(4) by (auto simp: record_remove_def remove_file_def)
  have other: "record_load tc env made i fs' = record_load tc env made i fs \<and>
      record_load tc env made i fs'' = record_load tc env made i fs"
    if "plain_id i" "plain_id (tr_id r)" "i \<noteq> tr_id r" for i
  proof (cases "record_path env made i")
    case (Inr p)
    then have "p \<noteq> path" using record_path_inject [OF _ assms(3) that(1,2)] that(3) by blast
    then have "fs' p = fs p" "fs'' p = fs p" using saved(2) gone(2) by simp_all
    then show ?thesis
      using load_same [of fs' p fs tc] load_same [of fs'' p fs tc] Inr by (simp add: record_load_def)
  qed (simp add: record_load_def)
  have "record_load tc env made (tr_id r) fs'' = Inl (Record_File Cannot_Read)"
    "record_remove env made (tr_id r) ok fs'' = (None, fs'')"
    using assms(3) gone(2)
    by (simp_all add: record_load_def load_json_def read_to_string_def record_remove_def path_exists_def)
  with saved(1,3) gone(1) other show ?thesis by simp
qed

lemma list_entries_ok:
  assumes "None \<notin> set entries"
  shows "\<exists>rs. list_entries tc fs entries = Some rs \<and>
    set rs = {r. \<exists>path. Some path \<in> set entries \<and> path_extension path = Some ''json'' \<and>
      load_json tc path fs = Inr r}"
  using assms
proof (induction entries)
  case (Cons entry entries)
  then obtain path where path: "entry = Some path" by (cases entry) auto
  from Cons obtain rs where "list_entries tc fs entries = Some rs"
    "set rs = {r. \<exists>path. Some path \<in> set entries \<and> path_extension path = Some ''json'' \<and>
      load_json tc path fs = Inr r}" by auto
  with path show ?case by (auto split: sum.split)
qed simp

text \<open>\<open>borehole list\<close> shows every background tunnel and only those: if the directory can be
  read, the list is sorted by id and consists of the records of exactly the \<open>.json\<close> entries
  that can be read and decoded; a corrupt or foreign file hides no other tunnel.\<close>

lemma list_exact:
  assumes "tunnels_dir env made = Inr dir" and "None \<notin> set entries"
  shows "\<exists>rs. record_list tc env made True (Some entries) fs = Inr rs \<and> sorted (map tr_id rs) \<and>
    set rs = {r. \<exists>path. Some path \<in> set entries \<and> path_extension path = Some ''json'' \<and>
      load_json tc path fs = Inr r}"
  using list_entries_ok [OF assms(2), of tc fs] assms(1) by (auto simp: record_list_def)

section \<open>A sample record\<close>

definition sample_record :: tunnel_record where
  "sample_record = \<lparr>tr_id = ''0a1b2c3d'', tr_pid = 0, tr_protocol = ''http'', tr_local_port = 8080,
     tr_remote_port = None, tr_node = None, tr_state = STATE_STARTING\<rparr>"

definition registry_env :: cli_env where
  "registry_env = \<lparr>ev_home = Some ''/root'', ev_userprofile = None\<rparr>"

definition sample_path :: string where
  "sample_path = ''/root/.borehole/tunnels/0a1b2c3d.json''"

lemma sample_record_facts [simp]:
  "wf_record sample_record" "tr_id sample_record = ''0a1b2c3d''"
  "record_path registry_env True ''0a1b2c3d'' = Inr sample_path"
  "tunnels_dir registry_env True = Inr ''/root/.borehole/tunnels''"
  by (simp_all add: sample_record_def wf_record_def wf_text_def STATE_STARTING_def valid_utf8_ascii
      record_path_def tunnels_dir_def home_dir_def registry_env_def path_join_def sample_path_def)

definition sample_registry :: files where
  "sample_registry = snd (record_save record_codec registry_env True sample_record Written Map.empty)"

lemma sample_registry_saved:
  "record_save record_codec registry_env True sample_record Written Map.empty = (None, sample_registry)"
  "load_json record_codec sample_path sample_registry = Inr sample_record"
  "path_exists sample_path sample_registry"
  using record_saved(1,3,4) [OF record_file.text_format_axioms, of sample_record registry_env True
      sample_path Written Map.empty]
  by (simp_all add: sample_registry_def prod_eq_iff record_load_def split: sum.splits)

end
