(* ===== verification/Cli_Tunnel.thy ===== *)
theory Cli_Tunnel
  imports Cli_Config Addresses Data_Port
begin

text \<open>
  The tunnel client, \<open>crates/cli/src/tunnel.rs\<close>: one run of the control connection (\<open>run\<close>) and
  the data connection of a visitor (\<open>handle_data_conn\<close>), and the retries around it
  (\<open>run_tunnel_loop\<close> of \<open>crates/cli/src/main.rs\<close>).

  A run is given what it meets (\<open>attempt\<close>): the files, the outcomes of the connection, the TLS
  handshake and the write, the bytes the server sends, and after how many lines the user
  interrupts it. \<open>rustls\<close>'s check of the host name is a parameter. What is printed is not
  modelled.
\<close>

section \<open>Runs\<close>

record start_args =
  sa_local_port :: u16
  sa_remote_port :: "u16 option"
  sa_protocol :: protocol
  sa_node :: "string option"

datatype run_error =
    Run_Config cli_error
  | Invalid_Hostname
  | No_Connection
  | Tls_Failed
  | Request_Failed
  | Verdict_Read_Failed
  | Malformed_Reply
  | Refused string
  | Unexpected_Reply
  | Server_Gone
  | Control_Read_Failed

record attempt =
  ap_files :: files
  ap_connected :: bool
  ap_tls :: bool
  ap_written :: bool
  ap_hostname :: "string option"
  ap_input :: stream
  ap_interrupt :: "nat option"

text \<open>A visitor's task: the connection id and the node that holds the visitor, if any.\<close>

type_synonym visitor_task = "string \<times> (string \<times> u16) option"

text \<open>What a run does: the register frame it sent, the port it reported, the visitor tasks it
  spawned, and its result (\<open>None\<close>: a clean shutdown).\<close>

record outcome =
  oc_request :: "message option"
  oc_ready :: "u16 option"
  oc_visitors :: "visitor_task list"
  oc_result :: "run_error option"

definition failed :: "message option \<Rightarrow> run_error \<Rightarrow> outcome" where
  "failed request e = \<lparr>oc_request = request, oc_ready = None, oc_visitors = [], oc_result = Some e\<rparr>"

section \<open>The control loop\<close>

text \<open>\<open>next_line\<close> of tokio: a line without its line feed and one carriage return before it.\<close>

definition strip_line :: "string \<Rightarrow> string" where
  "strip_line line =
     (if line \<noteq> [] \<and> last line = newline
      then (let l = butlast line in if l \<noteq> [] \<and> last l = CHR 0x0D then butlast l else l)
      else line)"

definition next_line :: "stream \<Rightarrow> string option io_result \<times> stream" where
  "next_line s =
     (case read_line s of
        (Io_Err, s') \<Rightarrow> (Io_Err, s')
      | (Io_Ok (n, line), s') \<Rightarrow> (Io_Ok (if n = 0 then None else Some (strip_line line)), s'))"

lemma next_line_shorter:
  assumes "next_line s = (Io_Ok (Some line), s')"
  shows "length (sm_bytes s') < length (sm_bytes s)"
  using assms read_line_shorter [of s]
  by (auto simp: next_line_def split: prod.splits io_result.splits if_splits)

definition option_zip :: "'a option \<Rightarrow> 'b option \<Rightarrow> ('a \<times> 'b) option" where
  "option_zip x y = (case (x, y) of (Some a, Some b) \<Rightarrow> Some (a, b) | _ \<Rightarrow> None)"

definition visitor_of :: "string \<Rightarrow> codec \<Rightarrow> visitor_task list" where
  "visitor_of line cd =
     (case from_line cd line of
        Some (New_Conn nc) \<Rightarrow>
          [(nc_conn_id nc, option_zip (nc_node_host nc) (nc_node_port nc))]
      | _ \<Rightarrow> [])"

text \<open>\<open>interrupt\<close> is the number of lines before the user's Ctrl+C.\<close>

function control_loop ::
    "codec \<Rightarrow> nat option \<Rightarrow> stream \<Rightarrow> visitor_task list \<times> run_error option" where
  "control_loop cd interrupt s =
     (if interrupt = Some 0 then ([], None)
      else case next_line s of
        (Io_Err, _) \<Rightarrow> ([], Some Control_Read_Failed)
      | (Io_Ok None, _) \<Rightarrow> ([], Some Server_Gone)
      | (Io_Ok (Some line), s') \<Rightarrow>
          (let (tasks, result) = control_loop cd (map_option (\<lambda>n. n - 1) interrupt) s'
           in (visitor_of line cd @ tasks, result)))"
  by pat_completeness auto

termination
  by (relation "measure (\<lambda>(cd, i, s). length (sm_bytes s))") (auto dest!: next_line_shorter [OF sym])

declare control_loop.simps [simp del]

section \<open>A run\<close>

definition cli_verdict :: "codec \<Rightarrow> (nat \<times> string) io_result \<Rightarrow> run_error + u16" where
  "cli_verdict cd line =
     (case line of
        Io_Err \<Rightarrow> Inl Verdict_Read_Failed
      | Io_Ok (_, text) \<Rightarrow>
          (case from_line cd text of
             None \<Rightarrow> Inl Malformed_Reply
           | Some (Registered r) \<Rightarrow> Inr (rd_remote_port r)
           | Some (Error err) \<Rightarrow> Inl (Refused (em_reason err))
           | Some _ \<Rightarrow> Inl Unexpected_Reply))"

definition register_request :: "string \<Rightarrow> start_args \<Rightarrow> string option \<Rightarrow> message" where
  "register_request token args hostname =
     Register \<lparr>rg_token = token, rg_protocol = sa_protocol args,
       rg_local_port = sa_local_port args, rg_remote_port = sa_remote_port args,
       rg_node = sa_node args, rg_hostname = hostname\<rparr>"

text \<open>From the server's first line on; \<open>ready\<close> says whether a worker waits for the port.\<close>

definition registered_run :: "codec \<Rightarrow> bool \<Rightarrow> message \<Rightarrow> attempt \<Rightarrow> outcome" where
  "registered_run cd ready request ap =
     (let (line, s) = read_line (ap_input ap)
      in case cli_verdict cd line of
           Inl e \<Rightarrow> failed (Some request) e
         | Inr port \<Rightarrow>
             (let (tasks, result) = control_loop cd (ap_interrupt ap) s
              in \<lparr>oc_request = Some request, oc_ready = if ready then Some port else None,
                   oc_visitors = tasks, oc_result = result\<rparr>))"

definition tunnel_run ::
    "codec \<Rightarrow> cli_config text_codec \<Rightarrow> cli_env \<Rightarrow> (string \<Rightarrow> bool) \<Rightarrow> start_args \<Rightarrow> bool \<Rightarrow>
      attempt \<Rightarrow> outcome" where
  "tunnel_run cd tc env valid_name args ready ap =
     (case config_load tc env (ap_files ap) of
        Inl e \<Rightarrow> failed None (Run_Config e)
      | Inr cfg \<Rightarrow>
          (case require_server_addr cfg of
             Inl e \<Rightarrow> failed None (Run_Config e)
           | Inr server_addr \<Rightarrow>
               (case require_token cfg of
                  Inl e \<Rightarrow> failed None (Run_Config e)
                | Inr token \<Rightarrow>
                    if \<not> valid_name (host_of server_addr) then failed None Invalid_Hostname
                    else if \<not> ap_connected ap then failed None No_Connection
                    else if \<not> ap_tls ap then failed None Tls_Failed
                    else
                      (let request = register_request token args (ap_hostname ap)
                       in if to_line cd request = None \<or> \<not> ap_written ap
                          then failed None Request_Failed
                          else registered_run cd ready request ap))))"

section \<open>The data connection of a visitor\<close>

datatype data_result =
    Bad_Address addr_error
  | Endpoint_Down string
  | Announce_Failed
  | Local_Down string string
  | Spliced string string   \<comment> \<open>the address dialled and the bytes sent before the splice\<close>

definition cli_data_conn ::
    "codec \<Rightarrow> string \<Rightarrow> visitor_task \<Rightarrow> bool \<Rightarrow> bool \<Rightarrow> bool \<Rightarrow> data_result" where
  "cli_data_conn cd server_addr task connected written local =
     (case task of (conn_id, node) \<Rightarrow>
        (case data_endpoint server_addr node of
           Inl e \<Rightarrow> Bad_Address e
         | Inr data_addr \<Rightarrow>
             if \<not> connected then Endpoint_Down data_addr
             else (case to_line cd (Data_Conn \<lparr>dc_conn_id = conn_id\<rparr>) of
                None \<Rightarrow> Announce_Failed
              | Some frame \<Rightarrow>
                  if \<not> written then Announce_Failed
                  else if local then Spliced data_addr frame
                  else Local_Down data_addr frame)))"

section \<open>Retries\<close>

text \<open>\<open>run n ready\<close> is the run after \<open>n\<close> failures. The sender of the port is handed to the first
  run and gone afterwards.\<close>

function run_tunnel_loop ::
    "(nat \<Rightarrow> bool \<Rightarrow> outcome) \<Rightarrow> nat \<Rightarrow> bool \<Rightarrow> outcome list \<times> run_error option" where
  "run_tunnel_loop run attempts ready =
     (let oc = run attempts ready
      in case oc_result oc of
           None \<Rightarrow> ([oc], None)
         | Some e \<Rightarrow>
             if attempts < 3
             then (let (ocs, result) = run_tunnel_loop run (attempts + 1) False in (oc # ocs, result))
             else ([oc], Some e))"
  by pat_completeness auto
termination by (relation "measure (\<lambda>(run, n, ready). 3 - n)") simp_all

declare run_tunnel_loop.simps [simp del]

section \<open>Reading what the server sends\<close>

text \<open>The visitors that a sequence of messages announces.\<close>

fun announced :: "message list \<Rightarrow> visitor_task list" where
  "announced [] = []"
| "announced (m # ms) =
     (case m of
        New_Conn nc \<Rightarrow> [(nc_conn_id nc, option_zip (nc_node_host nc) (nc_node_port nc))]
      | _ \<Rightarrow> []) @ announced ms"

definition end_error :: "stream_end \<Rightarrow> run_error" where
  "end_error e = (case e of Closed \<Rightarrow> Server_Gone | Broken \<Rightarrow> Control_Read_Failed)"

lemma strip_sent: "newline \<notin> set l \<Longrightarrow> l = [] \<or> last l \<noteq> CHR 0x0D \<Longrightarrow> strip_line (l @ [newline]) = l"
  by (auto simp: strip_line_def Let_def)

lemma next_line_sent:
  assumes "wire_codec cd" and "wf_message m" and "to_line cd m = Some l"
  obtains line where "next_line \<lparr>sm_bytes = l @ rest, sm_end = e\<rparr> =
      (Io_Ok (Some line), \<lparr>sm_bytes = rest, sm_end = e\<rparr>)" "from_line cd line = Some m"
proof -
  obtain body where b: "to_line cd m = Some ((''{'' @ body @ ''}'') @ [newline])"
    "newline \<notin> set (''{'' @ body @ ''}'')" "valid_utf8 (''{'' @ body @ ''}'')"
    using wire_codec.line_shape [OF assms(1,2)] by metis
  with assms(3) have l: "l @ rest = (''{'' @ body @ ''}'') @ newline # rest" by simp
  have "next_line \<lparr>sm_bytes = l @ rest, sm_end = e\<rparr> =
      (Io_Ok (Some (''{'' @ body @ ''}'')), \<lparr>sm_bytes = rest, sm_end = e\<rparr>)"
    unfolding l next_line_def read_line_line [OF b(2,3)]
    using strip_sent [OF b(2)] by simp
  moreover have "from_line cd (''{'' @ body @ ''}'') = Some m"
    using wire_codec.line_without_newline [OF assms(1,2) b(1)] by simp
  ultimately show thesis by (rule that)
qed

lemma next_line_end:
  "next_line \<lparr>sm_bytes = [], sm_end = e\<rparr> =
     (case e of Closed \<Rightarrow> Io_Ok None | Broken \<Rightarrow> Io_Err, \<lparr>sm_bytes = [], sm_end = e\<rparr>)"
  by (cases e) (simp_all add: next_line_def read_line_def)

lemma control_loop_end:
  "control_loop cd None \<lparr>sm_bytes = [], sm_end = e\<rparr> = ([], Some (end_error e))"
  by (cases e) (simp_all add: control_loop.simps [of cd None] next_line_end end_error_def)

lemma control_loop_sent:
  assumes "wire_codec cd" and "wf_message m" and "to_line cd m = Some l"
  shows "control_loop cd None \<lparr>sm_bytes = l @ rest, sm_end = e\<rparr> =
    (let (tasks, result) = control_loop cd None \<lparr>sm_bytes = rest, sm_end = e\<rparr>
     in (announced [m] @ tasks, result))"
proof -
  obtain line where line: "next_line \<lparr>sm_bytes = l @ rest, sm_end = e\<rparr> =
      (Io_Ok (Some line), \<lparr>sm_bytes = rest, sm_end = e\<rparr>)" "from_line cd line = Some m"
    using next_line_sent [OF assms] .
  have "visitor_of line cd = announced [m]" by (simp add: visitor_of_def line(2) split: message.split)
  with line(1) show ?thesis by (subst control_loop.simps) simp
qed

lemma control_loop_messages:
  assumes "wire_codec cd" and "\<forall>m \<in> set ms. wf_message m"
  shows "control_loop cd None \<lparr>sm_bytes = send_all cd ms [], sm_end = e\<rparr> =
    (announced ms, Some (end_error e))"
  using assms(2)
proof (induction ms)
  case (Cons m ms)
  then obtain l where l: "to_line cd m = Some l"
    using sent_line [OF assms(1)] by (metis list.set_intros(1))
  from Cons have "control_loop cd None \<lparr>sm_bytes = send_all cd ms [], sm_end = e\<rparr> =
    (announced ms, Some (end_error e))" by simp
  with control_loop_sent [OF assms(1) _ l, of "send_all cd ms []" e] Cons.prems show ?case
    by (simp add: send_all_Cons [OF l] del: send_all.simps)
qed (simp add: control_loop_end)

section \<open>Properties\<close>

text \<open>The run once the request has gone out, on a server that answers with a sequence of
  messages.\<close>

lemma registered_run_messages:
  assumes "wire_codec cd" and "\<forall>m \<in> set (Registered nr # ms). wf_message m"
    and "ap_input ap = \<lparr>sm_bytes = send_all cd (Registered nr # ms) [], sm_end = e\<rparr>"
    and "ap_interrupt ap = None"
  shows "registered_run cd ready request ap =
    \<lparr>oc_request = Some request, oc_ready = if ready then Some (rd_remote_port nr) else None,
      oc_visitors = announced ms, oc_result = Some (end_error e)\<rparr>"
proof -
  obtain line where l: "to_line cd (Registered nr) = Some (line @ [newline])" "newline \<notin> set line"
      "valid_utf8 line" "from_line cd (line @ [newline]) = Some (Registered nr)"
    using sent_line [OF assms(1)] assms(2) by (metis list.set_intros(1))
  have bytes: "send_all cd (Registered nr # ms) [] = line @ newline # send_all cd ms []"
    using send_all_Cons [OF l(1), of ms] by simp
  have "read_line (ap_input ap) =
      (Io_Ok (length line + 1, line @ [newline]), \<lparr>sm_bytes = send_all cd ms [], sm_end = e\<rparr>)"
    unfolding assms(3) bytes by (rule read_line_line [OF l(2,3)])
  with control_loop_messages [OF assms(1), of ms e] assms(2,4) l(4) show ?thesis
    by (simp add: registered_run_def cli_verdict_def)
qed

lemma registered_run_rejected:
  assumes "wire_codec cd" and "valid_utf8 reason"
    and "ap_input ap = \<lparr>sm_bytes = reject cd reason True 0 [] @ rest, sm_end = e\<rparr>"
  shows "registered_run cd ready request ap = failed (Some request) (Refused reason)"
proof -
  have "wf_message (Error \<lparr>em_reason = reason\<rparr>)" using assms(2) by (simp add: wf_message_def)
  then obtain line where l: "to_line cd (Error \<lparr>em_reason = reason\<rparr>) = Some (line @ [newline])"
      "newline \<notin> set line" "valid_utf8 line"
      "from_line cd (line @ [newline]) = Some (Error \<lparr>em_reason = reason\<rparr>)"
    using sent_line [OF assms(1)] by metis
  have "read_line (ap_input ap) =
      (Io_Ok (length line + 1, line @ [newline]), \<lparr>sm_bytes = rest, sm_end = e\<rparr>)"
    using read_line_line [OF l(2,3), of rest e] l(1) by (simp add: assms(3) reject_def send_def)
  with l(4) show ?thesis by (simp add: registered_run_def cli_verdict_def)
qed

text \<open>A run of the tunnel client does what the server's messages say: after the
  registration is confirmed every visitor announced gets exactly one task, in the order of
  the notices, with the node named in its notice, other messages are ignored, the port is
  reported to a waiting worker, and the end of the connection is an error to be retried.\<close>

lemma tunnel_run_serves:
  assumes "wire_codec cd" and "\<forall>m \<in> set (Registered nr # ms). wf_message m"
    and "config_load tc env (ap_files ap) = Inr cfg" and "require_server_addr cfg = Inr addr"
    and "require_token cfg = Inr token" and "valid_name (host_of addr)"
    and "ap_connected ap" and "ap_tls ap" and "ap_written ap"
    and "wf_message (register_request token args (ap_hostname ap))"
    and "ap_input ap = \<lparr>sm_bytes = send_all cd (Registered nr # ms) [], sm_end = e\<rparr>"
    and "ap_interrupt ap = None"
  shows "tunnel_run cd tc env valid_name args ready ap =
    \<lparr>oc_request = Some (register_request token args (ap_hostname ap)),
      oc_ready = if ready then Some (rd_remote_port nr) else None,
      oc_visitors = announced ms, oc_result = Some (end_error e)\<rparr>"
proof -
  have "to_line cd (register_request token args (ap_hostname ap)) \<noteq> None"
    using sent_line [OF assms(1,10)] by (metis option.distinct(1))
  then have "tunnel_run cd tc env valid_name args ready ap =
      registered_run cd ready (register_request token args (ap_hostname ap)) ap"
    using assms(3-9) by (simp only: tunnel_run_def Let_def sum.case) simp
  with registered_run_messages [OF assms(1,2,11,12)] show ?thesis by simp
qed

text \<open>C27: the access token leaves the machine only as configured and only under TLS: a request
  is sent only when a configuration with a server and a token was loaded, the TLS handshake
  with that server succeeded, and it carries that token and the arguments of the command; a
  port is reported only when one is awaited and the server's first line confirms it.\<close>

theorem request_only_as_configured:
  assumes "oc_request (tunnel_run cd tc env valid_name args ready ap) = Some request"
  shows "(\<exists>cfg addr token. config_load tc env (ap_files ap) = Inr cfg \<and>
      cc_server_addr cfg = Some addr \<and> addr \<noteq> [] \<and> cc_token cfg = Some token \<and> token \<noteq> [] \<and>
      valid_name (host_of addr) \<and> ap_connected ap \<and> ap_tls ap \<and>
      request = register_request token args (ap_hostname ap)) \<and>
    (\<forall>port. oc_ready (tunnel_run cd tc env valid_name args ready ap) = Some port \<longrightarrow>
      ready \<and> (\<exists>n line nr. fst (read_line (ap_input ap)) = Io_Ok (n, line) \<and>
        from_line cd line = Some (Registered nr) \<and> rd_remote_port nr = port))"
proof -
  from assms obtain cfg addr token where run: "config_load tc env (ap_files ap) = Inr cfg"
    "require_server_addr cfg = Inr addr" "require_token cfg = Inr token"
    "valid_name (host_of addr)" "ap_connected ap" "ap_tls ap"
    "tunnel_run cd tc env valid_name args ready ap =
      registered_run cd ready (register_request token args (ap_hostname ap)) ap"
    by (auto simp: tunnel_run_def failed_def Let_def split: sum.splits if_splits)
  have "oc_request (registered_run cd ready r ap) = Some r" for r
    by (simp add: registered_run_def failed_def split: prod.split sum.split)
  moreover have "ready \<and> (\<exists>n line nr. fst (read_line (ap_input ap)) = Io_Ok (n, line) \<and>
        from_line cd line = Some (Registered nr) \<and> rd_remote_port nr = port)"
    if "oc_ready (registered_run cd ready r ap) = Some port" for r port
    using that
    by (auto simp: registered_run_def cli_verdict_def failed_def
        split: sum.splits if_splits prod.splits option.splits io_result.splits message.splits)
  ultimately show ?thesis
    using assms run by (auto simp: require_server_addr_def require_token_def required_Inr)
qed

text \<open>C13: a visitor gets to the local service: the notice of a waiting visitor makes the CLI
  dial the data endpoint (the node named in the notice, or the server's data port) and send
  one frame; on the other side that frame puts the CLI's socket into the channel of exactly
  this visitor, and whatever the local service sends next is the first thing the visitor
  gets, not a byte lost.\<close>

theorem visitor_served:
  assumes "wire_codec cd" and "valid_utf8 c" and "\<forall>(host, port) \<in> set_option node. valid_utf8 host"
    and "data_endpoint server_addr node = Inr addr"
    and "rv_pending rv c = Some v" and "rv_visitors rv v = Some vs" and "vs_phase vs = V_Waiting"
  shows "\<exists>notice frame.
    to_line cd (New_Conn \<lparr>nc_conn_id = c, nc_node_host = map_option fst node,
      nc_node_port = map_option snd node\<rparr>) = Some notice \<and>
    control_loop cd None \<lparr>sm_bytes = notice, sm_end = Closed\<rparr> = ([(c, node)], Some Server_Gone) \<and>
    cli_data_conn cd server_addr (c, node) True True True = Spliced addr frame \<and>
    (case serve_data_conn cd d \<lparr>sm_bytes = frame @ reply, sm_end = e\<rparr> rv of (rv', s') \<Rightarrow>
      rv_visitors rv' = (rv_visitors rv)(v \<mapsto> vs\<lparr>vs_inbox := Some d\<rparr>) \<and>
      rv_pending rv' = (rv_pending rv)(c := None) \<and> s' = \<lparr>sm_bytes = reply, sm_end = e\<rparr>)"
proof -
  let ?notice = "New_Conn \<lparr>nc_conn_id = c, nc_node_host = map_option fst node,
    nc_node_port = map_option snd node\<rparr>"
  have wf: "wf_message ?notice" "wf_message (Data_Conn \<lparr>dc_conn_id = c\<rparr>)"
    using assms(2,3) by (auto simp: wf_message_def option_json_def port_json_def split: option.split)
  obtain notice where "to_line cd ?notice = Some notice"
    using sent_line [OF assms(1) wf(1)] by metis
  moreover obtain frame where "to_line cd (Data_Conn \<lparr>dc_conn_id = c\<rparr>) = Some frame"
    using sent_line [OF assms(1) wf(2)] by metis
  ultimately have l: "to_line cd ?notice = Some notice"
      "to_line cd (Data_Conn \<lparr>dc_conn_id = c\<rparr>) = Some frame" .
  have "option_zip (map_option fst node) (map_option snd node) = node"
    by (simp add: option_zip_def split: option.split)
  then have "control_loop cd None \<lparr>sm_bytes = notice, sm_end = Closed\<rparr> = ([(c, node)], Some Server_Gone)"
    using control_loop_sent [OF assms(1) wf(1) l(1), of "[]" Closed] control_loop_end [of cd Closed]
    by (simp add: end_error_def)
  moreover have "cli_data_conn cd server_addr (c, node) True True True = Spliced addr frame"
    using assms(4) l(2) by (simp add: cli_data_conn_def)
  moreover note data_conn_delivers [OF assms(1,2) l(2) assms(5-7), of d reply e]
  ultimately show ?thesis
    by (intro exI [of _ notice] exI [of _ frame] conjI l(1))
qed

lemma retries:
  assumes "n \<le> 3"
  shows "case run_tunnel_loop run n ready of (ocs, result) \<Rightarrow>
    ocs \<noteq> [] \<and> n + length ocs \<le> 4 \<and>
    (\<forall>k < length ocs. ocs ! k = run (n + k) (k = 0 \<and> ready)) \<and>
    (\<forall>oc \<in> set (butlast ocs). oc_result oc \<noteq> None) \<and>
    result = oc_result (last ocs) \<and> (result \<noteq> None \<longrightarrow> n + length ocs = 4)"
  using assms
proof (induction run n ready rule: run_tunnel_loop.induct)
  case (1 run n ready)
  show ?case
  proof (cases "oc_result (run n ready)")
    case None
    with 1 show ?thesis by (simp add: run_tunnel_loop.simps [of run n])
  next
    case (Some e)
    show ?thesis
    proof (cases "n < 3")
      case True
      obtain ocs result where r: "run_tunnel_loop run (n + 1) False = (ocs, result)"
        by (cases "run_tunnel_loop run (n + 1) False")
      have "run_tunnel_loop run n ready = (run n ready # ocs, result)"
        using Some True r by (simp add: run_tunnel_loop.simps [of run n])
      with "1.IH" [OF refl Some True] True Some r show ?thesis
        by (auto simp: nth_Cons split: nat.split)
    next
      case False
      then have "run_tunnel_loop run n ready = ([run n ready], Some e)"
        using Some by (simp add: run_tunnel_loop.simps [of run n])
      with Some False 1 show ?thesis by simp
    qed
  qed
qed

text \<open>C28: retries are bounded and honest: a tunnel is run at least once and at most four times;
  all runs but the last failed; the command ends well exactly when the last run was shut
  down cleanly, and otherwise with the error of the fourth; only the first run is given the
  sender that reports the port.\<close>

theorem retries_bounded:
  "case run_tunnel_loop run 0 ready of (ocs, result) \<Rightarrow>
    ocs \<noteq> [] \<and> length ocs \<le> 4 \<and>
    (\<forall>k < length ocs. ocs ! k = run k (k = 0 \<and> ready)) \<and>
    (\<forall>oc \<in> set (butlast ocs). oc_result oc \<noteq> None) \<and>
    result = oc_result (last ocs) \<and> (result \<noteq> None \<longrightarrow> length ocs = 4)"
  using retries [of 0 run ready] by simp

lemma retries_bounded_witness:
  "case run_tunnel_loop (\<lambda>n _. failed None (if n = 0 then Server_Gone else Unexpected_Reply)) 0 True of
     (ocs, result) \<Rightarrow> length ocs = 4 \<and> ocs ! 0 = failed None Server_Gone \<and> result = Some Unexpected_Reply"
proof -
  define run :: "nat \<Rightarrow> bool \<Rightarrow> outcome"
    where "run n ready = failed None (if n = 0 then Server_Gone else Unexpected_Reply)" for n ready
  obtain ocs result where r: "run_tunnel_loop run 0 True = (ocs, result)"
    by (cases "run_tunnel_loop run 0 True")
  have b: "ocs \<noteq> []" "\<forall>k < length ocs. ocs ! k = run k (k = 0 \<and> True)" "result = oc_result (last ocs)"
    "result \<noteq> None \<longrightarrow> length ocs = 4"
    using retries_bounded [of run True] unfolding r by auto
  have last: "last ocs = run (length ocs - 1) (length ocs - 1 = 0)"
    using b(1) spec [OF b(2), of "length ocs - 1"] by (simp add: last_conv_nth)
  with b(3) have "result = oc_result (run (length ocs - 1) (length ocs - 1 = 0))" by simp
  then have "result \<noteq> None" by (simp add: run_def failed_def)
  with b(4) have four: "length ocs = 4" by simp
  have "ocs ! 0 = run 0 True" using b(1) spec [OF b(2), of 0] by simp
  moreover from last b(3) four have "result = oc_result (run 3 False)" by simp
  ultimately have "length ocs = 4 \<and> ocs ! 0 = failed None Server_Gone \<and> result = Some Unexpected_Reply"
    using four by (simp add: run_def failed_def)
  then show ?thesis using r by (simp add: run_def [abs_def])
qed


section \<open>A sample run\<close>

definition sample_args :: start_args where
  "sample_args = \<lparr>sa_local_port = 8080, sa_remote_port = None, sa_protocol = Http, sa_node = None\<rparr>"

definition sample_home :: cli_env where
  "sample_home = \<lparr>ev_home = Some ''/root'', ev_userprofile = None\<rparr>"

definition sample_settings :: cli_config where
  "sample_settings = cli_config_default\<lparr>cc_server_addr := Some ''s:7000'', cc_token := Some ''t''\<rparr>"

definition sample_disk :: files where
  "sample_disk = snd (config_save config_codec sample_home sample_settings Written Map.empty)"

definition sample_attempt :: "string \<Rightarrow> attempt" where
  "sample_attempt bytes = \<lparr>ap_files = sample_disk, ap_connected = True, ap_tls = True,
     ap_written = True, ap_hostname = Some ''h'', ap_input = \<lparr>sm_bytes = bytes, sm_end = Closed\<rparr>,
     ap_interrupt = None\<rparr>"

lemma sample_settings_load:
  "config_load config_codec sample_home sample_disk = Inr sample_settings"
  "require_server_addr sample_settings = Inr ''s:7000''"
  "require_token sample_settings = Inr ''t''"
proof -
  have good: "wf_config sample_settings"
    by (simp add: sample_settings_def cli_config_default_def wf_config_def wf_text_def valid_utf8_ascii)
  have "config_path sample_home = Inr ''/root/.borehole.json''"
    by (simp add: config_path_def home_dir_def sample_home_def path_join_def)
  from config_saved(3) [OF config_file.text_format_axioms good this refl]
  show "config_load config_codec sample_home sample_disk = Inr sample_settings"
    by (simp add: sample_disk_def)
qed (simp_all add: sample_settings_def require_server_addr_def require_token_def required_Inr)

definition sample_request :: message where
  "sample_request = register_request ''t'' sample_args (Some ''h'')"

lemma sample_request_wf: "wf_message sample_request"
  by (simp add: sample_request_def register_request_def sample_args_def wf_message_def
      option_json_def protocol_json_def port_json_def valid_utf8_ascii)

lemma sample_sent:
  "tunnel_run json_codec config_codec sample_home (\<lambda>_. True) sample_args ready (sample_attempt bytes) =
     registered_run json_codec ready sample_request (sample_attempt bytes)"
proof -
  have "to_line json_codec sample_request \<noteq> None"
    using sent_line [OF json.wire_codec_axioms sample_request_wf] by (metis option.distinct(1))
  then show ?thesis
    using sample_settings_load
    by (auto simp: tunnel_run_def sample_attempt_def sample_request_def Let_def)
qed

lemma sample_request_sent:
  "oc_request (tunnel_run json_codec config_codec sample_home (\<lambda>_. True) sample_args ready
     (sample_attempt bytes)) = Some sample_request"
  by (simp add: sample_sent registered_run_def failed_def split: prod.split sum.split)

abbreviation sample_notices :: "message list" where
  "sample_notices \<equiv> [New_Conn \<lparr>nc_conn_id = ''k'', nc_node_host = None, nc_node_port = None\<rparr>,
     New_Conn \<lparr>nc_conn_id = ''l'', nc_node_host = Some ''n'', nc_node_port = Some 7002\<rparr>]"

abbreviation sample_registered :: registered where
  "sample_registered \<equiv> \<lparr>rd_remote_port = 30001, rd_node_host = None, rd_node_port = None\<rparr>"

lemma tunnel_run_serves_sample:
  "tunnel_run json_codec config_codec sample_home (\<lambda>_. True) sample_args True
     (sample_attempt (send_all json_codec (Registered sample_registered # sample_notices) [])) =
   \<lparr>oc_request = Some sample_request, oc_ready = Some 30001,
     oc_visitors = [(''k'', None), (''l'', Some (''n'', 7002))], oc_result = Some Server_Gone\<rparr>"
proof -
  have good: "\<forall>m \<in> set (Registered sample_registered # sample_notices). wf_message m"
    by (simp add: wf_message_def option_json_def port_json_def valid_utf8_ascii)
  let ?ap = "sample_attempt (send_all json_codec (Registered sample_registered # sample_notices) [])"
  have "tunnel_run json_codec config_codec sample_home (\<lambda>_. True) sample_args True ?ap =
    \<lparr>oc_request = Some (register_request ''t'' sample_args (ap_hostname ?ap)),
      oc_ready = if True then Some (rd_remote_port sample_registered) else None,
      oc_visitors = announced sample_notices, oc_result = Some (end_error Closed)\<rparr>"
    by (rule tunnel_run_serves [OF json.wire_codec_axioms good, of config_codec sample_home ?ap
          sample_settings "''s:7000''" "''t''" "\<lambda>_. True" sample_args])
      (use sample_settings_load sample_request_wf in
        \<open>simp_all add: sample_attempt_def sample_request_def del: send_all.simps\<close>)
  then show ?thesis
    by (simp add: sample_request_def sample_attempt_def option_zip_def end_error_def del: send_all.simps)
qed

theorem request_only_as_configured_witness:
  "\<exists>cfg addr token. config_load config_codec sample_home sample_disk = Inr cfg \<and>
     cc_server_addr cfg = Some addr \<and> cc_token cfg = Some token \<and>
     sample_request = register_request token sample_args (Some ''h'')"
  using request_only_as_configured [OF sample_request_sent [of True "[]"]]
  by (auto simp: sample_attempt_def)

theorem visitor_served_witness:
  "\<exists>notice frame. control_loop json_codec None \<lparr>sm_bytes = notice, sm_end = Closed\<rparr> =
     ([(''k'', None)], Some Server_Gone) \<and>
   (case serve_data_conn json_codec 2 \<lparr>sm_bytes = frame @ ''GET'', sm_end = Closed\<rparr> sample_waiting of
     (rv', s') \<Rightarrow> rv_pending rv' ''k'' = None \<and> sm_bytes s' = ''GET'')"
proof -
  have "data_endpoint ''s:7000'' None = Inr (''s:'' @ show_u16 7001)"
    using data_addr_of_Inr [of "''s:7000''" "''s''" "''7000''" 7000]
    by (simp add: data_endpoint_def parse_u16_def digit_val_def saturating_add_u16_def)
  from visitor_served [OF json.wire_codec_axioms _ _ this sample_waiting_visitor(2,1), of 2 "''GET''" Closed]
  obtain notice frame where served:
    "control_loop json_codec None \<lparr>sm_bytes = notice, sm_end = Closed\<rparr> = ([(''k'', None)], Some Server_Gone)"
    "case serve_data_conn json_codec 2 \<lparr>sm_bytes = frame @ ''GET'', sm_end = Closed\<rparr> sample_waiting of
      (rv', s') \<Rightarrow> rv_pending rv' = (rv_pending sample_waiting)(''k'' := None) \<and>
        s' = \<lparr>sm_bytes = ''GET'', sm_end = Closed\<rparr>"
    by (auto simp: valid_utf8_ascii case_prod_beta)
  then show ?thesis
    by (intro exI [of _ notice] exI [of _ frame] conjI) (simp_all add: case_prod_beta)
qed


end
