(* ===== verification/Cli_Background.thy ===== *)
theory Cli_Background
  imports Cli_Records Cli_Tunnel
begin

text \<open>
  Background tunnels: \<open>run_start\<close>, \<open>detach_tunnel\<close>, \<open>run_worker\<close>, \<open>run_stop\<close>, \<open>kill_process\<close>
  and \<open>shutdown_signal\<close> of \<open>crates/cli/src/main.rs\<close>, as processes that share the files of the
  registry: the worker of one tunnel, the task of the worker that waits for the port, and any
  number of \<open>borehole stop\<close> commands for the tunnel. A step is one file operation or signal.

  Processes are those of Unix: a termination signal ends a worker that has not installed its
  handler yet, and is a request to a worker that has. The existence check and the removal in
  \<open>TunnelRecord::remove\<close> are two steps.
\<close>

section \<open>Starting\<close>

definition protocol_name :: "protocol \<Rightarrow> string" where
  "protocol_name p = (case p of Tcp \<Rightarrow> ''tcp'' | Http \<Rightarrow> ''http'')"

datatype start_error = Record_Failed record_error | No_Executable | Not_Spawned

text \<open>The record of a new tunnel; \<open>uuid\<close> is the simple form of a fresh UUID.\<close>

definition new_record :: "string \<Rightarrow> start_args \<Rightarrow> tunnel_record" where
  "new_record uuid args =
     \<lparr>tr_id = take 8 uuid, tr_pid = 0, tr_protocol = protocol_name (sa_protocol args),
      tr_local_port = sa_local_port args, tr_remote_port = sa_remote_port args,
      tr_node = sa_node args, tr_state = STATE_STARTING\<rparr>"

definition detach_tunnel ::
    "tunnel_record text_codec \<Rightarrow> cli_env \<Rightarrow> bool \<Rightarrow> string \<Rightarrow> start_args \<Rightarrow> write_end \<Rightarrow> bool \<Rightarrow>
      bool \<Rightarrow> files \<Rightarrow> (start_error + string) \<times> files" where
  "detach_tunnel tc env made uuid args w exe spawned fs =
     (let record = new_record uuid args
      in case record_save tc env made record w fs of
           (Some e, fs') \<Rightarrow> (Inl (Record_Failed e), fs')
         | (None, fs') \<Rightarrow>
             if \<not> exe then (Inl No_Executable, fs')
             else if \<not> spawned then (Inl Not_Spawned, fs')
             else (Inr (tr_id record), fs'))"

text \<open>The command \<open>start\<close>: \<open>run\<close> are the runs of the tunnel client in the foreground.\<close>

datatype start_cmd = Start_Tcp u16 "u16 option" | Start_Http u16 "u16 option"

definition args_of :: "start_cmd \<Rightarrow> string option \<Rightarrow> start_args" where
  "args_of cmd node =
     (case cmd of
        Start_Tcp port remote_port \<Rightarrow> \<lparr>sa_local_port = port, sa_remote_port = remote_port,
          sa_protocol = Tcp, sa_node = node\<rparr>
      | Start_Http port remote_port \<Rightarrow> \<lparr>sa_local_port = port, sa_remote_port = remote_port,
          sa_protocol = Http, sa_node = node\<rparr>)"

datatype start_result =
    Detached "start_error + string"
  | Foreground "outcome list" "run_error option"

definition run_start ::
    "tunnel_record text_codec \<Rightarrow> cli_env \<Rightarrow> bool \<Rightarrow> string \<Rightarrow> write_end \<Rightarrow> bool \<Rightarrow> bool \<Rightarrow>
      (start_args \<Rightarrow> nat \<Rightarrow> bool \<Rightarrow> outcome) \<Rightarrow> start_cmd \<Rightarrow> bool \<Rightarrow> string option \<Rightarrow> files \<Rightarrow>
      start_result \<times> files" where
  "run_start tc env made uuid w exe spawned run cmd detach node fs =
     (let args = args_of cmd node
      in if detach
         then (case detach_tunnel tc env made uuid args w exe spawned fs of
                 (r, fs') \<Rightarrow> (Detached r, fs'))
         else (case run_tunnel_loop (run args) 0 False of
                 (ocs, result) \<Rightarrow> (Foreground ocs result, fs)))"

text \<open>The worker takes the tunnel's arguments from the record.\<close>

definition worker_args :: "tunnel_record \<Rightarrow> start_args" where
  "worker_args r = \<lparr>sa_local_port = tr_local_port r, sa_remote_port = tr_remote_port r,
     sa_protocol = (if tr_protocol r = ''http'' then Http else Tcp), sa_node = tr_node r\<rparr>"

section \<open>Processes\<close>

datatype worker_pc =
    W_Load
  | W_Save tunnel_record       \<comment> \<open>loaded; about to save this record\<close>
  | W_Serve start_args bool    \<comment> \<open>the tunnel runs; is the signal handler installed?\<close>
  | W_Check                    \<comment> \<open>about to check for the record\<close>
  | W_Unlink                   \<comment> \<open>the record exists; about to remove it\<close>
  | W_Clean                    \<comment> \<open>the process ended after its cleanup\<close>
  | W_Gone                     \<comment> \<open>the process ended without one: an error or a signal\<close>

datatype notice_pc =
    N_Idle                     \<comment> \<open>not spawned\<close>
  | N_Wait                     \<comment> \<open>the channel is open\<close>
  | N_Port u16                 \<comment> \<open>the port was sent\<close>
  | N_Save tunnel_record       \<comment> \<open>the record was loaded and changed; about to save it\<close>
  | N_End

datatype stop_pc =
    T_Load
  | T_Kill u32
  | T_Check bool               \<comment> \<open>was the worker signalled?\<close>
  | T_Unlink bool
  | T_Stopped bool             \<comment> \<open>reported success\<close>
  | T_Failed

record background =
  bg_files :: files
  bg_worker :: worker_pc
  bg_notice :: notice_pc
  bg_port :: "u16 option"      \<comment> \<open>the port that was sent\<close>
  bg_stops :: "nat \<Rightarrow> stop_pc"

record bg_context =
  bx_codec :: "tunnel_record text_codec"
  bx_env :: cli_env
  bx_record :: tunnel_record    \<comment> \<open>what \<open>detach_tunnel\<close> saved\<close>
  bx_path :: string             \<comment> \<open>where\<close>
  bx_pid :: u32                 \<comment> \<open>of the worker's process\<close>

definition bg_load :: "bg_context \<Rightarrow> background \<Rightarrow> record_error + tunnel_record" where
  "bg_load bx bg = record_load (bx_codec bx) (bx_env bx) True (tr_id (bx_record bx)) (bg_files bg)"

definition bg_save :: "bg_context \<Rightarrow> tunnel_record \<Rightarrow> write_end \<Rightarrow> background \<Rightarrow> record_error option \<times> background" where
  "bg_save bx r w bg =
     (case record_save (bx_codec bx) (bx_env bx) True r w (bg_files bg) of
        (e, fs) \<Rightarrow> (e, bg\<lparr>bg_files := fs\<rparr>))"

section \<open>The worker\<close>

definition worker_load :: "bg_context \<Rightarrow> background \<Rightarrow> background" where
  "worker_load bx bg =
     (case bg_load bx bg of
        Inl _ \<Rightarrow> bg\<lparr>bg_worker := W_Gone\<rparr>
      | Inr r \<Rightarrow> bg\<lparr>bg_worker := W_Save (r\<lparr>tr_pid := bx_pid bx, tr_state := STATE_STARTING\<rparr>)\<rparr>)"

definition worker_save :: "bg_context \<Rightarrow> tunnel_record \<Rightarrow> write_end \<Rightarrow> background \<Rightarrow> background" where
  "worker_save bx r w bg =
     (case bg_save bx r w bg of
        (Some _, bg') \<Rightarrow> bg'\<lparr>bg_worker := W_Gone\<rparr>
      | (None, bg') \<Rightarrow> bg'\<lparr>bg_worker := W_Serve (worker_args r) False, bg_notice := N_Wait\<rparr>)"

definition worker_listen :: "start_args \<Rightarrow> background \<Rightarrow> background" where
  "worker_listen args bg = bg\<lparr>bg_worker := W_Serve args True\<rparr>"

text \<open>The first run reports the port, or ends without one and drops the sender.\<close>

definition worker_report :: "u16 option \<Rightarrow> background \<Rightarrow> background" where
  "worker_report port bg =
     bg\<lparr>bg_notice := (case port of Some p \<Rightarrow> N_Port p | None \<Rightarrow> N_End), bg_port := port\<rparr>"

text \<open>The select ends: a signal, or the loop of runs returned.\<close>

definition worker_leave :: "background \<Rightarrow> background" where
  "worker_leave bg = bg\<lparr>bg_worker := W_Check\<rparr>"

definition worker_check :: "bg_context \<Rightarrow> background \<Rightarrow> background" where
  "worker_check bx bg =
     bg\<lparr>bg_worker := if path_exists (bx_path bx) (bg_files bg) then W_Unlink else W_Clean\<rparr>"

text \<open>The result of the removal is ignored, \<open>ok\<close> its outcome on a file that exists.\<close>

definition worker_unlink :: "bg_context \<Rightarrow> bool \<Rightarrow> background \<Rightarrow> background" where
  "worker_unlink bx ok bg =
     (case remove_file (bx_path bx) ok (bg_files bg) of
        (_, fs) \<Rightarrow> bg\<lparr>bg_files := fs,
          bg_worker := if ok then W_Clean else W_Gone\<rparr>)"

section \<open>The task that waits for the port\<close>

definition notice_load :: "bg_context \<Rightarrow> u16 \<Rightarrow> background \<Rightarrow> background" where
  "notice_load bx port bg =
     (case bg_load bx bg of
        Inl _ \<Rightarrow> bg\<lparr>bg_notice := N_End\<rparr>
      | Inr r \<Rightarrow> bg\<lparr>bg_notice := N_Save (r\<lparr>tr_remote_port := Some port, tr_state := STATE_ACTIVE\<rparr>)\<rparr>)"

definition notice_save :: "bg_context \<Rightarrow> tunnel_record \<Rightarrow> write_end \<Rightarrow> background \<Rightarrow> background" where
  "notice_save bx r w bg = (snd (bg_save bx r w bg))\<lparr>bg_notice := N_End\<rparr>"

section \<open>The command stop\<close>

definition stop_load :: "bg_context \<Rightarrow> nat \<Rightarrow> background \<Rightarrow> background" where
  "stop_load bx k bg =
     bg\<lparr>bg_stops := (bg_stops bg)(k :=
       case bg_load bx bg of
         Inl _ \<Rightarrow> T_Failed
       | Inr r \<Rightarrow> if tr_pid r \<noteq> 0 then T_Kill (tr_pid r) else T_Check False)\<rparr>"

text \<open>What a termination signal does to the worker.\<close>

definition signalled :: "worker_pc \<Rightarrow> worker_pc" where
  "signalled w =
     (case w of
        W_Serve _ True \<Rightarrow> W_Check
      | W_Check \<Rightarrow> W_Check | W_Unlink \<Rightarrow> W_Unlink | W_Clean \<Rightarrow> W_Clean
      | _ \<Rightarrow> W_Gone)"

text \<open>The exit status of \<open>kill\<close> is ignored; \<open>launched\<close> says whether the tool could be run. A process
  that ended takes its task with it.\<close>

definition stop_kill :: "bg_context \<Rightarrow> nat \<Rightarrow> u32 \<Rightarrow> bool \<Rightarrow> background \<Rightarrow> background" where
  "stop_kill bx k pid launched bg =
     (if \<not> launched then bg\<lparr>bg_stops := (bg_stops bg)(k := T_Failed)\<rparr>
      else
        (let w = (if pid = bx_pid bx then signalled (bg_worker bg) else bg_worker bg)
         in bg\<lparr>bg_stops := (bg_stops bg)(k := T_Check True), bg_worker := w,
               bg_notice := if w = W_Gone \<and> bg_notice bg \<noteq> N_Idle then N_End else bg_notice bg\<rparr>))"

definition stop_check :: "bg_context \<Rightarrow> nat \<Rightarrow> bool \<Rightarrow> background \<Rightarrow> background" where
  "stop_check bx k killed bg =
     bg\<lparr>bg_stops := (bg_stops bg)(k :=
       if path_exists (bx_path bx) (bg_files bg) then T_Unlink killed else T_Stopped killed)\<rparr>"

definition stop_unlink :: "bg_context \<Rightarrow> nat \<Rightarrow> bool \<Rightarrow> bool \<Rightarrow> background \<Rightarrow> background" where
  "stop_unlink bx k killed ok bg =
     (case remove_file (bx_path bx) ok (bg_files bg) of
        (r, fs) \<Rightarrow> bg\<lparr>bg_files := fs,
          bg_stops := (bg_stops bg)(k := if r then T_Stopped killed else T_Failed)\<rparr>)"

section \<open>Steps\<close>

text \<open>Once the worker has ended, its waiting task is gone, unless it is between load and save.\<close>

definition worker_alive :: "worker_pc \<Rightarrow> bool" where
  "worker_alive w \<longleftrightarrow> w \<noteq> W_Clean \<and> w \<noteq> W_Gone"

inductive bg_step :: "bg_context \<Rightarrow> background \<Rightarrow> background \<Rightarrow> bool" for bx where
  w_load: "bg_worker bg = W_Load \<Longrightarrow> bg_step bx bg (worker_load bx bg)"
| w_save: "bg_worker bg = W_Save r \<Longrightarrow> bg_step bx bg (worker_save bx r w bg)"
| w_listen: "bg_worker bg = W_Serve args False \<Longrightarrow> bg_step bx bg (worker_listen args bg)"
| w_report: "bg_worker bg = W_Serve args b \<Longrightarrow> bg_notice bg = N_Wait \<Longrightarrow>
    bg_step bx bg (worker_report port bg)"
| w_leave: "bg_worker bg = W_Serve args b \<Longrightarrow> bg_step bx bg (worker_leave bg)"
| w_check: "bg_worker bg = W_Check \<Longrightarrow> bg_step bx bg (worker_check bx bg)"
| w_unlink: "bg_worker bg = W_Unlink \<Longrightarrow> bg_step bx bg (worker_unlink bx ok bg)"
| n_load: "bg_notice bg = N_Port p \<Longrightarrow> worker_alive (bg_worker bg) \<Longrightarrow>
    bg_step bx bg (notice_load bx p bg)"
| n_save: "bg_notice bg = N_Save r \<Longrightarrow> bg_step bx bg (notice_save bx r w bg)"
| t_load: "bg_stops bg k = T_Load \<Longrightarrow> bg_step bx bg (stop_load bx k bg)"
| t_kill: "bg_stops bg k = T_Kill pid \<Longrightarrow> bg_step bx bg (stop_kill bx k pid launched bg)"
| t_check: "bg_stops bg k = T_Check killed \<Longrightarrow> bg_step bx bg (stop_check bx k killed bg)"
| t_unlink: "bg_stops bg k = T_Unlink killed \<Longrightarrow> bg_step bx bg (stop_unlink bx k killed ok bg)"

text \<open>A tunnel starts with its record saved and its worker spawned.\<close>

definition bg_start :: "bg_context \<Rightarrow> files \<Rightarrow> background" where
  "bg_start bx fs = \<lparr>bg_files = fs, bg_worker = W_Load, bg_notice = N_Idle, bg_port = None,
     bg_stops = (\<lambda>_. T_Load)\<rparr>"

inductive bg_reachable :: "bg_context \<Rightarrow> background \<Rightarrow> bool" for bx where
  start: "record_save (bx_codec bx) (bx_env bx) True (bx_record bx) Written fs = (None, fs') \<Longrightarrow>
    bg_reachable bx (bg_start bx fs')"
| step: "bg_reachable bx bg \<Longrightarrow> bg_step bx bg bg' \<Longrightarrow> bg_reachable bx bg'"

end
