(* ===== verification/Cli_List.thy ===== *)
theory Cli_List
  imports Cli_Records "HOL-Library.Multiset"
begin

text \<open>
  The command \<open>borehole list\<close>: the table that \<open>run_list\<close> of \<open>crates/cli/src/main.rs\<close> prints
  from the registry of background tunnels, one line per record.
\<close>

section \<open>The table\<close>

text \<open>A width of \<open>format!\<close> counts characters: bytes of UTF-8 that do not continue one. A field
  that is too long is not cut.\<close>

definition char_count :: "string \<Rightarrow> nat" where
  "char_count s = length (filter (\<lambda>c. \<not> continuation c) s)"

definition pad :: "nat \<Rightarrow> string \<Rightarrow> string" where
  "pad n s = s @ replicate (n - char_count s) (CHR '' '')"

definition list_empty :: string where
  "list_empty = ''No hay t'' @ [CHR 0xC3, CHR 0xBA] @ ''neles en background.'' @ [newline]"

definition table_line :: "string \<Rightarrow> string \<Rightarrow> string \<Rightarrow> string \<Rightarrow> string \<Rightarrow> string" where
  "table_line a b c d e =
     pad 11 a @ '' '' @ pad 6 b @ '' '' @ pad 8 c @ '' '' @ pad 8 d @ '' '' @ e @ [newline]"

definition local_column :: "tunnel_record \<Rightarrow> string" where
  "local_column r = '':'' @ show_u16 (tr_local_port r)"

definition remote_column :: "tunnel_record \<Rightarrow> string" where
  "remote_column r = (case tr_remote_port r of Some p \<Rightarrow> '':'' @ show_u16 p | None \<Rightarrow> ''-'')"

definition list_row :: "tunnel_record \<Rightarrow> string" where
  "list_row r = table_line (tr_id r) (tr_protocol r) (local_column r) (remote_column r) (tr_state r)"

text \<open>The lines printed.\<close>

definition run_list ::
    "tunnel_record text_codec \<Rightarrow> cli_env \<Rightarrow> bool \<Rightarrow> bool \<Rightarrow> string option list option \<Rightarrow> files \<Rightarrow>
      record_error + string list" where
  "run_list tc env made present entries fs =
     (case record_list tc env made present entries fs of
        Inl e \<Rightarrow> Inl e
      | Inr records \<Rightarrow>
          Inr (if records = [] then [list_empty]
               else table_line ''ID'' ''PROTO'' ''LOCAL'' ''REMOTO'' ''ESTADO'' # map list_row records))"

section \<open>Reading the columns\<close>

text \<open>A piece of text that no white space can start in.\<close>

definition word :: "string \<Rightarrow> bool" where
  "word s \<longleftrightarrow> s \<noteq> [] \<and> set s \<inter> set space_leads = {}"

lemma space_head_separator [simp]:
  "space_head (CHR '' '' # s) = Some [CHR '' '']" "space_head (newline # s) = Some [newline]"
  by (simp_all add: space_head_def white_space_def)

lemma split_blanks [simp]:
  "split_whitespace (replicate n (CHR '' '') @ s) = split_whitespace s"
  "split_whitespace (CHR '' '' # s) = split_whitespace s"
proof -
  show one: "split_whitespace (CHR '' '' # s) = split_whitespace s" for s
    by (simp add: split_whitespace.simps [of "CHR '' '' # s"])
  show "split_whitespace (replicate n (CHR '' '') @ s) = split_whitespace s"
    by (induction n) (simp_all add: one)
qed

lemma split_newline [simp]: "split_whitespace [newline] = []"
  by (simp add: split_whitespace.simps [of "[newline]"] split_whitespace.simps [of "[]"])

lemma take_token_word:
  assumes "set w \<inter> set space_leads = {}" and "space_head s \<noteq> None"
  shows "take_token (w @ s) = (w, s)"
  using assms(1)
proof (induction w)
  case Nil
  from assms(2) show ?case by (cases s) auto
next
  case (Cons x w)
  then show ?case using space_head_None [of x "w @ s"] by simp
qed

lemma split_word:
  assumes "word w" and "space_head s \<noteq> None"
  shows "split_whitespace (w @ s) = w # split_whitespace s"
proof -
  from assms(1) obtain x xs where w: "w = x # xs" "x \<notin> set space_leads" "set xs \<inter> set space_leads = {}"
    by (cases w) (auto simp: word_def)
  show ?thesis
    using take_token_word [OF w(3) assms(2)] space_head_None [OF w(2), of "xs @ s"]
    by (simp add: w(1) split_whitespace.simps [of "x # xs @ s"])
qed

lemma split_column:
  "word w \<Longrightarrow> split_whitespace (pad n w @ '' '' @ s) = w # split_whitespace s"
  using split_word [of w "replicate (n - char_count w) (CHR '' '') @ '' '' @ s"]
  by (cases "n - char_count w") (simp_all add: pad_def)

lemma split_table_line:
  assumes "word a" and "word b" and "word c" and "word d" and "word e"
  shows "split_whitespace (table_line a b c d e) = [a, b, c, d, e]"
proof -
  have "split_whitespace (e @ [newline]) = [e]" using split_word [OF assms(5), of "[newline]"] by simp
  then show ?thesis
    unfolding table_line_def
    by (simp only: split_column [OF assms(1)] split_column [OF assms(2)] split_column [OF assms(3)]
        split_column [OF assms(4)])
qed

lemma word_port: "word ('':'' @ show_u16 p)"
proof -
  have "c \<notin> set space_leads" if "c \<in> set (show_u16 p)" for c
    using show_nat_bytes [OF that] by (auto simp: space_leads_def)
  then have "set (show_u16 p) \<inter> set space_leads = {}" by blast
  moreover have "CHR '':'' \<notin> set space_leads" by (simp add: space_leads_def)
  ultimately show ?thesis unfolding word_def by simp
qed

lemma column_words: "word (local_column r)" "word (remote_column r)"
proof -
  have "word ''-''" by (simp add: word_def space_leads_def)
  then show "word (local_column r)" "word (remote_column r)"
    using word_port unfolding local_column_def remote_column_def by (simp_all split: option.split)
qed

section \<open>The rows\<close>

text \<open>The record that an entry of the directory contributes.\<close>

definition entry_record ::
    "tunnel_record text_codec \<Rightarrow> files \<Rightarrow> string option \<Rightarrow> tunnel_record option" where
  "entry_record tc fs entry =
     Option.bind entry (\<lambda>path.
       if path_extension path = Some ''json''
       then (case load_json tc path fs of Inr r \<Rightarrow> Some r | Inl _ \<Rightarrow> None) else None)"

lemma list_entries_records:
  "None \<notin> set entries \<Longrightarrow> list_entries tc fs entries = Some (List.map_filter (entry_record tc fs) entries)"
proof (induction entries)
  case (Cons entry entries)
  then show ?case
    by (cases entry) (auto simp: entry_record_def List.map_filter_simps split: sum.split)
qed (simp add: List.map_filter_simps)

section \<open>Properties\<close>



end
