(* ===== verification/Cli_Main.thy ===== *)
theory Cli_Main
  imports Cli_Background Cli_List
begin

text \<open>
  The entry of the CLI, \<open>main\<close> of \<open>crates/cli/src/main.rs\<close>: the commands that clap parses and
  the dispatch on them, and \<open>run_stop\<close> as the one function it is in the source. The worker
  goes on as a process of \<open>Cli_Background\<close>; the steps of a stop there, undisturbed, are this
  function.
\<close>

section \<open>Stopping\<close>

datatype stop_error = Stop_Record record_error | Stop_Signal

text \<open>\<open>launched\<close>: could the tool \<open>kill\<close> be run? \<open>ok\<close>: the outcome of removing a file that is
  there. The result says which process was signalled.\<close>

definition kill_process :: "u32 \<Rightarrow> bool \<Rightarrow> stop_error + u32" where
  "kill_process pid launched = (if launched then Inr pid else Inl Stop_Signal)"

definition run_stop ::
    "tunnel_record text_codec \<Rightarrow> cli_env \<Rightarrow> bool \<Rightarrow> string \<Rightarrow> bool \<Rightarrow> bool \<Rightarrow> files \<Rightarrow>
      (stop_error option \<times> u32 option) \<times> files" where
  "run_stop tc env made tid launched ok fs =
     (case record_load tc env made tid fs of
        Inl e \<Rightarrow> ((Some (Stop_Record e), None), fs)
      | Inr r \<Rightarrow>
          (case (if tr_pid r \<noteq> 0 then map_sum id Some (kill_process (tr_pid r) launched) else Inr None) of
             Inl e \<Rightarrow> ((Some e, None), fs)
           | Inr killed \<Rightarrow>
               (case record_remove env made tid ok fs of
                  (e, fs') \<Rightarrow> ((map_option Stop_Record e, killed), fs'))))"

section \<open>Commands\<close>

datatype cli_command =
    Cmd_Config "string option" "string option" "string option"
  | Cmd_Login
  | Cmd_Start start_cmd bool "string option"
  | Cmd_List
  | Cmd_Stop string
  | Cmd_Worker string

text \<open>What the commands meet: the environment, the terminal, the browser, the outcomes of file and
  process operations, and the runs of the tunnel client.\<close>

record cli_world =
  cw_configs :: "cli_config text_codec"
  cw_records :: "tunnel_record text_codec"
  cw_env :: cli_env
  cw_stdin :: stream
  cw_write :: write_end
  cw_bound :: bool
  cw_browser :: browser
  cw_made :: bool
  cw_uuid :: string
  cw_exe :: bool
  cw_spawned :: bool
  cw_run :: "start_args \<Rightarrow> nat \<Rightarrow> bool \<Rightarrow> outcome"
  cw_present :: bool
  cw_entries :: "string option list option"
  cw_launched :: bool
  cw_removed :: bool

datatype cli_end =
    Config_End "cli_error option"
  | Start_End start_result
  | List_End "record_error + string list"
  | Stop_End "stop_error option \<times> u32 option"
  | Worker_Of string    \<comment> \<open>goes on as the worker of this record\<close>

definition cli_main :: "cli_world \<Rightarrow> cli_command \<Rightarrow> files \<Rightarrow> cli_end \<times> files" where
  "cli_main w cmd fs =
     (case cmd of
        Cmd_Config server token url \<Rightarrow>
          (case run_config (cw_configs w) (cw_env w) server token url (cw_stdin w) (cw_write w) fs of
             (e, fs') \<Rightarrow> (Config_End e, fs'))
      | Cmd_Login \<Rightarrow>
          (case run_login (cw_configs w) (cw_env w) (cw_bound w) (cw_browser w) (cw_write w) fs of
             (e, fs') \<Rightarrow> (Config_End e, fs'))
      | Cmd_Start protocol detach node \<Rightarrow>
          (case run_start (cw_records w) (cw_env w) (cw_made w) (cw_uuid w) (cw_write w) (cw_exe w)
              (cw_spawned w) (cw_run w) protocol detach node fs of
             (r, fs') \<Rightarrow> (Start_End r, fs'))
      | Cmd_List \<Rightarrow>
          (List_End (run_list (cw_records w) (cw_env w) (cw_made w) (cw_present w) (cw_entries w) fs), fs)
      | Cmd_Stop tunnel_id \<Rightarrow>
          (case run_stop (cw_records w) (cw_env w) (cw_made w) tunnel_id (cw_launched w) (cw_removed w) fs of
             (r, fs') \<Rightarrow> (Stop_End r, fs'))
      | Cmd_Worker tid \<Rightarrow> (Worker_Of tid, fs))"

section \<open>A stop, step by step\<close>

text \<open>The next step of a stop of \<open>Cli_Background\<close>.\<close>

definition stop_next :: "bg_context \<Rightarrow> nat \<Rightarrow> bool \<Rightarrow> bool \<Rightarrow> background \<Rightarrow> background" where
  "stop_next bx k launched ok bg =
     (case bg_stops bg k of
        T_Load \<Rightarrow> stop_load bx k bg
      | T_Kill pid \<Rightarrow> stop_kill bx k pid launched bg
      | T_Check killed \<Rightarrow> stop_check bx k killed bg
      | T_Unlink killed \<Rightarrow> stop_unlink bx k killed ok bg
      | _ \<Rightarrow> bg)"

lemma stop_next_end:
  "bg_stops bg k = T_Failed \<Longrightarrow> stop_next bx k launched ok bg = bg"
  "bg_stops bg k = T_Stopped True \<Longrightarrow> stop_next bx k launched ok bg = bg"
  "bg_stops bg k = T_Stopped False \<Longrightarrow> stop_next bx k launched ok bg = bg"
  by (simp_all add: stop_next_def)

lemma stop_removes:
  assumes "bg_stops bg k = T_Check killed" and "record_path env True tid = Inr (bx_path bx)"
    and "record_remove env True tid ok (bg_files bg) = (e, fs')"
  shows "let bg' = stop_next bx k launched ok (stop_next bx k launched ok bg)
    in bg_files bg' = fs' \<and> bg_stops bg' k = (if e = None then T_Stopped killed else T_Failed)"
  using assms
  by (auto simp: stop_next_def stop_check_def stop_unlink_def record_remove_def remove_file_def Let_def
      split: if_splits)

lemma stop_kills:
  assumes "bg_stops bg k = T_Kill pid"
  shows "bg_stops (stop_next bx k launched ok bg) k = (if launched then T_Check True else T_Failed)"
    and "bg_files (stop_next bx k launched ok bg) = bg_files bg"
  using assms by (simp_all add: stop_next_def stop_kill_def Let_def)


section \<open>What a command touches\<close>

text \<open>The path a command may change.\<close>

definition touched :: "cli_world \<Rightarrow> cli_command \<Rightarrow> string option" where
  "touched w cmd =
     (case cmd of
        Cmd_Config _ _ _ \<Rightarrow> (case config_path (cw_env w) of Inr p \<Rightarrow> Some p | Inl _ \<Rightarrow> None)
      | Cmd_Login \<Rightarrow> (case config_path (cw_env w) of Inr p \<Rightarrow> Some p | Inl _ \<Rightarrow> None)
      | Cmd_Start _ detach _ \<Rightarrow>
          if detach
          then (case record_path (cw_env w) (cw_made w) (take 8 (cw_uuid w)) of Inr p \<Rightarrow> Some p | Inl _ \<Rightarrow> None)
          else None
      | Cmd_Stop tunnel_id \<Rightarrow>
          (case record_path (cw_env w) (cw_made w) tunnel_id of Inr p \<Rightarrow> Some p | Inl _ \<Rightarrow> None)
      | _ \<Rightarrow> None)"

lemma save_json_other: "p \<noteq> path \<Longrightarrow> snd (save_json tc shape path a w fs) p = fs p"
  by (simp add: save_json_def write_file_def split: option.split write_end.split)

lemma config_save_other: "config_path env \<noteq> Inr p \<Longrightarrow> snd (config_save tc env cfg w fs) p = fs p"
  using save_json_other [of p _ tc config_json cfg w fs]
  by (auto simp: config_save_def case_prod_beta split: sum.split)

lemma record_save_other:
  "record_path env made (tr_id r) \<noteq> Inr p \<Longrightarrow> snd (record_save tc env made r w fs) p = fs p"
  using save_json_other [of p _ tc record_json r w fs]
  by (auto simp: record_save_def case_prod_beta split: sum.split)

lemma record_remove_other:
  "record_path env made tid \<noteq> Inr p \<Longrightarrow> snd (record_remove env made tid ok fs) p = fs p"
  by (auto simp: record_remove_def remove_file_def split: sum.split)

lemma run_config_other:
  "config_path env \<noteq> Inr p \<Longrightarrow> snd (run_config tc env server token url stdin w fs) p = fs p"
  by (simp add: run_config_def config_save_other split: sum.split option.split)

lemma run_login_other:
  "config_path env \<noteq> Inr p \<Longrightarrow> snd (run_login tc env bound visit w fs) p = fs p"
  by (auto simp: run_login_def config_save_other split: sum.split option.split browser.split io_result.split prod.split)

lemma run_start_other:
  assumes "detach \<Longrightarrow> record_path env made (take 8 uuid) \<noteq> Inr p"
  shows "snd (run_start tc env made uuid w exe spawned run cmd detach node fs) p = fs p"
proof -
  have "snd (detach_tunnel tc env made uuid args w exe spawned fs) p = fs p" if detach for args
    using record_save_other [of env made "new_record uuid args" p tc w fs] assms that
    by (simp add: detach_tunnel_def new_record_def Let_def case_prod_beta split: option.split)
  then show ?thesis by (simp add: run_start_def Let_def case_prod_beta)
qed

lemma run_stop_other:
  "record_path env made tid \<noteq> Inr p \<Longrightarrow> snd (run_stop tc env made tid launched ok fs) p = fs p"
  by (simp add: run_stop_def record_remove_other case_prod_beta split: sum.split)

text \<open>C35: a command of the CLI changes at most one file, its own: \<open>config\<close> and \<open>login\<close> the configuration,
  a detached \<open>start\<close> the record of the tunnel it creates, \<open>stop\<close> the record it is given; a
  tunnel in the foreground and \<open>list\<close> change none, whatever fails; and a stop leaves its record
  as it was or removes it. What a worker writes is in \<open>Cli_Background\<close>.\<close>

theorem commands_confined:
  assumes "touched w cmd \<noteq> Some p"
  shows "snd (cli_main w cmd fs) p = fs p \<and>
    (\<forall>tid q. snd (cli_main w (Cmd_Stop tid) fs) q \<in> {fs q, None})"
proof (intro conjI allI)
  show "snd (cli_main w cmd fs) p = fs p"
    using assms
    by (cases cmd) (auto simp: cli_main_def touched_def case_prod_beta intro!: run_config_other
        run_login_other run_start_other run_stop_other split: sum.splits)
next
  fix tid q
  show "snd (cli_main w (Cmd_Stop tid) fs) q \<in> {fs q, None}"
    by (auto simp: cli_main_def run_stop_def record_remove_def remove_file_def case_prod_beta split: sum.split)
qed

section \<open>Samples\<close>

definition sample_world :: cli_world where
  "sample_world = \<lparr>cw_configs = config_codec, cw_records = record_codec, cw_env = registry_env,
     cw_stdin = \<lparr>sm_bytes = [], sm_end = Closed\<rparr>, cw_write = Written, cw_bound = True,
     cw_browser = No_Browser, cw_made = True, cw_uuid = ''0a1b2c3d4e5f'', cw_exe = True,
     cw_spawned = True, cw_run = (\<lambda>_ _ _. failed None No_Connection), cw_present = True,
     cw_entries = Some [], cw_launched = True, cw_removed = True\<rparr>"

text \<open>A detached start leaves the configuration alone.\<close>

theorem commands_confined_witness:
  "snd (cli_main sample_world (Cmd_Start (Start_Http 8080 None) True None) [''/root/.borehole.json'' \<mapsto> File ''{}''])
     ''/root/.borehole.json'' = Some (File ''{}'')"
proof -
  have "touched sample_world (Cmd_Start (Start_Http 8080 None) True None) = Some sample_path"
    by (simp add: touched_def sample_world_def)
  then have "touched sample_world (Cmd_Start (Start_Http 8080 None) True None) \<noteq> Some ''/root/.borehole.json''"
    by (simp add: sample_path_def)
  from commands_confined [OF this] show ?thesis by simp
qed

text \<open>A stop of the sample record, which its worker has not signed yet.\<close>

definition stop_context :: bg_context where
  "stop_context = \<lparr>bx_codec = record_codec, bx_env = registry_env, bx_record = sample_record,
     bx_path = sample_path, bx_pid = 7\<rparr>"


end
