(* ===== verification/Control_Sample.thy ===== *)
theory Control_Sample
  imports Control_Facts
begin

text \<open>
  Concrete runs of the control plane, from the first frame on: CLI 7 asks for port 30001 of
  the sample configuration, is served on the direct path, and leaves. The states on the way
  are reachable; the theories after this one use them as instances.
\<close>

section \<open>Admission of a first frame\<close>

lemma classify_sent:
  assumes "wire_codec cd" and "wf_message m" and "snd (send cd m True 0 []) = bytes"
  shows "\<exists>frame. fst (read_frame \<lparr>sm_bytes = bytes, sm_end = e\<rparr>) = Io_Ok (Some frame) \<and>
    from_line cd frame = Some m"
proof -
  obtain line where l: "to_line cd m = Some (line @ [newline])" "newline \<notin> set line"
    "valid_utf8 line" "from_line cd line = Some m"
    using sent_line [OF assms(1,2)] by blast
  then have "bytes = line @ newline # []" using assms(3) by (simp add: send_def)
  with l read_frame_loop_line [OF l(2), of "[]" "[]" e] show ?thesis
    by (simp add: read_frame_def lossy_valid)
qed

lemma admits_register:
  assumes "wf_message (Register reg)"
  shows "\<exists>stream. classify json_codec (fst (read_frame stream)) = As_Cli reg"
proof -
  obtain bytes frame where
    "fst (read_frame \<lparr>sm_bytes = bytes, sm_end = Closed\<rparr>) = Io_Ok (Some frame)"
    "from_line json_codec frame = Some (Register reg)"
    using classify_sent [OF json.wire_codec_axioms assms refl, of Closed] by blast
  then have "classify json_codec (fst (read_frame \<lparr>sm_bytes = bytes, sm_end = Closed\<rparr>)) = As_Cli reg"
    by (simp add: classify_def)
  then show ?thesis by blast
qed

lemma admits_register_node:
  assumes "wf_message (Register_Node reg)"
  shows "\<exists>stream. classify json_codec (fst (read_frame stream)) = As_Node reg"
proof -
  obtain bytes frame where
    "fst (read_frame \<lparr>sm_bytes = bytes, sm_end = Closed\<rparr>) = Io_Ok (Some frame)"
    "from_line json_codec frame = Some (Register_Node reg)"
    using classify_sent [OF json.wire_codec_axioms assms refl, of Closed] by blast
  then have "classify json_codec (fst (read_frame \<lparr>sm_bytes = bytes, sm_end = Closed\<rparr>)) = As_Node reg"
    by (simp add: classify_def)
  then show ?thesis by blast
qed

section \<open>A direct tunnel\<close>

definition sample_register :: register where
  "sample_register = \<lparr>rg_token = ''t'', rg_protocol = Tcp, rg_local_port = 8080,
     rg_remote_port = Some 30001, rg_node = None, rg_hostname = None\<rparr>"

definition sample_io :: "string \<Rightarrow> bool \<Rightarrow> serve_event \<Rightarrow> io" where
  "sample_io u ok ev = \<lparr>io_ok = ok, io_sent = True, io_now = 0, io_uuid = u,
     io_choice = Some 30000, io_order = [], io_event = ev, io_line = Io_Err\<rparr>"

definition sample_ctx :: tunnel_ctx where
  "sample_ctx = \<lparr>tc_tunnel_id = ''3'', tc_port = 30001\<rparr>"

text \<open>The states of the run: program point, pool, table, events, frames sent, UUIDs drawn.\<close>

definition sample_sys ::
    "cli_pc \<Rightarrow> u16 set \<Rightarrow> (string \<rightharpoonup> tunnel_entry) \<Rightarrow> bh_event list \<Rightarrow> message list \<Rightarrow> string set \<Rightarrow>
     system" where
  "sample_sys pc free table bus sent uuids =
     (system_new sample_config)
       \<lparr>sy_server := (server_new sample_config)
          \<lparr>sv_port_mgr := \<lparr>available = free, port_range = (30000, 30009)\<rparr>,
           sv_active_tunnels := table, sv_event_bus := bus\<rparr>,
        sy_cli := [7 \<mapsto> \<lparr>ct_register = sample_register, ct_pc = pc\<rparr>],
        sy_sent := (\<lambda>_. [])(7 := sent), sy_uuids := uuids\<rparr>"

definition all_ports :: "u16 set" where
  "all_ports = {30000..30009}"

lemma sample_sys_fields [simp]:
  "sy_cli (sample_sys pc free table bus sent uuids) = [7 \<mapsto> \<lparr>ct_register = sample_register, ct_pc = pc\<rparr>]"
  "sy_node (sample_sys pc free table bus sent uuids) = Map.empty"
  "sy_uuids (sample_sys pc free table bus sent uuids) = uuids"
  "sy_sent (sample_sys pc free table bus sent uuids) 7 = sent"
  "sv_port_mgr (sy_server (sample_sys pc free table bus sent uuids)) =
     \<lparr>available = free, port_range = (30000, 30009)\<rparr>"
  "sv_active_tunnels (sy_server (sample_sys pc free table bus sent uuids)) = table"
  "sv_event_bus (sy_server (sample_sys pc free table bus sent uuids)) = bus"
  "sv_node_manager (sy_server (sample_sys pc free table bus sent uuids)) = Map.empty"
  "sv_tokens (sy_server (sample_sys pc free table bus sent uuids)) = [''t'']"
  by (simp_all add: sample_sys_def system_new_def server_new_def sample_config_def nm_new_def)

lemma sample_draws:
  assumes "u \<notin> uuids" and "30000 \<in> free" and "ev = Ev_Accept_Error \<or> ev = Ev_Gone"
  shows "draws_ok (sample_io u ok ev) (sample_sys pc free table bus sent uuids)"
  using assms by (auto simp: draws_ok_def sample_io_def chosen_from_def iteration_order_def)

lemma sample_step:
  assumes "sys_reachable cd lib cfg (sample_sys pc free table bus sent uuids)"
    and "u \<notin> uuids" and "30000 \<in> free" and "ev = Ev_Accept_Error \<or> ev = Ev_Gone"
    and "drawn u (cli_step (al_rfc3339 lib) 7 (sample_io u ok ev)
      (sample_sys pc free table bus sent uuids)) = s'"
  shows "sys_reachable cd lib cfg s'"
proof -
  have "sys_step cd lib (sample_sys pc free table bus sent uuids)
    (drawn (io_uuid (sample_io u ok ev)) (cli_step (al_rfc3339 lib) 7 (sample_io u ok ev)
      (sample_sys pc free table bus sent uuids)))"
    by (rule cli) (rule sample_draws [OF assms(2-4)])
  with assms(1,5) show ?thesis
    by (metis sys_reachable.step sample_io_def io.select_convs(4))
qed

lemma sample_updates:
  "goto_cli 7 pc' (sample_sys pc free table bus sent uuids) = sample_sys pc' free table bus sent uuids"
  "drawn u (sample_sys pc free table bus sent uuids) = sample_sys pc free table bus sent (insert u uuids)"
  "deliver 7 m True (sample_sys pc free table bus sent uuids) =
     sample_sys pc free table bus (sent @ [m]) uuids"
  "on_server (sv_publish e) (sample_sys pc free table bus sent uuids) =
     sample_sys pc free table (bus @ [e]) sent uuids"
  "on_server (insert_tunnel i te) (sample_sys pc free table bus sent uuids) =
     sample_sys pc free (table(i \<mapsto> te)) bus sent uuids"
  "on_server (sv_port_mgr_update (release 30001)) (sample_sys pc free table bus sent uuids) =
     sample_sys pc (insert 30001 free) table bus sent uuids"
  "on_server (sv_port_mgr_update (\<lambda>_. \<lparr>available = f, port_range = (30000, 30009)\<rparr>))
     (sample_sys pc free table bus sent uuids) = sample_sys pc f table bus sent uuids"
  by (simp_all add: sample_sys_def goto_cli_def drawn_def deliver_def on_server_def
      sv_publish_def publish_def insert_tunnel_def fun_eq_iff system_new_def release_def in_range_def)

lemma sample_connected: "sys_reachable json_codec lib sample_config (sample_sys K_Token all_ports Map.empty [] [] {})"
proof -
  have "wf_message (Register sample_register)"
    by (simp add: wf_message_def sample_register_def protocol_json_def port_json_def option_json_def
        valid_utf8_ascii)
  then obtain stream where st: "classify json_codec (fst (read_frame stream)) = As_Cli sample_register"
    using admits_register by blast
  have "sys_step json_codec lib (system_new sample_config)
      (handle_client json_codec 7 stream ''h'' True (system_new sample_config))"
    by (rule connect) (simp_all add: system_new_def)
  moreover have "handle_client json_codec 7 stream ''h'' True (system_new sample_config) =
      sample_sys K_Token all_ports Map.empty [] [] {}"
    by (simp add: handle_client_def st sample_sys_def system_new_def server_new_def pm_new_def
        sample_config_def all_ports_def event_bus_new_def fun_eq_iff)
  ultimately show ?thesis by (metis sys_reachable.intros)
qed

lemmas sample_run_defs = cli_step_def cli_defs sample_updates sample_io_def sample_register_def
  known_token_def request_port_def acquire_specific_def in_range_def pick_def values_in_def

lemma sample_bound:
  "sys_reachable json_codec lib sample_config
     (sample_sys (K_Bind sample_ctx) (all_ports - {30001}) Map.empty [] [] {''1'', ''2'', ''3'', ''4''})"
proof -
  note step = sample_step [where ok = True and ev = Ev_Accept_Error]
  have "sys_reachable json_codec lib sample_config (sample_sys K_Device all_ports Map.empty [] [] {''1''})"
    by (rule step [OF sample_connected, of "''1''"])
      (simp_all add: all_ports_def sample_run_defs)
  from step [OF this, of "''2''"]
  have "sys_reachable json_codec lib sample_config (sample_sys K_Port all_ports Map.empty [] [] {''1'', ''2''})"
    by (simp add: all_ports_def sample_run_defs insert_commute)
  from step [OF this, of "''3''"]
  have "sys_reachable json_codec lib sample_config
     (sample_sys (K_Pick sample_ctx) (all_ports - {30001}) Map.empty [] [] {''1'', ''2'', ''3''})"
    by (simp add: all_ports_def sample_run_defs sample_ctx_def insert_commute)
  from step [OF this, of "''4''"]
  show ?thesis by (simp add: all_ports_def sample_run_defs insert_commute)
qed

definition sample_registered :: message where
  "sample_registered = Registered \<lparr>rd_remote_port = 30001, rd_node_host = None, rd_node_port = None\<rparr>"

definition sample_tunnel :: tunnel_entry where
  "sample_tunnel = entry_for sample_register sample_ctx 7 None 0"

definition sample_opened :: "auth_lib \<Rightarrow> bh_event" where
  "sample_opened lib = opened_event (al_rfc3339 lib) sample_register sample_ctx None 0"

definition sample_served :: "auth_lib \<Rightarrow> system" where
  "sample_served lib = sample_sys (K_Serve sample_ctx) (all_ports - {30001}) [''3'' \<mapsto> sample_tunnel]
     [sample_opened lib] [sample_registered] {''1'', ''2'', ''3'', ''4'', ''5'', ''6'', ''7'', ''8''}"

lemma sample_served_reachable: "sys_reachable json_codec lib sample_config (sample_served lib)"
proof -
  note step = sample_step [where ok = True and ev = Ev_Accept_Error]
  note defs = all_ports_def sample_run_defs insert_commute sample_registered_def sample_tunnel_def
    sample_opened_def
  from step [OF sample_bound, of "''5''"]
  have "sys_reachable json_codec lib sample_config (sample_sys (K_Ready sample_ctx) (all_ports - {30001})
      Map.empty [] [] {''1'', ''2'', ''3'', ''4'', ''5''})"
    by (simp add: defs)
  from step [OF this, of "''6''"]
  have "sys_reachable json_codec lib sample_config (sample_sys (K_Insert sample_ctx) (all_ports - {30001})
      Map.empty [] [sample_registered] {''1'', ''2'', ''3'', ''4'', ''5'', ''6''})"
    by (simp add: defs sample_ctx_def)
  from step [OF this, of "''7''"]
  have "sys_reachable json_codec lib sample_config (sample_sys (K_Publish sample_ctx 0) (all_ports - {30001})
      [''3'' \<mapsto> sample_tunnel] [] [sample_registered] {''1'', ''2'', ''3'', ''4'', ''5'', ''6'', ''7''})"
    by (simp add: defs sample_ctx_def)
  from step [OF this, of "''8''"] show ?thesis
    by (simp add: defs sample_served_def)
qed

text \<open>The same tunnel when the port cannot be bound: the task ends and returns the port.\<close>

definition sample_failed :: system where
  "sample_failed = sample_sys K_Finished all_ports Map.empty []
     [Error \<lparr>em_reason = ''failed to open tunnel port''\<rparr>]
     {''1'', ''2'', ''3'', ''4'', ''5'', ''6'', ''7''}"

lemma sample_remove:
  "cli_step rf 7 io (sample_sys (K_Remove sample_ctx) free Map.empty bus sent uuids) =
     sample_sys (K_Release sample_ctx) free Map.empty bus sent uuids"
  by (simp add: cli_step_def step_remove_def remove_tunnel_def goto_cli_def sample_sys_def
      system_new_def fun_eq_iff)

lemma sample_failed_reachable: "sys_reachable json_codec lib sample_config sample_failed"
proof -
  note step = sample_step [where ok = False and ev = Ev_Accept_Error]
  note defs = all_ports_def sample_run_defs insert_commute reject_to_def
  let ?sent = "[Error \<lparr>em_reason = ''failed to open tunnel port''\<rparr>]"
  from step [OF sample_bound, of "''5''"]
  have "sys_reachable json_codec lib sample_config (sample_sys (K_Remove sample_ctx) (all_ports - {30001})
      Map.empty [] ?sent {''1'', ''2'', ''3'', ''4'', ''5''})"
    by (simp add: defs)
  from step [OF this, of "''6''"]
  have "sys_reachable json_codec lib sample_config (sample_sys (K_Release sample_ctx) (all_ports - {30001})
      Map.empty [] ?sent {''1'', ''2'', ''3'', ''4'', ''5'', ''6''})"
    by (simp add: sample_remove sample_updates insert_commute) (simp add: all_ports_def)
  moreover have "insert 30001 (all_ports - {30001}) = all_ports"
    by (auto simp: all_ports_def)
  ultimately show ?thesis
    using step [OF _ _ _ _ refl, of json_codec lib sample_config "K_Release sample_ctx"
        "all_ports - {30001}" Map.empty "[]" ?sent "{''1'', ''2'', ''3'', ''4'', ''5'', ''6''}" "''7''"]
    by (simp add: sample_updates cli_step_def step_release_def sample_ctx_def sample_failed_def
        insert_commute) (simp add: all_ports_def)
qed

end
