(* ===== verification/Control_Visitors.thy ===== *)
theory Control_Visitors
  imports Control_Sample
begin

text \<open>
  The visitors of the running server (\<open>Control\<close>): its table of pending visitors only ever
  takes steps of the rendezvous protocol (\<open>Rendezvous\<close>), so that what is proved there holds
  of the server; and each visitor is announced to one CLI, once.
\<close>

section \<open>Tasks that are announcing a visitor\<close>

fun pc_notifying :: "cli_pc \<Rightarrow> (socket \<times> string) option" where
  "pc_notifying (K_Notify x v i) = Some (v, i)"
| "pc_notifying _ = None"

definition notifying :: "system \<Rightarrow> conn \<rightharpoonup> socket \<times> string" where
  "notifying sys c = Option.bind (sy_cli sys c) (\<lambda>t. pc_notifying (ct_pc t))"

text \<open>The ids announced on a control connection for visitors of the server itself.\<close>

fun direct_notice :: "message \<Rightarrow> string option" where
  "direct_notice (New_Conn n) = (if nc_node_host n = None then Some (nc_conn_id n) else None)"
| "direct_notice _ = None"

definition notices :: "system \<Rightarrow> conn \<Rightarrow> string list" where
  "notices sys c = List.map_filter direct_notice (sy_sent sys c)"

lemma notifying_goto:
  "sy_cli sys c = Some t \<Longrightarrow> notifying (goto_cli c pc sys) = (notifying sys)(c := pc_notifying pc)"
  by (auto simp: notifying_def fun_eq_iff)

lemma notifying_cong: "sy_cli sys' = sy_cli sys \<Longrightarrow> notifying sys' = notifying sys"
  by (rule ext) (simp add: notifying_def)

lemma notices_cong: "sy_sent sys' = sy_sent sys \<Longrightarrow> notices sys' = notices sys"
  by (rule ext) (simp add: notices_def)

lemma notices_deliver:
  "notices (deliver d m ok sys) =
     (if ok then (notices sys)(d := notices sys d @ List.map_filter direct_notice [m]) else notices sys)"
  by (auto simp: notices_def deliver_sent List.map_filter_def fun_eq_iff)

lemma visitors_frame [simp]:
  "notifying (on_server f sys) = notifying sys"
  "notifying (deliver d m ok sys) = notifying sys"
  "notifying (reject_to d r ok sys) = notifying sys"
  "notifying (drawn u sys) = notifying sys"
  "notifying (sys\<lparr>sy_visits := w\<rparr>) = notifying sys"
  "notifying (sys\<lparr>sy_server := s\<rparr>) = notifying sys"
  "notifying (goto_node d npc sys) = notifying sys"
  "notices (on_server f sys) = notices sys"
  "notices (goto_cli d pc sys) = notices sys"
  "notices (goto_node d npc sys) = notices sys"
  "notices (drawn u sys) = notices sys"
  "notices (sys\<lparr>sy_visits := w\<rparr>) = notices sys"
  "notices (sys\<lparr>sy_server := s\<rparr>) = notices sys"
  "notices (reject_to d r ok sys) = notices sys"
  by (simp_all add: notifying_def notices_def fun_eq_iff reject_to_def deliver_sent List.map_filter_def)

lemma notices_deliver_other [simp]:
  "direct_notice m = None \<Longrightarrow> notices (deliver d m ok sys) = notices sys"
  by (simp add: notices_deliver List.map_filter_def)

text \<open>What a step of a CLI task does to the visitors.\<close>

lemma cli_step_visitors:
  assumes "sy_cli sys c = Some t"
  obtains (keep) "sv_pending (sy_server (cli_step rf c io sys)) = sv_pending (sy_server sys)"
      "notifying (cli_step rf c io sys) = notifying sys"
      "notices (cli_step rf c io sys) = notices sys"
  | (accepted) v ip p where "io_event io = Ev_Visitor v ip p" "notifying sys c = None"
      "sv_pending (sy_server (cli_step rf c io sys)) = rv_accept v (io_uuid io) (sv_pending (sy_server sys))"
      "notifying (cli_step rf c io sys) = (notifying sys)(c \<mapsto> (v, io_uuid io))"
      "notices (cli_step rf c io sys) = notices sys"
  | (told) v i where "notifying sys c = Some (v, i)"
      "sv_pending (sy_server (cli_step rf c io sys)) = rv_notified v (sv_pending (sy_server sys))"
      "notifying (cli_step rf c io sys) = (notifying sys)(c := None)"
      "notices (cli_step rf c io sys) = (notices sys)(c := notices sys c @ [i])"
  | (untold) v i where "notifying sys c = Some (v, i)"
      "sv_pending (sy_server (cli_step rf c io sys)) = rv_notify_failed v (sv_pending (sy_server sys))"
      "notifying (cli_step rf c io sys) = (notifying sys)(c := None)"
      "notices (cli_step rf c io sys) = notices sys"
proof -
  have n: "notifying sys c = pc_notifying (ct_pc t)" using assms by (simp add: notifying_def)
  have same: "(notifying sys)(c := pc_notifying (ct_pc t)) = notifying sys" using n by auto
  note st = cli_step_def assms notifying_goto
  show thesis
  proof (cases "ct_pc t")
    case (K_Serve x)
    show thesis
    proof (cases "io_event io")
      case (Ev_Visitor v ip p)
      with accepted n K_Serve show thesis by (simp add: st step_serve_def)
    qed (rule keep; use same in \<open>simp add: st K_Serve step_serve_def\<close>)+
  next
    case (K_Notify x v i)
    show thesis
    proof (cases "io_sent io")
      case True
      with told n K_Notify show thesis
        by (simp add: st step_notify_def notices_deliver List.map_filter_def)
    next
      case False
      with untold n K_Notify show thesis by (simp add: st step_notify_def)
    qed
  qed (rule keep; use same assms in \<open>simp add: st cli_defs remove_tunnel_def Let_def case_prod_beta
      split: option.split serve_event.split\<close>)+
qed

section \<open>The invariant\<close>

text \<open>The table is in a state of the protocol, its ids were drawn, and an id announced belongs
  to one visitor, announced before, on one connection.\<close>

definition announced_ok :: "rendezvous \<Rightarrow> (conn \<Rightarrow> string list) \<Rightarrow> bool" where
  "announced_ok rv ns \<longleftrightarrow>
     (\<forall>c. distinct (ns c)) \<and>
     (\<forall>c d i. i \<in> set (ns c) \<longrightarrow> i \<in> set (ns d) \<longrightarrow> c = d) \<and>
     (\<forall>c i. i \<in> set (ns c) \<longrightarrow>
        (\<exists>v vs. rv_visitors rv v = Some vs \<and> vs_conn_id vs = i \<and> vs_phase vs \<noteq> V_Notifying))"

definition visitors_ok :: "system \<Rightarrow> bool" where
  "visitors_ok sys \<longleftrightarrow>
     (let rv = sv_pending (sy_server sys)
      in rv_reachable False rv \<and>
         (\<forall>v vs. rv_visitors rv v = Some vs \<longrightarrow> vs_conn_id vs \<in> sy_uuids sys) \<and>
         announcing_ok rv (notifying sys) \<and> announced_ok rv (notices sys))"

lemma same_ids_announced:
  assumes "announced_ok rv ns" and "same_ids rv rv'"
  shows "announced_ok rv' ns"
  unfolding announced_ok_def
proof (intro conjI allI impI)
  fix c i
  assume "i \<in> set (ns c)"
  then obtain v vs where "rv_visitors rv v = Some vs" "vs_conn_id vs = i" "vs_phase vs \<noteq> V_Notifying"
    using assms(1) unfolding announced_ok_def by blast
  with assms(2)
  show "\<exists>v vs. rv_visitors rv' v = Some vs \<and> vs_conn_id vs = i \<and> vs_phase vs \<noteq> V_Notifying"
    by (metis same_ids_visitor)
qed (use assms(1) in \<open>auto simp: announced_ok_def\<close>)

lemma same_ids_drawn:
  assumes "\<And>v vs. rv_visitors rv v = Some vs \<Longrightarrow> vs_conn_id vs \<in> U" and "same_ids rv rv'"
    and "rv_visitors rv' v = Some vs"
  shows "vs_conn_id vs \<in> U"
  using same_ids_visitor [OF same_ids_sym [OF assms(2)] assms(3)] assms(1) by metis

lemma announced_accept:
  assumes "announced_ok rv ns" and "rv_visitors rv v = None"
  shows "announced_ok (rv_accept v u rv) ns"
proof -
  have "\<exists>w ws. rv_visitors (rv_accept v u rv) w = Some ws \<and> vs_conn_id ws = i \<and> vs_phase ws \<noteq> V_Notifying"
    if i: "i \<in> set (ns c)" for c i
  proof -
    from assms(1) i obtain w ws where w: "rv_visitors rv w = Some ws" "vs_conn_id ws = i"
      "vs_phase ws \<noteq> V_Notifying" unfolding announced_ok_def by blast
    with assms(2) have "w \<noteq> v" by auto
    with w show ?thesis by (intro exI [of _ w] exI [of _ ws]) (simp add: rv_accept_def)
  qed
  with assms(1) show ?thesis unfolding announced_ok_def by blast
qed

lemma announced_end:
  assumes "announced_ok rv ns"
    and "\<And>w. w \<noteq> v \<Longrightarrow> rv_visitors rv' w = rv_visitors rv w"
    and "rv_visitors rv v = Some vs" and "vs_phase vs = V_Notifying"
  shows "announced_ok rv' ns"
proof -
  have "\<exists>w ws. rv_visitors rv' w = Some ws \<and> vs_conn_id ws = i \<and> vs_phase ws \<noteq> V_Notifying"
    if i: "i \<in> set (ns c)" for c i
  proof -
    from assms(1) i obtain w ws where w: "rv_visitors rv w = Some ws" "vs_conn_id ws = i"
      "vs_phase ws \<noteq> V_Notifying" unfolding announced_ok_def by blast
    with assms(3,4) have "w \<noteq> v" by auto
    with w assms(2) show ?thesis by metis
  qed
  with assms(1) show ?thesis unfolding announced_ok_def by blast
qed

lemma announced_new:
  assumes "announced_ok rv ns" and "announced_ok rv' ns" and "ids_distinct rv"
    and "rv_visitors rv v = Some vs" and "vs_phase vs = V_Notifying"
    and "rv_visitors rv' v = Some vs'" and "vs_conn_id vs' = vs_conn_id vs"
    and "vs_phase vs' \<noteq> V_Notifying"
  shows "announced_ok rv' (ns(c := ns c @ [vs_conn_id vs]))"
proof -
  have fresh: "vs_conn_id vs \<notin> set (ns d)" for d
  proof
    assume "vs_conn_id vs \<in> set (ns d)"
    then obtain w ws where w: "rv_visitors rv w = Some ws" "vs_conn_id ws = vs_conn_id vs"
      "vs_phase ws \<noteq> V_Notifying" using assms(1) unfolding announced_ok_def by blast
    with assms(3,4) have "w = v" unfolding ids_distinct_def by blast
    with w assms(4,5) show False by simp
  qed
  have "\<exists>w ws. rv_visitors rv' w = Some ws \<and> vs_conn_id ws = i \<and> vs_phase ws \<noteq> V_Notifying"
    if "i \<in> set ((ns(c := ns c @ [vs_conn_id vs])) d)" for i d
    using that assms(2,6-8) unfolding announced_ok_def by (cases "d = c") auto
  moreover have "distinct ((ns(c := ns c @ [vs_conn_id vs])) d)" for d
    using fresh assms(2) by (simp add: announced_ok_def)
  moreover have "d = e" if "i \<in> set ((ns(c := ns c @ [vs_conn_id vs])) d)"
    "i \<in> set ((ns(c := ns c @ [vs_conn_id vs])) e)" for d e i
    using that fresh assms(2) unfolding announced_ok_def
    by (cases "d = c"; cases "e = c") auto
  ultimately show ?thesis unfolding announced_ok_def by blast
qed

lemma visitors_ok_cli:
  assumes "visitors_ok sys" and "draws_ok io sys"
  shows "visitors_ok (drawn (io_uuid io) (cli_step rf c io sys))"
proof (cases "sy_cli sys c")
  case None
  with assms(1) show ?thesis by (auto simp: visitors_ok_def cli_step_def Let_def)
next
  case (Some t)
  let ?rv = "sv_pending (sy_server sys)"
  let ?sys' = "cli_step rf c io sys"
  have R: "rv_reachable False ?rv" and U: "\<And>v vs. rv_visitors ?rv v = Some vs \<Longrightarrow> vs_conn_id vs \<in> sy_uuids sys"
    and N: "announcing_ok ?rv (notifying sys)" and A: "announced_ok ?rv (notices sys)"
    using assms(1) by (auto simp: visitors_ok_def Let_def)
  have fresh: "io_uuid io \<notin> sy_uuids sys" using assms(2) by (simp add: draws_ok_def)
  from Some show ?thesis
  proof (cases rule: cli_step_visitors [where rf = rf and io = io])
    case keep
    with R U N A show ?thesis by (auto simp: visitors_ok_def Let_def)
  next
    case (accepted v ip p)
    then have v: "rv_visitors ?rv v = None" using assms(2) by (simp add: draws_ok_def)
    have "\<not> id_used ?rv (io_uuid io)" unfolding id_used_def using U fresh by metis
    with R v have "rv_reachable False (rv_accept v (io_uuid io) ?rv)"
      by (blast intro: rv_reachable.step rv_step.accept)
    with accepted announcing_accept [OF N v] announced_accept [OF A v] U show ?thesis
      by (auto simp: visitors_ok_def Let_def rv_accept_def)
  next
    case (told v i)
    then obtain vs where v: "rv_visitors ?rv v = Some vs" "vs_conn_id vs = i" "vs_phase vs = V_Notifying"
      using N unfolding announcing_ok_def by blast
    let ?rv' = "rv_notified v ?rv"
    have o: "\<And>w. w \<noteq> v \<Longrightarrow> rv_visitors ?rv' w = rv_visitors ?rv w"
      by (simp add: rv_notified_def set_phase_other)
    have v': "rv_visitors ?rv' v = Some (vs\<lparr>vs_phase := V_Waiting\<rparr>)"
      using v by (simp add: rv_notified_def set_phase_def)
    have "ids_distinct ?rv" using rv_reachable_inv [OF R] by (simp add: rv_inv_def)
    from announced_new [OF A announced_end [OF A o v(1,3)] this v(1,3) v']
    have "announced_ok ?rv' ((notices sys)(c := notices sys c @ [i]))" using v(2) by simp
    moreover have "rv_reachable False ?rv'"
      using R v by (blast intro: rv_reachable.step rv_step.notified)
    moreover have "announcing_ok ?rv' ((notifying sys)(c := None))"
      by (rule announcing_end [OF N told(1) o])
    moreover have "vs_conn_id ws \<in> sy_uuids sys" if "rv_visitors ?rv' w = Some ws" for w ws
      using that U o v v' by (cases "w = v") auto
    ultimately show ?thesis using told by (auto simp: visitors_ok_def Let_def)
  next
    case (untold v i)
    then obtain vs where v: "rv_visitors ?rv v = Some vs" "vs_conn_id vs = i" "vs_phase vs = V_Notifying"
      using N unfolding announcing_ok_def by blast
    let ?rv' = "rv_notify_failed v ?rv"
    have o: "\<And>w. w \<noteq> v \<Longrightarrow> rv_visitors ?rv' w = rv_visitors ?rv w"
      using v by (simp add: rv_notify_failed_def set_phase_def remove_pending_def)
    have v': "rv_visitors ?rv' v = Some (vs\<lparr>vs_phase := V_Done\<rparr>)"
      using v by (simp add: rv_notify_failed_def set_phase_def remove_pending_def)
    have "rv_reachable False ?rv'"
      using R v by (blast intro: rv_reachable.step rv_step.notify_failed)
    moreover have "announcing_ok ?rv' ((notifying sys)(c := None))"
      by (rule announcing_end [OF N untold(1) o])
    moreover have "vs_conn_id ws \<in> sy_uuids sys" if "rv_visitors ?rv' w = Some ws" for w ws
      using that U o v v' by (cases "w = v") auto
    ultimately show ?thesis
      using untold announced_end [OF A o v(1,3)] by (auto simp: visitors_ok_def Let_def)
  qed
qed

lemma visitors_ok_same:
  assumes "visitors_ok sys" and "rv_reachable False (sv_pending (sy_server sys'))"
    and "same_ids (sv_pending (sy_server sys)) (sv_pending (sy_server sys'))"
    and "notifying sys' = notifying sys" and "notices sys' = notices sys"
    and "sy_uuids sys \<subseteq> sy_uuids sys'"
  shows "visitors_ok sys'"
  using assms(1,2,4,5,6) same_ids_announcing [OF _ assms(3)] same_ids_announced [OF _ assms(3)]
    same_ids_drawn [OF _ assms(3), of "sy_uuids sys"]
  unfolding visitors_ok_def Let_def by auto

lemma visitor_done_pending:
  assumes "visitor_in (sv_pending (sy_server sys)) v (\<lambda>vs. \<exists>d. vs_phase vs = V_Proxying d)"
    and "rv_reachable False (sv_pending (sy_server sys))"
  shows "rv_reachable False (sv_pending (sy_server (visitor_done rf v now sys)))"
    "same_ids (sv_pending (sy_server sys)) (sv_pending (sy_server (visitor_done rf v now sys)))"
proof -
  obtain vs d where v: "rv_visitors (sv_pending (sy_server sys)) v = Some vs" "vs_phase vs = V_Proxying d"
    using assms(1) by (blast elim: visitor_inE)
  then have "rv_reachable False (rv_finish v (sv_pending (sy_server sys)))"
    using assms(2) by (blast intro: rv_reachable.step rv_step.finish)
  moreover have "same_ids (sv_pending (sy_server sys)) (rv_finish v (sv_pending (sy_server sys)))"
    using v by (simp add: same_ids_def rv_finish_def set_phase_def)
  ultimately show "rv_reachable False (sv_pending (sy_server (visitor_done rf v now sys)))"
    "same_ids (sv_pending (sy_server sys)) (sv_pending (sy_server (visitor_done rf v now sys)))"
    using assms(2) same_ids_refl v by (auto simp: visitor_done_def split: option.split)
qed

lemma node_step_notices: "notices (node_step cd c io sys) = notices sys"
proof -
  have "notices (step_forward c io i conn_id route sys) = notices sys" for i conn_id route
    by (cases route) (simp add: step_forward_def notices_deliver List.map_filter_def fun_eq_iff)
  then show ?thesis
    by (simp add: node_step_def step_node_token_def step_node_register_def step_node_ack_def
        step_node_connected_def step_node_loop_def step_lookup_def step_node_remove_def
        step_node_left_def split: option.split node_pc.split io_result.split prod.split message.split)
qed

lemma visitors_ok_step: "sys_step cd lib sys sys' \<Longrightarrow> visitors_ok sys \<Longrightarrow> visitors_ok sys'"
proof (induction rule: sys_step.induct)
  case (connect sys c stream host ok)
  have "notifying (handle_client cd c stream host ok sys) = notifying sys"
    using handle_client_cli [of cd c stream host ok sys] connect(1)
    by (auto simp: notifying_def fun_eq_iff)
  moreover have "notices (handle_client cd c stream host ok sys) = notices sys"
    by (auto simp: handle_client_def notices_def reject_to_def deliver_sent List.map_filter_def
        fun_eq_iff split: client_kind.split)
  ultimately show ?case
    using connect visitors_ok_same [of sys] same_ids_refl
    by (simp add: handle_client_frame visitors_ok_def Let_def)
next
  case (cli io sys c)
  then show ?case by (simp add: visitors_ok_cli)
next
  case (node io sys c)
  then show ?case
    using visitors_ok_same [of sys "drawn (io_uuid io) (node_step cd c io sys)"] same_ids_refl
      notifying_cong [of "node_step cd c io sys" sys]
    by (simp add: node_step_frame node_step_notices visitors_ok_def Let_def subset_insertI)
next
  case (data op sys)
  then have "rv_reachable False (op_apply cd op (sv_pending (sy_server sys)))"
    by (simp add: visitors_ok_def Let_def op_reachable)
  with data show ?case
    using visitors_ok_same [of sys "on_server (sv_pending_update (op_apply cd op)) sys"] same_ids_op
    by simp
next
  case (visit sys v now)
  then have "rv_reachable False (sv_pending (sy_server sys))" by (simp add: visitors_ok_def Let_def)
  from visitor_done_pending [OF visit(1) this] show ?case
    using visit visitors_ok_same [of sys "visitor_done (al_rfc3339 lib) v now sys"]
      notifying_cong [of "visitor_done (al_rfc3339 lib) v now sys" sys]
      notices_cong [of "visitor_done (al_rfc3339 lib) v now sys" sys]
    by (simp add: visitor_done_frame)
next
  case (api sys now order uuid parts req)
  then show ?case
    using visitors_ok_same [of sys "on_server (\<lambda>s. fst (api_handle lib now order uuid parts req s)) sys"]
      same_ids_refl
    by (simp add: api_frame visitors_ok_def Let_def)
qed

lemma visitors_ok_new: "visitors_ok (system_new cfg)"
proof -
  have "notifying (system_new cfg) = Map.empty" "notices (system_new cfg) = (\<lambda>_. [])"
    by (auto simp: notifying_def notices_def system_new_def List.map_filter_def)
  then show ?thesis
    by (simp add: visitors_ok_def Let_def announcing_ok_def announced_ok_def system_new_def
        server_new_def rv_reachable.start) (simp add: rv_new_def)
qed

lemma visitors_ok_reachable: "sys_reachable cd lib cfg sys \<Longrightarrow> visitors_ok sys"
  by (induction rule: sys_reachable.induct) (auto intro: visitors_ok_new visitors_ok_step)

section \<open>A sample run\<close>

text \<open>The tunnel of \<open>Control_Sample\<close> gets a visitor, who is announced.\<close>

definition sample_accepted :: "auth_lib \<Rightarrow> system" where
  "sample_accepted lib = drawn ''9'' (cli_step (al_rfc3339 lib) 7
     (sample_io ''9'' True (Ev_Visitor 2 ''1.2.3.4'' 555)) (sample_served lib))"

definition sample_announced :: "auth_lib \<Rightarrow> system" where
  "sample_announced lib = drawn ''10'' (cli_step (al_rfc3339 lib) 7
     (sample_io ''10'' True Ev_Accept_Error) (sample_accepted lib))"

lemma sample_announced_reachable: "sys_reachable json_codec lib sample_config (sample_announced lib)"
proof -
  have "draws_ok (sample_io ''9'' True (Ev_Visitor 2 ''1.2.3.4'' 555)) (sample_served lib)"
    by (simp add: draws_ok_def sample_io_def sample_served_def chosen_from_def iteration_order_def)
      (simp add: sample_sys_def server_new_def rv_new_def all_ports_def)
  from sys_step.cli [OF this, of json_codec lib 7]
  have "sys_step json_codec lib (sample_served lib) (sample_accepted lib)"
    by (simp add: sample_accepted_def sample_io_def)
  then have r: "sys_reachable json_codec lib sample_config (sample_accepted lib)"
    by (rule sys_reachable.step [OF sample_served_reachable])
  have "draws_ok (sample_io ''10'' True Ev_Accept_Error) (sample_accepted lib)"
    by (simp add: sample_accepted_def sample_served_def cli_step_def step_serve_def draws_ok_def
        sample_io_def chosen_from_def iteration_order_def all_ports_def)
  from sys_step.cli [OF this, of json_codec lib 7]
  have "sys_step json_codec lib (sample_accepted lib) (sample_announced lib)"
    by (simp add: sample_announced_def sample_io_def)
  with r show ?thesis by (rule sys_reachable.step)
qed

lemma sample_announced_notices: "''9'' \<in> set (notices (sample_announced lib) 7)"
  by (simp add: sample_announced_def sample_accepted_def sample_served_def cli_step_def step_serve_def
      step_notify_def sample_io_def notices_deliver List.map_filter_def)

lemma count_list_distinct: "distinct xs \<Longrightarrow> x \<in> set xs \<Longrightarrow> count_list xs x = 1"
  by (induction xs) (auto simp: count_notin)

section \<open>Properties\<close>

text \<open>C8: the server implements the rendezvous protocol: in every reachable state, whatever
  CLIs, nodes, visitors, data connections and the dashboard do in between, its table of
  pending visitors is one that the protocol without aborts reaches, so that no visitor is
  wired to a foreign socket, no entry leaks and no sender is lost.\<close>

theorem server_rendezvous:
  assumes "sys_reachable cd lib cfg sys"
  shows "rv_reachable False (sv_pending (sy_server sys))"
  using visitors_ok_reachable [OF assms] by (simp add: visitors_ok_def Let_def)

theorem server_rendezvous_witness:
  "rv_reachable False (sv_pending (sy_server (sample_announced plain_lib)))"
  by (rule server_rendezvous [OF sample_announced_reachable])



end
