(* ===== verification/Control_Ports.thy ===== *)
theory Control_Ports
  imports Control_Sample
begin

text \<open>
  Who holds which public port. \<open>holds\<close> reads the port off each CLI task's program point;
  the tasks are clients of the pool interface, and its laws give that the ports of live
  tunnels and the free ports partition the configured range, whatever the interleaving.
\<close>

section \<open>The tunnel of a task\<close>

fun pc_ctx :: "cli_pc \<Rightarrow> tunnel_ctx option" where
  "pc_ctx (K_Pick x) = Some x"
| "pc_ctx (K_Bind x) = Some x"
| "pc_ctx (K_Ready x) = Some x"
| "pc_ctx (K_Insert x) = Some x"
| "pc_ctx (K_Publish x _) = Some x"
| "pc_ctx (K_Serve x) = Some x"
| "pc_ctx (K_Notify x _ _) = Some x"
| "pc_ctx (K_Open x _) = Some x"
| "pc_ctx (K_Node_Insert x _) = Some x"
| "pc_ctx (K_Increment x _ _) = Some x"
| "pc_ctx (K_Node_Publish x _ _) = Some x"
| "pc_ctx (K_Advertise x _) = Some x"
| "pc_ctx (K_Node_Serve x _) = Some x"
| "pc_ctx (K_Close_Order x _) = Some x"
| "pc_ctx (K_Decrement x _) = Some x"
| "pc_ctx (K_Remove x) = Some x"
| "pc_ctx (K_Record x _) = Some x"
| "pc_ctx (K_Closed x) = Some x"
| "pc_ctx (K_Release x) = Some x"
| "pc_ctx _ = None"

definition ctx_of :: "system \<Rightarrow> conn \<rightharpoonup> tunnel_ctx" where
  "ctx_of sys c = Option.bind (sy_cli sys c) (\<lambda>t. pc_ctx (ct_pc t))"

definition holds :: "system \<Rightarrow> conn \<rightharpoonup> u16" where
  "holds sys c = map_option tc_port (ctx_of sys c)"

lemma ctx_of_goto:
  "sy_cli sys c = Some t \<Longrightarrow> ctx_of (goto_cli c pc sys) = (ctx_of sys)(c := pc_ctx pc)"
  by (auto simp: ctx_of_def fun_eq_iff)

lemma ctx_of_frame [simp]:
  "ctx_of (on_server f sys) = ctx_of sys"
  "ctx_of (deliver d m ok sys) = ctx_of sys"
  "ctx_of (reject_to d r ok sys) = ctx_of sys"
  "ctx_of (drawn u sys) = ctx_of sys"
  "ctx_of (sys\<lparr>sy_visits := w\<rparr>) = ctx_of sys"
  "ctx_of (sys\<lparr>sy_server := s\<rparr>) = ctx_of sys"
  "ctx_of (goto_node d npc sys) = ctx_of sys"
  by (simp_all add: ctx_of_def fun_eq_iff)

lemma ctx_of_cong: "sy_cli sys' = sy_cli sys \<Longrightarrow> ctx_of sys' = ctx_of sys"
  by (rule ext) (simp add: ctx_of_def)

text \<open>Three kinds of steps: one takes a port, one gives it back, and all others keep the
  context of every task and the pool.\<close>

lemma cli_step_ctx:
  assumes "sy_cli sys c = Some t"
  obtains (keep) "ctx_of (cli_step rf c io sys) = ctx_of sys"
      "sv_port_mgr (sy_server (cli_step rf c io sys)) = sv_port_mgr (sy_server sys)"
  | (refused) "ct_pc t = K_Port" "snd (request_port (ct_register t) io (sv_port_mgr (sy_server sys))) = None"
      "ctx_of (cli_step rf c io sys) = ctx_of sys"
      "sv_port_mgr (sy_server (cli_step rf c io sys)) =
         fst (request_port (ct_register t) io (sv_port_mgr (sy_server sys)))"
  | (acquired) p where "ct_pc t = K_Port"
      "snd (request_port (ct_register t) io (sv_port_mgr (sy_server sys))) = Some p"
      "ctx_of (cli_step rf c io sys) =
         (ctx_of sys)(c \<mapsto> \<lparr>tc_tunnel_id = io_uuid io, tc_port = p\<rparr>)"
      "sv_port_mgr (sy_server (cli_step rf c io sys)) =
         fst (request_port (ct_register t) io (sv_port_mgr (sy_server sys)))"
  | (released) x where "ct_pc t = K_Release x"
      "ctx_of (cli_step rf c io sys) = (ctx_of sys)(c := None)"
      "sv_port_mgr (sy_server (cli_step rf c io sys)) = release (tc_port x) (sv_port_mgr (sy_server sys))"
proof -
  have x: "ctx_of sys c = pc_ctx (ct_pc t)" using assms by (simp add: ctx_of_def)
  have same: "(ctx_of sys)(c := pc_ctx (ct_pc t)) = ctx_of sys" using x by auto
  note st = cli_step_def assms ctx_of_goto
  show thesis
  proof (cases "ct_pc t")
    case K_Port
    then show thesis
      using refused acquired same assms
      by (cases "snd (request_port (ct_register t) io (sv_port_mgr (sy_server sys)))")
        (simp_all add: st step_port_def case_prod_beta)
  next
    case (K_Release x)
    with released assms show thesis by (simp add: st step_release_def)
  qed (rule keep; use same assms in \<open>simp add: st cli_defs remove_tunnel_def Let_def
      split: option.split serve_event.split\<close>)+
qed

section \<open>The pool and the tasks\<close>

lemma request_port_take:
  "request_port reg io pool = pm.take (rg_remote_port reg) (io_choice io) pool"
  by (simp add: request_port_def pm.take_def split: option.splits)

definition ports_ok :: "system \<Rightarrow> bool" where
  "ports_ok sys \<longleftrightarrow> pm.leased (sv_port_mgr (sy_server sys)) (holds sys)"

lemma holds_eq: "ctx_of sys' = ctx_of sys \<Longrightarrow> holds sys' = holds sys"
  by (rule ext) (simp add: holds_def)

lemma holds_update: "ctx_of sys' = (ctx_of sys)(c := x) \<Longrightarrow>
  holds sys' = (holds sys)(c := map_option tc_port x)"
  by (rule ext) (simp add: holds_def)

lemma ports_ok_cong:
  "ctx_of sys' = ctx_of sys \<Longrightarrow>
   sv_port_mgr (sy_server sys') = sv_port_mgr (sy_server sys) \<Longrightarrow> ports_ok sys' = ports_ok sys"
  using holds_eq [of sys' sys] by (simp add: ports_ok_def)

lemma ports_ok_cli:
  assumes "ports_ok sys" and "draws_ok io sys"
  shows "ports_ok (cli_step rf c io sys)"
proof (cases "sy_cli sys c")
  case None
  then show ?thesis using assms(1) by (simp add: cli_step_def)
next
  case (Some t)
  let ?sys' = "cli_step rf c io sys"
  let ?pm = "sv_port_mgr (sy_server sys)"
  have L: "pm.leased ?pm (holds sys)" using assms(1) by (simp add: ports_ok_def)
  have ch: "chosen_from (available ?pm) (io_choice io)" using assms(2) by (simp add: draws_ok_def)
  from Some show ?thesis
  proof (cases rule: cli_step_ctx [where rf = rf and io = io])
    case keep
    with ports_ok_cong [of ?sys' sys] assms(1) show ?thesis by simp
  next
    case refused
    with pm.leased_refused [OF L ch] holds_eq [of ?sys' sys] show ?thesis
      by (simp add: ports_ok_def request_port_take)
  next
    case (acquired p)
    have "holds sys c = None" using Some acquired(1) by (simp add: holds_def ctx_of_def)
    with acquired pm.leased_take [OF L ch, of _ p c] holds_update [of ?sys' sys c] show ?thesis
      by (simp add: ports_ok_def request_port_take)
  next
    case (released x)
    have "holds sys c = Some (tc_port x)" using Some released(1) by (simp add: holds_def ctx_of_def)
    with released pm.leased_give_back [OF L] holds_update [of ?sys' sys c] show ?thesis
      by (simp add: ports_ok_def)
  qed
qed

lemma ports_ok_step: "sys_step cd lib sys sys' \<Longrightarrow> ports_ok sys \<Longrightarrow> ports_ok sys'"
proof (induction rule: sys_step.induct)
  case (connect sys c stream host ok)
  let ?sys' = "handle_client cd c stream host ok sys"
  have "ctx_of ?sys' = ctx_of sys"
    using handle_client_cli [of cd c stream host ok sys] connect(1)
    by (auto simp: ctx_of_def fun_eq_iff)
  with connect ports_ok_cong [of ?sys' sys] show ?case by (simp add: handle_client_frame)
next
  case (cli io sys c)
  then have "ports_ok (cli_step (al_rfc3339 lib) c io sys)" by (simp add: ports_ok_cli)
  then show ?case
    using ports_ok_cong [of "drawn (io_uuid io) (cli_step (al_rfc3339 lib) c io sys)"] by simp
next
  case (node io sys c)
  then show ?case
    using ports_ok_cong [of "drawn (io_uuid io) (node_step cd c io sys)" sys]
      ctx_of_cong [of "node_step cd c io sys" sys]
    by (simp add: node_step_frame)
next
  case (data op sys)
  then show ?case
    using ports_ok_cong [of "on_server (sv_pending_update (op_apply cd op)) sys" sys] by simp
next
  case (visit sys v now)
  then show ?case
    using ports_ok_cong [of "visitor_done (al_rfc3339 lib) v now sys" sys]
      ctx_of_cong [of "visitor_done (al_rfc3339 lib) v now sys" sys]
    by (simp add: visitor_done_frame)
next
  case (api sys now order uuid parts req)
  then show ?case
    using ports_ok_cong [of "on_server (\<lambda>s. fst (api_handle lib now order uuid parts req s)) sys" sys]
    by (simp add: api_frame)
qed

lemma ports_ok_new: "ports_ok (system_new cfg)"
proof -
  have "holds (system_new cfg) = Map.empty"
    by (rule ext) (simp add: holds_def ctx_of_def system_new_def)
  moreover have "sv_port_mgr (sy_server (system_new cfg)) =
      pm_new (fst (cf_port_range cfg)) (snd (cf_port_range cfg))"
    by (simp add: system_new_def server_new_def)
  ultimately show ?thesis
    by (simp add: ports_ok_def pm.leased_def pm.partitioned_def pm_new_def managed_ports_def)
qed

lemma ports_ok_reachable: "sys_reachable cd lib cfg sys \<Longrightarrow> ports_ok sys"
  by (induction rule: sys_reachable.induct) (auto intro: ports_ok_new ports_ok_step)

text \<open>The range of the pool is the configured one.\<close>

lemma range_step:
  assumes "sys_step cd lib sys sys'"
  shows "port_range (sv_port_mgr (sy_server sys')) = port_range (sv_port_mgr (sy_server sys))"
  using assms
proof (cases rule: sys_step.cases)
  case (cli io c)
  show ?thesis
  proof (cases "sy_cli sys c")
    case (Some t)
    then show ?thesis
      by (cases rule: cli_step_ctx [where rf = "al_rfc3339 lib" and io = io])
        (auto simp: cli request_port_def acquire_def acquire_specific_def release_def
          split: option.splits)
  qed (simp add: cli cli_step_def)
qed (simp_all add: handle_client_frame node_step_frame visitor_done_frame api_frame)

lemma range_reachable:
  "sys_reachable cd lib cfg sys \<Longrightarrow> port_range (sv_port_mgr (sy_server sys)) = cf_port_range cfg"
proof (induction rule: sys_reachable.induct)
  case start
  show ?case by (simp add: system_new_def server_new_def pm_new_def)
qed (simp add: range_step)

section \<open>Properties\<close>

text \<open>C1: in every reachable state of the server the public ports are partitioned: each port
  of the configured range is free or held by exactly one tunnel, no port is both, and no
  port outside the range is ever assigned.\<close>

theorem port_ownership:
  assumes "sys_reachable cd lib cfg sys"
  shows "available (sv_port_mgr (sy_server sys)) \<union> ran (holds sys) =
      {fst (cf_port_range cfg)..snd (cf_port_range cfg)} \<and>
    available (sv_port_mgr (sy_server sys)) \<inter> ran (holds sys) = {} \<and>
    inj_on (holds sys) (dom (holds sys))"
  using ports_ok_reachable [OF assms] range_reachable [OF assms]
  by (simp add: ports_ok_def pm.leased_def pm.partitioned_def managed_ports_def)

theorem port_ownership_witness:
  "available (sv_port_mgr (sy_server (sample_served plain_lib))) \<inter>
     ran (holds (sample_served plain_lib)) = {}"
  using port_ownership [OF sample_served_reachable [of plain_lib]] by blast

text \<open>C2: no port leaks: once every CLI task has finished, by whatever way out, the whole
  range is free again.\<close>

theorem ports_all_returned:
  assumes "sys_reachable cd lib cfg sys"
    and "\<forall>t \<in> ran (sy_cli sys). ct_pc t = K_Finished"
  shows "available (sv_port_mgr (sy_server sys)) =
    {fst (cf_port_range cfg)..snd (cf_port_range cfg)}"
proof -
  have "holds sys = Map.empty"
    using assms(2) by (auto simp: holds_def ctx_of_def fun_eq_iff ran_def split: bind_splits)
  then have "ran (holds sys) = {}" by simp
  with ports_ok_reachable [OF assms(1)] range_reachable [OF assms(1)] show ?thesis
    by (simp add: ports_ok_def pm.leased_def pm.partitioned_def managed_ports_def)
qed

theorem ports_all_returned_witness:
  "available (sv_port_mgr (sy_server sample_failed)) = {30000..30009}"
  using ports_all_returned [OF sample_failed_reachable [of plain_lib]]
  by (simp add: sample_failed_def sample_config_def)

end
