(* ===== verification/Control_Tunnels.thy ===== *)
theory Control_Tunnels
  imports Control_Ports
begin

text \<open>
  The table of active tunnels (\<open>Control\<close>). Each entry belongs to the task that will remove it
  and describes that task's tunnel, and a task that has registered its tunnel finds it in the
  table until its own cleanup.
\<close>

section \<open>Tunnel ids\<close>

definition ids_ok :: "system \<Rightarrow> bool" where
  "ids_ok sys \<longleftrightarrow>
     (\<forall>c x. ctx_of sys c = Some x \<longrightarrow> tc_tunnel_id x \<in> sy_uuids sys) \<and>
     (\<forall>c d x y. ctx_of sys c = Some x \<longrightarrow> ctx_of sys d = Some y \<longrightarrow>
        tc_tunnel_id x = tc_tunnel_id y \<longrightarrow> c = d)"

lemma ids_ok_drawn: "ids_ok (drawn u sys) \<longleftrightarrow> ids_ok (sys\<lparr>sy_uuids := insert u (sy_uuids sys)\<rparr>)"
  by (simp add: drawn_def)

lemma ids_ok_mono:
  "ids_ok sys \<Longrightarrow> ctx_of sys' = ctx_of sys \<Longrightarrow> sy_uuids sys \<subseteq> sy_uuids sys' \<Longrightarrow> ids_ok sys'"
  unfolding ids_ok_def by auto

lemma ids_ok_cli:
  assumes "ids_ok sys" and "draws_ok io sys"
  shows "ids_ok (drawn (io_uuid io) (cli_step rf c io sys))"
proof (cases "sy_cli sys c")
  case None
  then show ?thesis
    using ids_ok_mono [OF assms(1), of "drawn (io_uuid io) (cli_step rf c io sys)"]
    by (auto simp: cli_step_def)
next
  case (Some t)
  have fresh: "io_uuid io \<notin> sy_uuids sys" using assms(2) by (simp add: draws_ok_def)
  from Some show ?thesis
  proof (cases rule: cli_step_ctx [where rf = rf and io = io])
    case (acquired p)
    have "tc_tunnel_id y \<noteq> io_uuid io \<and> io_uuid io \<noteq> tc_tunnel_id y"
      if "ctx_of sys d = Some y" for d y
      using assms(1) fresh that unfolding ids_ok_def by metis
    with assms(1) acquired(3) show ?thesis
      by (simp add: ids_ok_def)
  next
    case (released x)
    with assms(1) show ?thesis by (auto simp: ids_ok_def)
  qed (simp_all add: ids_ok_mono [OF assms(1)] subset_insertI)
qed

lemma ids_ok_step: "sys_step cd lib sys sys' \<Longrightarrow> ids_ok sys \<Longrightarrow> ids_ok sys'"
proof (induction rule: sys_step.induct)
  case (connect sys c stream host ok)
  have "ctx_of (handle_client cd c stream host ok sys) = ctx_of sys"
    using handle_client_cli [of cd c stream host ok sys] connect(1)
    by (auto simp: ctx_of_def fun_eq_iff)
  with connect show ?case by (auto intro: ids_ok_mono simp: handle_client_frame)
next
  case (cli io sys c)
  then show ?case by (simp add: ids_ok_cli)
next
  case (node io sys c)
  then show ?case
    using ctx_of_cong [of "node_step cd c io sys" sys]
    by (auto intro: ids_ok_mono simp: node_step_frame)
next
  case (visit sys v now)
  then show ?case
    using ctx_of_cong [of "visitor_done (al_rfc3339 lib) v now sys" sys]
    by (auto intro: ids_ok_mono simp: visitor_done_frame)
qed (auto intro: ids_ok_mono)

lemma ids_ok_new: "ids_ok (system_new cfg)"
  by (simp add: ids_ok_def ctx_of_def system_new_def)

lemma ids_ok_reachable: "sys_reachable cd lib cfg sys \<Longrightarrow> ids_ok sys"
  by (induction rule: sys_reachable.induct) (auto intro: ids_ok_new ids_ok_step)

section \<open>The table\<close>

text \<open>Whether the tunnel of a task is in the table; at \<open>K_Remove\<close> the program point does
  not tell.\<close>

fun pc_listed :: "cli_pc \<Rightarrow> bool option" where
  "pc_listed (K_Publish _ _) = Some True"
| "pc_listed (K_Serve _) = Some True"
| "pc_listed (K_Notify _ _ _) = Some True"
| "pc_listed (K_Increment _ _ _) = Some True"
| "pc_listed (K_Node_Publish _ _ _) = Some True"
| "pc_listed (K_Advertise _ _) = Some True"
| "pc_listed (K_Node_Serve _ _) = Some True"
| "pc_listed (K_Close_Order _ _) = Some True"
| "pc_listed (K_Decrement _ _) = Some True"
| "pc_listed (K_Remove _) = None"
| "pc_listed _ = Some False"

text \<open>What one step of a CLI task does to its program point and to the table.\<close>

lemma cli_step_table:
  assumes "sy_cli sys c = Some t"
  obtains (move) pc' where "sy_cli (cli_step rf c io sys) = (sy_cli sys)(c \<mapsto> t\<lparr>ct_pc := pc'\<rparr>)"
      "pc_ctx pc' = pc_ctx (ct_pc t)" "pc_listed pc' = pc_listed (ct_pc t) \<or> pc_listed pc' = None"
      "sv_active_tunnels (sy_server (cli_step rf c io sys)) = sv_active_tunnels (sy_server sys)"
  | (begun) x where "sy_cli (cli_step rf c io sys) = (sy_cli sys)(c \<mapsto> t\<lparr>ct_pc := K_Pick x\<rparr>)"
      "pc_ctx (ct_pc t) = None" "tc_tunnel_id x = io_uuid io"
      "sv_active_tunnels (sy_server (cli_step rf c io sys)) = sv_active_tunnels (sy_server sys)"
  | (listed) pc' x node where "sy_cli (cli_step rf c io sys) = (sy_cli sys)(c \<mapsto> t\<lparr>ct_pc := pc'\<rparr>)"
      "pc_ctx (ct_pc t) = Some x" "pc_ctx pc' = Some x" "pc_listed (ct_pc t) = Some False"
      "pc_listed pc' = Some True"
      "sv_active_tunnels (sy_server (cli_step rf c io sys)) =
        (sv_active_tunnels (sy_server sys))
          (tc_tunnel_id x \<mapsto> entry_for (ct_register t) x c node (io_now io))"
  | (removed) pc' x where "sy_cli (cli_step rf c io sys) = (sy_cli sys)(c \<mapsto> t\<lparr>ct_pc := pc'\<rparr>)"
      "ct_pc t = K_Remove x" "pc_ctx pc' = Some x" "pc_listed pc' = Some False"
      "sv_active_tunnels (sy_server (cli_step rf c io sys)) =
        (sv_active_tunnels (sy_server sys))(tc_tunnel_id x := None)"
  | (ended) pc' where "sy_cli (cli_step rf c io sys) = (sy_cli sys)(c \<mapsto> t\<lparr>ct_pc := pc'\<rparr>)"
      "pc_listed (ct_pc t) = Some False" "pc_ctx pc' = None"
      "sv_active_tunnels (sy_server (cli_step rf c io sys)) = sv_active_tunnels (sy_server sys)"
proof -
  have stay: "(sy_cli sys)(c \<mapsto> t\<lparr>ct_pc := ct_pc t\<rparr>) = sy_cli sys" using assms by (simp add: fun_upd_idem)
  note st = cli_step_def assms
  show thesis
  proof (cases "ct_pc t")
    case K_Token
    show thesis
      by (rule move [of "if known_token (rg_token (ct_register t)) (sy_server sys) then K_Device else K_Finished"])
        (simp_all add: st K_Token step_token_def)
  next
    case K_Device
    show thesis
      by (rule move [of K_Port]) (simp_all add: st K_Device step_device_def split: option.split)
  next
    case K_Port
    show thesis
    proof (cases "snd (request_port (ct_register t) io (sv_port_mgr (sy_server sys)))")
      case None
      show thesis
        by (rule move [of K_Finished]) (simp_all add: st K_Port step_port_def case_prod_beta None)
    next
      case (Some p)
      show thesis
        by (rule begun [of "\<lparr>tc_tunnel_id = io_uuid io, tc_port = p\<rparr>"])
          (simp_all add: st K_Port step_port_def case_prod_beta Some)
    qed
  next
    case (K_Pick x)
    show thesis
      by (rule move [of "case pick (io_order io) (rg_node (ct_register t)) (sv_node_manager (sy_server sys)) of
          Some node \<Rightarrow> K_Open x node | None \<Rightarrow> K_Bind x"])
        (simp_all add: st K_Pick step_pick_def split: option.split)
  next
    case (K_Bind x)
    show thesis
      by (rule move [of "if io_ok io then K_Ready x else K_Remove x"])
        (simp_all add: st K_Bind step_bind_def)
  next
    case (K_Ready x)
    show thesis
      by (rule move [of "if io_sent io then K_Insert x else K_Remove x"])
        (simp_all add: st K_Ready step_ready_def)
  next
    case (K_Insert x)
    show thesis
      by (rule listed [of "K_Publish x (io_now io)" x None]) (simp_all add: st K_Insert step_insert_def)
  next
    case (K_Publish x ts)
    show thesis by (rule move [of "K_Serve x"]) (simp_all add: st K_Publish step_publish_def)
  next
    case (K_Serve x)
    show thesis
    proof (cases "\<exists>v ip p. io_event io = Ev_Visitor v ip p")
      case True
      then obtain v ip p where "io_event io = Ev_Visitor v ip p" by blast
      then show thesis
        by (intro move [of "K_Notify x v (io_uuid io)"]) (simp_all add: st K_Serve step_serve_def)
    next
      case False
      show thesis
        by (rule move [of "if io_event io = Ev_Gone \<or> io_event io = Ev_Close \<and> c \<in> sv_permits (sy_server sys)
            then K_Remove x else K_Serve x"])
          (use False stay in \<open>auto simp: st K_Serve step_serve_def split: serve_event.split\<close>)
    qed
  next
    case (K_Notify x v i)
    show thesis
      by (rule move [of "if io_sent io then K_Serve x else K_Remove x"])
        (simp_all add: st K_Notify step_notify_def)
  next
    case (K_Open x node)
    show thesis
      by (rule move [of "if io_sent io then K_Node_Insert x node else K_Bind x"])
        (simp_all add: st K_Open step_open_def)
  next
    case (K_Node_Insert x node)
    show thesis
      by (rule listed [of "K_Increment x node (io_now io)" x "Some node"])
        (simp_all add: st K_Node_Insert step_node_insert_def)
  next
    case (K_Increment x node ts)
    show thesis
      by (rule move [of "K_Node_Publish x node ts"]) (simp_all add: st K_Increment step_increment_def)
  next
    case (K_Node_Publish x node ts)
    show thesis
      by (rule move [of "K_Advertise x node"]) (simp_all add: st K_Node_Publish step_node_publish_def)
  next
    case (K_Advertise x node)
    show thesis
      by (rule move [of "K_Node_Serve x node"]) (simp_all add: st K_Advertise step_advertise_def)
  next
    case (K_Node_Serve x node)
    show thesis
      by (rule move [of "if io_event io = Ev_Gone \<or> io_event io = Ev_Close \<and> c \<in> sv_permits (sy_server sys)
          then K_Close_Order x node else K_Node_Serve x node"])
        (use stay in \<open>auto simp: st K_Node_Serve step_node_serve_def split: serve_event.split\<close>)
  next
    case (K_Close_Order x node)
    show thesis
      by (rule move [of "K_Decrement x node"]) (simp_all add: st K_Close_Order step_close_order_def)
  next
    case (K_Decrement x node)
    show thesis by (rule move [of "K_Remove x"]) (simp_all add: st K_Decrement step_decrement_def)
  next
    case (K_Remove x)
    show thesis
      by (rule removed [of "case sv_active_tunnels (sy_server sys) (tc_tunnel_id x) of
          Some entry \<Rightarrow> K_Record x entry | None \<Rightarrow> K_Release x" x])
        (simp_all add: st K_Remove step_remove_def remove_tunnel_def Let_def split: option.split)
  next
    case (K_Record x entry)
    show thesis by (rule move [of "K_Closed x"]) (simp_all add: st K_Record step_record_def)
  next
    case (K_Closed x)
    show thesis by (rule move [of "K_Release x"]) (simp_all add: st K_Closed step_closed_def)
  next
    case (K_Release x)
    show thesis by (rule ended [of K_Finished]) (simp_all add: st K_Release step_release_def)
  next
    case K_Finished
    show thesis by (rule move [of K_Finished]) (use stay K_Finished in \<open>simp_all add: st\<close>)
  qed
qed

text \<open>The table and the tasks agree.\<close>

definition entry_owned :: "system \<Rightarrow> string \<Rightarrow> tunnel_entry \<Rightarrow> bool" where
  "entry_owned sys i e \<longleftrightarrow>
     (\<exists>t x node ts. sy_cli sys (te_close e) = Some t \<and> pc_ctx (ct_pc t) = Some x \<and>
        tc_tunnel_id x = i \<and> pc_listed (ct_pc t) \<noteq> Some False \<and>
        e = entry_for (ct_register t) x (te_close e) node ts)"

definition task_listed :: "system \<Rightarrow> cli_task \<Rightarrow> bool" where
  "task_listed sys t \<longleftrightarrow>
     (case (pc_ctx (ct_pc t), pc_listed (ct_pc t)) of
        (Some x, Some b) \<Rightarrow> (sv_active_tunnels (sy_server sys) (tc_tunnel_id x) \<noteq> None) = b
      | _ \<Rightarrow> True)"

definition table_ok :: "system \<Rightarrow> bool" where
  "table_ok sys \<longleftrightarrow>
     (\<forall>c t. sy_cli sys c = Some t \<longrightarrow> task_listed sys t) \<and>
     (\<forall>i e. sv_active_tunnels (sy_server sys) i = Some e \<longrightarrow> entry_owned sys i e)"

lemma table_ok_cong:
  assumes "sy_cli sys' = sy_cli sys"
    and "sv_active_tunnels (sy_server sys') = sv_active_tunnels (sy_server sys)"
  shows "table_ok sys' = table_ok sys"
  unfolding table_ok_def task_listed_def entry_owned_def assms by (rule refl)

lemma task_listed_cong:
  assumes "sv_active_tunnels (sy_server sys') = sv_active_tunnels (sy_server sys)"
  shows "task_listed sys' = task_listed sys"
  unfolding task_listed_def assms by (rule refl)

lemma entry_owned_ctx:
  "entry_owned sys i e \<Longrightarrow> \<exists>x. ctx_of sys (te_close e) = Some x \<and> tc_tunnel_id x = i"
  by (auto simp: entry_owned_def ctx_of_def)

lemma entry_for_close [simp]: "te_close (entry_for reg x c node ts) = c"
  by (simp add: entry_for_def)

lemma entry_owned_other:
  assumes "entry_owned sys i e" and "te_close e \<noteq> c" and "sy_cli sys' = (sy_cli sys)(c \<mapsto> t)"
  shows "entry_owned sys' i e"
  using assms by (auto simp: entry_owned_def)

text \<open>A step of one task concerns only the entry under the id of its own tunnel.\<close>

lemma table_ok_update:
  assumes "table_ok sys" and "ids_ok sys" and "sy_cli sys c = Some t"
    and cli: "sy_cli sys' = (sy_cli sys)(c \<mapsto> t')"
    and others: "\<And>i. i \<notin> tc_tunnel_id ` set_option (pc_ctx (ct_pc t)) \<Longrightarrow>
      sv_active_tunnels (sy_server sys') i = sv_active_tunnels (sy_server sys) i"
    and mine: "task_listed sys' t'"
    and own: "\<And>x e. pc_ctx (ct_pc t) = Some x \<Longrightarrow>
      sv_active_tunnels (sy_server sys') (tc_tunnel_id x) = Some e \<Longrightarrow>
      entry_owned sys' (tc_tunnel_id x) e"
  shows "table_ok sys'"
proof -
  have mine_id: "i \<in> tc_tunnel_id ` set_option (pc_ctx (ct_pc t))"
    if "ctx_of sys c = Some x" "tc_tunnel_id x = i" for x i
    using that assms(3) by (auto simp: ctx_of_def)
  have "task_listed sys' s" if s: "sy_cli sys' d = Some s" for d s
  proof (cases "d = c")
    case True
    with s cli mine show ?thesis by simp
  next
    case False
    with s cli have sd: "sy_cli sys d = Some s" by simp
    then have ok: "task_listed sys s" using assms(1) by (simp add: table_ok_def)
    show ?thesis
    proof (cases "pc_ctx (ct_pc s)")
      case None
      then show ?thesis by (simp add: task_listed_def)
    next
      case (Some y)
      have "tc_tunnel_id y \<notin> tc_tunnel_id ` set_option (pc_ctx (ct_pc t))"
      proof
        assume "tc_tunnel_id y \<in> tc_tunnel_id ` set_option (pc_ctx (ct_pc t))"
        then obtain x where "pc_ctx (ct_pc t) = Some x" "tc_tunnel_id x = tc_tunnel_id y"
          by (auto simp: elem_set)
        then have "ctx_of sys c = Some x" "ctx_of sys d = Some y"
          using assms(3) sd Some by (simp_all add: ctx_of_def)
        with assms(2) \<open>tc_tunnel_id x = tc_tunnel_id y\<close> False show False
          unfolding ids_ok_def by metis
      qed
      with others ok Some show ?thesis
        by (cases "pc_listed (ct_pc s)") (simp_all add: task_listed_def)
    qed
  qed
  moreover have "entry_owned sys' i e" if e: "sv_active_tunnels (sy_server sys') i = Some e" for i e
  proof (cases "i \<in> tc_tunnel_id ` set_option (pc_ctx (ct_pc t))")
    case True
    then obtain x where "pc_ctx (ct_pc t) = Some x" "i = tc_tunnel_id x" by (auto simp: elem_set)
    with own e show ?thesis by simp
  next
    case False
    with others e have "sv_active_tunnels (sy_server sys) i = Some e" by simp
    then have ow: "entry_owned sys i e" using assms(1) by (simp add: table_ok_def)
    then have "te_close e \<noteq> c" using False mine_id entry_owned_ctx by blast
    then show ?thesis by (rule entry_owned_other [OF ow _ cli])
  qed
  ultimately show ?thesis by (simp add: table_ok_def)
qed

lemma table_ok_cli:
  assumes "table_ok sys" and "ids_ok sys" and "draws_ok io sys"
  shows "table_ok (cli_step rf c io sys)"
proof (cases "sy_cli sys c")
  case None
  then show ?thesis using assms(1) by (simp add: cli_step_def)
next
  case (Some t)
  let ?sys' = "cli_step rf c io sys"
  let ?act = "sv_active_tunnels (sy_server sys)"
  have listed_t: "task_listed sys t" using assms(1) Some by (simp add: table_ok_def)
  note upd = table_ok_update [OF assms(1,2) Some, of ?sys']
  have owned: "entry_owned sys i e" if "?act i = Some e" for i e
    using assms(1) that by (simp add: table_ok_def)
  text \<open>An entry under the task's own id is the task's.\<close>
  have own_close: "te_close e = c \<and> pc_listed (ct_pc t) \<noteq> Some False \<and>
      (\<exists>node ts. e = entry_for (ct_register t) x c node ts)"
    if "pc_ctx (ct_pc t) = Some x" "?act (tc_tunnel_id x) = Some e" for x e
  proof -
    from owned [OF that(2)] obtain s y node ts where y: "sy_cli sys (te_close e) = Some s"
      "pc_ctx (ct_pc s) = Some y" "tc_tunnel_id y = tc_tunnel_id x"
      "pc_listed (ct_pc s) \<noteq> Some False" "e = entry_for (ct_register s) y (te_close e) node ts"
      by (auto simp: entry_owned_def)
    have "ctx_of sys (te_close e) = Some y" "ctx_of sys c = Some x"
      using y Some that(1) by (simp_all add: ctx_of_def)
    with assms(2) y(3) have "te_close e = c" unfolding ids_ok_def by metis
    with y Some that(1) show ?thesis by auto
  qed
  from Some show ?thesis
  proof (cases rule: cli_step_table [where rf = rf and io = io])
    case (move pc')
    show ?thesis
    proof (rule upd [OF move(1)])
      show "task_listed ?sys' (t\<lparr>ct_pc := pc'\<rparr>)"
        using listed_t move(2-4) by (auto simp: task_listed_def split: option.splits)
    next
      fix x e
      assume x: "pc_ctx (ct_pc t) = Some x" "sv_active_tunnels (sy_server ?sys') (tc_tunnel_id x) = Some e"
      with own_close [of x e] move show "entry_owned ?sys' (tc_tunnel_id x) e"
        by (auto simp: entry_owned_def)
    qed (simp add: move)
  next
    case (begun x)
    have "?act (tc_tunnel_id x) = None"
    proof (rule ccontr)
      assume "?act (tc_tunnel_id x) \<noteq> None"
      then obtain e where "?act (tc_tunnel_id x) = Some e" by auto
      then obtain y where "ctx_of sys (te_close e) = Some y" "tc_tunnel_id y = tc_tunnel_id x"
        using owned entry_owned_ctx by blast
      with assms(2,3) begun(3) show False unfolding ids_ok_def draws_ok_def by metis
    qed
    then show ?thesis
      by (intro upd [OF begun(1)]) (simp_all add: begun task_listed_def)
  next
    case (listed pc' x node)
    show ?thesis
      by (rule upd [OF listed(1)])
        (use listed in \<open>auto simp: task_listed_def entry_owned_def\<close>)
  next
    case (removed pc' x)
    show ?thesis
      by (rule upd [OF removed(1)]) (use removed in \<open>auto simp: task_listed_def\<close>)
  next
    case (ended pc')
    show ?thesis
    proof (rule upd [OF ended(1)])
      fix x e
      assume x: "pc_ctx (ct_pc t) = Some x" "sv_active_tunnels (sy_server ?sys') (tc_tunnel_id x) = Some e"
      with own_close [of x e] ended show "entry_owned ?sys' (tc_tunnel_id x) e" by simp
    qed (use ended in \<open>simp_all add: task_listed_def\<close>)
  qed
qed

lemma table_ok_connect:
  assumes "table_ok sys" and "sy_cli sys c = None"
  shows "table_ok (sys\<lparr>sy_cli := (sy_cli sys)(c \<mapsto> \<lparr>ct_register = reg, ct_pc = K_Token\<rparr>)\<rparr>)"
proof -
  let ?sys' = "sys\<lparr>sy_cli := (sy_cli sys)(c \<mapsto> \<lparr>ct_register = reg, ct_pc = K_Token\<rparr>)\<rparr>"
  have "entry_owned ?sys' i e" if "entry_owned sys i e" for i e
    using that assms(2) by (auto simp: entry_owned_def)
  moreover have "task_listed ?sys' = task_listed sys" by (rule task_listed_cong) simp
  ultimately show ?thesis using assms(1) by (auto simp: table_ok_def task_listed_def)
qed

lemma table_ok_step:
  "sys_step cd lib sys sys' \<Longrightarrow> ids_ok sys \<Longrightarrow> table_ok sys \<Longrightarrow> table_ok sys'"
proof (induction rule: sys_step.induct)
  case (connect sys c stream host ok)
  then show ?case
    using table_ok_connect [of sys c] table_ok_cong [of "handle_client cd c stream host ok sys" sys]
    by (auto simp: handle_client_def split: client_kind.splits)
next
  case (cli io sys c)
  then have "table_ok (cli_step (al_rfc3339 lib) c io sys)" by (simp add: table_ok_cli)
  then show ?case
    using table_ok_cong [of "drawn (io_uuid io) (cli_step (al_rfc3339 lib) c io sys)"] by simp
next
  case (node io sys c)
  then show ?case
    using table_ok_cong [of "drawn (io_uuid io) (node_step cd c io sys)" sys]
    by (simp add: node_step_frame)
next
  case (data op sys)
  then show ?case
    using table_ok_cong [of "on_server (sv_pending_update (op_apply cd op)) sys" sys] by simp
next
  case (visit sys v now)
  then show ?case
    using table_ok_cong [of "visitor_done (al_rfc3339 lib) v now sys" sys]
    by (simp add: visitor_done_frame)
next
  case (api sys now order uuid parts req)
  then show ?case
    using table_ok_cong [of "on_server (\<lambda>s. fst (api_handle lib now order uuid parts req s)) sys" sys]
    by (simp add: api_frame)
qed

lemma table_ok_new: "table_ok (system_new cfg)"
  by (simp add: table_ok_def system_new_def server_new_def)

lemma table_ok_reachable: "sys_reachable cd lib cfg sys \<Longrightarrow> table_ok sys"
proof (induction rule: sys_reachable.induct)
  case start
  show ?case by (rule table_ok_new)
next
  case (step sys sys')
  with ids_ok_reachable table_ok_step show ?case by blast
qed

section \<open>Properties\<close>

text \<open>C3: the table never lies: in every reachable state an entry belongs to a live task, the
  one its close signal wakes and its route leads to, and shows that task's id, ports and
  host name; so a dashboard close reaches the right tunnel, and a visitor reported by a
  node is announced to the CLI that owns the tunnel and to no other.\<close>

theorem tunnel_entry_owned:
  assumes "sys_reachable cd lib cfg sys" and "sv_active_tunnels (sy_server sys) i = Some e"
  shows "\<exists>t x. sy_cli sys (te_close e) = Some t \<and> ctx_of sys (te_close e) = Some x \<and>
    tc_tunnel_id x = i \<and> te_remote_port e = tc_port x \<and>
    te_local_port e = rg_local_port (ct_register t) \<and> te_hostname e = rg_hostname (ct_register t) \<and>
    (case te_route e of None \<Rightarrow> te_node e = None
     | Some (cli, host, port) \<Rightarrow> cli = te_close e \<and> te_node e \<noteq> None)"
proof -
  have "entry_owned sys i e"
    using table_ok_reachable [OF assms(1)] assms(2) by (simp add: table_ok_def)
  then obtain t x node ts where t: "sy_cli sys (te_close e) = Some t" "pc_ctx (ct_pc t) = Some x"
    "tc_tunnel_id x = i" and e: "e = entry_for (ct_register t) x (te_close e) node ts"
    by (auto simp: entry_owned_def)
  have "te_remote_port e = tc_port x \<and> te_local_port e = rg_local_port (ct_register t) \<and>
      te_hostname e = rg_hostname (ct_register t) \<and>
      (case te_route e of None \<Rightarrow> te_node e = None
       | Some (cli, host, port) \<Rightarrow> cli = te_close e \<and> te_node e \<noteq> None)"
    by (subst (1 2 3 4 5 7) e) (cases node; simp add: entry_for_def)
  moreover have "ctx_of sys (te_close e) = Some x" using t by (simp add: ctx_of_def)
  ultimately show ?thesis using t(1,3) by blast
qed

theorem tunnel_entry_owned_witness:
  "\<exists>x. ctx_of (sample_served plain_lib) 7 = Some x \<and> tc_tunnel_id x = ''3'' \<and> tc_port x = 30001"
proof -
  have e: "sv_active_tunnels (sy_server (sample_served plain_lib)) ''3'' = Some sample_tunnel"
    by (simp add: sample_served_def)
  from tunnel_entry_owned [OF sample_served_reachable e] show ?thesis
    by (auto simp: sample_tunnel_def entry_for_def sample_ctx_def)
qed

end
