(* ===== verification/Control_Mesh.thy ===== *)
theory Control_Mesh
  imports Control_Sample
begin

text \<open>
  A sample run of the control plane (\<open>Control\<close>) with an edge node: node 5 registers, CLI 7
  opens a tunnel through it, and a visitor reaches the node before the CLI has been told
  that its tunnel is open. The invariants of the node registry have their witness here, and
  the run shows the order of frames a CLI must be ready for.
\<close>

section \<open>States of the run\<close>

definition mesh_node :: register_node where
  "mesh_node = \<lparr>rn_token = ''t'', rn_name = ''edge'', rn_data_port = 7002\<rparr>"

definition mesh_sys ::
    "node_pc \<Rightarrow> node_manager \<Rightarrow> (conn \<rightharpoonup> cli_task) \<Rightarrow> u16 set \<Rightarrow> (string \<rightharpoonup> tunnel_entry) \<Rightarrow>
     bh_event list \<Rightarrow> message list \<Rightarrow> message list \<Rightarrow> string set \<Rightarrow> system" where
  "mesh_sys npc nodes tasks free table bus to_node to_cli uuids =
     (system_new sample_config)
       \<lparr>sy_server := (server_new sample_config)
          \<lparr>sv_port_mgr := \<lparr>available = free, port_range = (30000, 30009)\<rparr>,
           sv_node_manager := nodes, sv_active_tunnels := table, sv_event_bus := bus\<rparr>,
        sy_cli := tasks,
        sy_node := [5 \<mapsto> \<lparr>nt_register = mesh_node, nt_host = ''h'', nt_pc = npc\<rparr>],
        sy_sent := (\<lambda>_. [])(5 := to_node, 7 := to_cli), sy_uuids := uuids\<rparr>"

definition mesh_tasks :: "cli_pc \<Rightarrow> conn \<rightharpoonup> cli_task" where
  "mesh_tasks pc = [7 \<mapsto> \<lparr>ct_register = sample_register, ct_pc = pc\<rparr>]"

lemma mesh_tasks_simps [simp]:
  "mesh_tasks pc 7 = Some \<lparr>ct_register = sample_register, ct_pc = pc\<rparr>"
  by (simp add: mesh_tasks_def)

lemma sample_register_fields [simp]:
  "rg_token sample_register = ''t''" "rg_protocol sample_register = Tcp"
  "rg_remote_port sample_register = Some 30001" "rg_node sample_register = None"
  "rg_hostname sample_register = None"
  by (simp_all add: sample_register_def)

definition mesh_io :: "string \<Rightarrow> string list \<Rightarrow> (nat \<times> string) io_result \<Rightarrow> io" where
  "mesh_io u order line = \<lparr>io_ok = True, io_sent = True, io_now = 0, io_uuid = u,
     io_choice = Some 30000, io_order = order, io_event = Ev_Accept_Error, io_line = line\<rparr>"

lemma mesh_io_fields [simp]:
  "io_ok (mesh_io u order line)" "io_sent (mesh_io u order line)" "io_now (mesh_io u order line) = 0"
  "io_uuid (mesh_io u order line) = u" "io_choice (mesh_io u order line) = Some 30000"
  "io_order (mesh_io u order line) = order" "io_event (mesh_io u order line) = Ev_Accept_Error"
  "io_line (mesh_io u order line) = line"
  by (simp_all add: mesh_io_def)

lemma mesh_fields [simp]:
  "sy_cli (mesh_sys npc nodes tasks free table bus to_node to_cli uuids) = tasks"
  "sy_node (mesh_sys npc nodes tasks free table bus to_node to_cli uuids) 5 =
     Some \<lparr>nt_register = mesh_node, nt_host = ''h'', nt_pc = npc\<rparr>"
  "sy_uuids (mesh_sys npc nodes tasks free table bus to_node to_cli uuids) = uuids"
  "sy_sent (mesh_sys npc nodes tasks free table bus to_node to_cli uuids) 7 = to_cli"
  "sv_port_mgr (sy_server (mesh_sys npc nodes tasks free table bus to_node to_cli uuids)) =
     \<lparr>available = free, port_range = (30000, 30009)\<rparr>"
  "sv_active_tunnels (sy_server (mesh_sys npc nodes tasks free table bus to_node to_cli uuids)) = table"
  "sv_node_manager (sy_server (mesh_sys npc nodes tasks free table bus to_node to_cli uuids)) = nodes"
  "sv_tokens (sy_server (mesh_sys npc nodes tasks free table bus to_node to_cli uuids)) = [''t'']"
  by (simp_all add: mesh_sys_def system_new_def server_new_def sample_config_def)

lemma mesh_updates:
  "goto_node 5 npc' (mesh_sys npc nodes tasks free table bus to_node to_cli uuids) =
     mesh_sys npc' nodes tasks free table bus to_node to_cli uuids"
  "goto_cli 7 pc' (mesh_sys npc nodes (mesh_tasks pc) free table bus to_node to_cli uuids) =
     mesh_sys npc nodes (mesh_tasks pc') free table bus to_node to_cli uuids"
  "drawn u (mesh_sys npc nodes tasks free table bus to_node to_cli uuids) =
     mesh_sys npc nodes tasks free table bus to_node to_cli (insert u uuids)"
  "deliver 5 m True (mesh_sys npc nodes tasks free table bus to_node to_cli uuids) =
     mesh_sys npc nodes tasks free table bus (to_node @ [m]) to_cli uuids"
  "deliver 7 m True (mesh_sys npc nodes tasks free table bus to_node to_cli uuids) =
     mesh_sys npc nodes tasks free table bus to_node (to_cli @ [m]) uuids"
  "on_server (sv_publish e) (mesh_sys npc nodes tasks free table bus to_node to_cli uuids) =
     mesh_sys npc nodes tasks free table (bus @ [e]) to_node to_cli uuids"
  "on_server (insert_tunnel i te) (mesh_sys npc nodes tasks free table bus to_node to_cli uuids) =
     mesh_sys npc nodes tasks free (table(i \<mapsto> te)) bus to_node to_cli uuids"
  "on_server (sv_node_manager_update f) (mesh_sys npc nodes tasks free table bus to_node to_cli uuids) =
     mesh_sys npc (f nodes) tasks free table bus to_node to_cli uuids"
  "on_server (sv_port_mgr_update (\<lambda>_. \<lparr>available = g, port_range = (30000, 30009)\<rparr>))
     (mesh_sys npc nodes tasks free table bus to_node to_cli uuids) =
     mesh_sys npc nodes tasks g table bus to_node to_cli uuids"
  by (simp_all add: mesh_sys_def goto_cli_def goto_node_def drawn_def deliver_def on_server_def
      sv_publish_def publish_def insert_tunnel_def fun_eq_iff system_new_def mesh_tasks_def)

lemma mesh_draws:
  assumes "u \<notin> uuids" and "30000 \<in> free" and "iteration_order nodes order"
  shows "draws_ok (mesh_io u order line)
    (mesh_sys npc nodes tasks free table bus to_node to_cli uuids)"
  using assms by (auto simp: draws_ok_def chosen_from_def)

lemma mesh_cli:
  assumes "sys_reachable cd lib cfg (mesh_sys npc nodes tasks free table bus to_node to_cli uuids)"
    and "u \<notin> uuids" and "30000 \<in> free" and "iteration_order nodes order"
    and "drawn u (cli_step (al_rfc3339 lib) 7 (mesh_io u order Io_Err)
      (mesh_sys npc nodes tasks free table bus to_node to_cli uuids)) = s'"
  shows "sys_reachable cd lib cfg s'"
  using sys_reachable.step [OF assms(1) sys_step.cli [where c = 7, OF mesh_draws [OF assms(2-4)]]]
  by (simp add: assms(5) [symmetric])

lemma mesh_node_step:
  assumes "sys_reachable cd lib cfg (mesh_sys npc nodes tasks free table bus to_node to_cli uuids)"
    and "u \<notin> uuids" and "30000 \<in> free" and "iteration_order nodes order"
    and "drawn u (node_step cd 5 (mesh_io u order line)
      (mesh_sys npc nodes tasks free table bus to_node to_cli uuids)) = s'"
  shows "sys_reachable cd lib cfg s'"
  using sys_reachable.step [OF assms(1) sys_step.node [where c = 5, OF mesh_draws [OF assms(2-4)]]]
  by (simp add: assms(5) [symmetric])

section \<open>The run\<close>

definition mesh_info :: node_info where
  "mesh_info = \<lparr>ni_node_id = ''n'', ni_name = ''edge'', ni_host = ''h'', ni_data_port = 7002,
     ni_tunnel_count = 0, ni_tx = 5\<rparr>"

lemma mesh_order: "iteration_order [''n'' \<mapsto> i] [''n'']" "iteration_order Map.empty []"
  by (simp_all add: iteration_order_def)

lemma all_ports_first [simp]: "30000 \<in> all_ports" "30000 \<in> all_ports - {30001}"
  by (simp_all add: all_ports_def)

lemma mesh_connected:
  "sys_reachable json_codec lib sample_config
     (mesh_sys R_Token Map.empty Map.empty all_ports Map.empty [] [] [] {})"
proof -
  have "wf_message (Register_Node mesh_node)"
    by (simp add: wf_message_def mesh_node_def port_json_def valid_utf8_ascii)
  then obtain stream where st: "classify json_codec (fst (read_frame stream)) = As_Node mesh_node"
    using admits_register_node by blast
  have "sys_step json_codec lib (system_new sample_config)
      (handle_client json_codec 5 stream ''h'' True (system_new sample_config))"
    by (rule connect) (simp_all add: system_new_def)
  moreover have "handle_client json_codec 5 stream ''h'' True (system_new sample_config) =
      mesh_sys R_Token Map.empty Map.empty all_ports Map.empty [] [] [] {}"
    by (simp add: handle_client_def st mesh_sys_def system_new_def server_new_def pm_new_def nm_new_def
        sample_config_def all_ports_def event_bus_new_def fun_eq_iff)
  ultimately show ?thesis by (metis sys_reachable.intros)
qed

lemmas mesh_run_defs = cli_step_def cli_defs node_step_def node_defs mesh_updates
  known_token_def nm_register_def mesh_node_def

definition mesh_ack :: message where
  "mesh_ack = Node_Registered \<lparr>nr_node_id = ''n''\<rparr>"

lemma mesh_registering:
  "sys_reachable json_codec lib sample_config
     (mesh_sys (R_Ack ''n'') [''n'' \<mapsto> mesh_info] Map.empty all_ports Map.empty [] [] [] {''1'', ''n''})"
proof -
  note step = mesh_node_step [where line = Io_Err]
  from step [OF mesh_connected, of "''1''" "[]"]
  have "sys_reachable json_codec lib sample_config
      (mesh_sys R_Register Map.empty Map.empty all_ports Map.empty [] [] [] {''1''})"
    by (simp add: mesh_run_defs mesh_order)
  from step [OF this, of "''n''" "[]"] show ?thesis
    by (simp add: mesh_run_defs mesh_order mesh_info_def insert_commute)
qed

lemma mesh_registered:
  "sys_reachable json_codec lib sample_config
     (mesh_sys (R_Loop ''n'') [''n'' \<mapsto> mesh_info] Map.empty all_ports Map.empty
        [Node_Connected ''n'' ''edge''] [mesh_ack] [] {''1'', ''n'', ''2'', ''4''})"
proof -
  note step = mesh_node_step [where line = Io_Err]
  from step [OF mesh_registering, of "''2''" "[''n'']"]
  have "sys_reachable json_codec lib sample_config
      (mesh_sys (R_Publish ''n'') [''n'' \<mapsto> mesh_info] Map.empty all_ports Map.empty [] [mesh_ack] []
        {''1'', ''n'', ''2''})"
    by (simp add: mesh_run_defs mesh_order mesh_ack_def insert_commute)
  from step [OF this, of "''4''" "[''n'']"] show ?thesis
    by (simp add: mesh_run_defs mesh_order insert_commute)
qed

text \<open>CLI 7 connects, at any stage of the node.\<close>

lemma mesh_cli_connects:
  assumes "sys_reachable json_codec lib sample_config
     (mesh_sys npc nodes Map.empty free table bus to_node [] uuids)"
  shows "sys_reachable json_codec lib sample_config
     (mesh_sys npc nodes (mesh_tasks K_Token) free table bus to_node [] uuids)" (is "sys_reachable _ _ _ ?s'")
proof -
  let ?s = "mesh_sys npc nodes Map.empty free table bus to_node [] uuids"
  have "wf_message (Register sample_register)"
    by (simp add: wf_message_def sample_register_def protocol_json_def port_json_def option_json_def
        valid_utf8_ascii)
  then obtain stream where st: "classify json_codec (fst (read_frame stream)) = As_Cli sample_register"
    using admits_register by blast
  have e: "handle_client json_codec 7 stream ''h'' True ?s = ?s'"
    by (simp add: handle_client_def st mesh_sys_def mesh_tasks_def system_new_def)
  have "sys_step json_codec lib ?s (handle_client json_codec 7 stream ''h'' True ?s)"
    by (rule connect) (simp_all add: mesh_sys_def)
  then show ?thesis unfolding e by (rule sys_reachable.step [OF assms])
qed

definition mesh_tunnel :: tunnel_entry where
  "mesh_tunnel = entry_for sample_register sample_ctx 7 (Some mesh_info) 0"

definition mesh_open :: message where
  "mesh_open = Open_Tunnel \<lparr>ot_tunnel_id = ''3'', ot_remote_port = 30001\<rparr>"

text \<open>The tunnel is in the table, the node has its order, the CLI has heard nothing yet.\<close>

definition mesh_inserted :: system where
  "mesh_inserted = mesh_sys (R_Loop ''n'') [''n'' \<mapsto> mesh_info\<lparr>ni_tunnel_count := 1\<rparr>]
     (mesh_tasks (K_Node_Publish sample_ctx mesh_info 0)) (all_ports - {30001})
     [''3'' \<mapsto> mesh_tunnel] [Node_Connected ''n'' ''edge''] [mesh_ack, mesh_open] []
     {''1'', ''n'', ''2'', ''4'', ''a'', ''b'', ''3'', ''c'', ''d'', ''e'', ''f''}"

lemmas mesh_cli_defs = mesh_run_defs mesh_order all_ports_def insert_commute request_port_def
  acquire_specific_def in_range_def pick_def values_in_def wanted_name_def

text \<open>The CLI is admitted and the node is told to open the tunnel, whatever the node's own task does.\<close>

lemma mesh_ordered:
  assumes "sys_reachable json_codec lib sample_config
      (mesh_sys npc [''n'' \<mapsto> mesh_info] Map.empty all_ports Map.empty bus to_node [] u)"
    and "u \<inter> {''a'', ''b'', ''3'', ''c'', ''d''} = {}"
  shows "sys_reachable json_codec lib sample_config
      (mesh_sys npc [''n'' \<mapsto> mesh_info] (mesh_tasks (K_Node_Insert sample_ctx mesh_info)) (all_ports - {30001})
        Map.empty bus (to_node @ [mesh_open]) [] (u \<union> {''a'', ''b'', ''3'', ''c'', ''d''}))"
proof -
  note step = mesh_cli [where order = "[''n'']"]
  let ?nodes = "[''n'' \<mapsto> mesh_info]"
  have "sys_reachable json_codec lib sample_config (mesh_sys npc ?nodes
      (mesh_tasks K_Token) all_ports Map.empty bus to_node [] u)" by (rule mesh_cli_connects [OF assms(1)])
  from step [OF this, of "''a''"] assms(2)
  have "sys_reachable json_codec lib sample_config (mesh_sys npc ?nodes
      (mesh_tasks K_Device) all_ports Map.empty bus to_node [] (u \<union> {''a''}))"
    by (simp add: mesh_cli_defs)
  from step [OF this, of "''b''"] assms(2)
  have "sys_reachable json_codec lib sample_config (mesh_sys npc ?nodes
      (mesh_tasks K_Port) all_ports Map.empty bus to_node [] (u \<union> {''a'', ''b''}))"
    by (simp add: mesh_cli_defs)
  from step [OF this, of "''3''"] assms(2)
  have "sys_reachable json_codec lib sample_config (mesh_sys npc ?nodes
      (mesh_tasks (K_Pick sample_ctx)) (all_ports - {30001}) Map.empty bus to_node []
      (u \<union> {''a'', ''b'', ''3''}))"
    by (simp add: mesh_cli_defs sample_ctx_def)
  from step [OF this, of "''c''"] assms(2)
  have "sys_reachable json_codec lib sample_config (mesh_sys npc ?nodes
      (mesh_tasks (K_Open sample_ctx mesh_info)) (all_ports - {30001}) Map.empty bus to_node []
      (u \<union> {''a'', ''b'', ''3'', ''c''}))"
    by (simp add: mesh_cli_defs)
  from step [OF this, of "''d''"] assms(2) show ?thesis
    by (simp add: mesh_cli_defs mesh_info_def sample_ctx_def mesh_open_def)
qed

text \<open>It is put into the table and counted.\<close>

lemma mesh_listed:
  assumes "sys_reachable json_codec lib sample_config
      (mesh_sys npc [''n'' \<mapsto> mesh_info] (mesh_tasks (K_Node_Insert sample_ctx mesh_info)) (all_ports - {30001})
        Map.empty bus to_node [] u)"
    and "u \<inter> {''e'', ''f''} = {}"
  shows "sys_reachable json_codec lib sample_config
      (mesh_sys npc [''n'' \<mapsto> mesh_info\<lparr>ni_tunnel_count := 1\<rparr>]
        (mesh_tasks (K_Node_Publish sample_ctx mesh_info 0)) (all_ports - {30001})
        [''3'' \<mapsto> mesh_tunnel] bus to_node [] (u \<union> {''e'', ''f''}))"
proof -
  note step = mesh_cli [where order = "[''n'']"]
  from step [OF assms(1), of "''e''"] assms(2)
  have "sys_reachable json_codec lib sample_config (mesh_sys npc [''n'' \<mapsto> mesh_info]
      (mesh_tasks (K_Increment sample_ctx mesh_info 0)) (all_ports - {30001})
      [''3'' \<mapsto> mesh_tunnel] bus to_node [] (u \<union> {''e''}))"
    by (simp add: mesh_cli_defs mesh_tunnel_def sample_ctx_def)
  from step [OF this, of "''f''"] assms(2) show ?thesis
    by (simp add: mesh_cli_defs increment_tunnels_def mesh_info_def)
qed

definition mesh_advert :: message where
  "mesh_advert = Registered \<lparr>rd_remote_port = 30001, rd_node_host = Some ''h'', rd_node_port = Some 7002\<rparr>"

definition mesh_opened :: "auth_lib \<Rightarrow> bh_event" where
  "mesh_opened lib = opened_event (al_rfc3339 lib) sample_register sample_ctx (Some mesh_info) 0"

text \<open>The tunnel is announced to the dashboard and to its CLI.\<close>

lemma mesh_advertised:
  assumes "sys_reachable json_codec lib sample_config
      (mesh_sys npc [''n'' \<mapsto> i] (mesh_tasks (K_Node_Publish sample_ctx mesh_info 0)) (all_ports - {30001})
        table bus to_node to_cli u)"
    and "u \<inter> {''v'', ''w''} = {}"
  shows "sys_reachable json_codec lib sample_config
      (mesh_sys npc [''n'' \<mapsto> i] (mesh_tasks (K_Node_Serve sample_ctx mesh_info)) (all_ports - {30001})
        table (bus @ [mesh_opened lib]) to_node (to_cli @ [mesh_advert]) (u \<union> {''v'', ''w''}))"
proof -
  note cli = mesh_cli [where order = "[''n'']"]
  from cli [OF assms(1), of "''v''"] assms(2)
  have "sys_reachable json_codec lib sample_config (mesh_sys npc [''n'' \<mapsto> i]
      (mesh_tasks (K_Advertise sample_ctx mesh_info)) (all_ports - {30001})
      table (bus @ [mesh_opened lib]) to_node to_cli (u \<union> {''v''}))"
    by (simp add: mesh_cli_defs mesh_opened_def)
  from cli [OF this, of "''w''"] assms(2) show ?thesis
    by (simp add: mesh_cli_defs mesh_advert_def mesh_info_def sample_ctx_def)
qed

lemma mesh_inserted_reachable: "sys_reachable json_codec lib sample_config mesh_inserted"
proof -
  from mesh_ordered [OF mesh_registered]
  have "sys_reachable json_codec lib sample_config (mesh_sys (R_Loop ''n'') [''n'' \<mapsto> mesh_info]
      (mesh_tasks (K_Node_Insert sample_ctx mesh_info)) (all_ports - {30001}) Map.empty
      [Node_Connected ''n'' ''edge''] [mesh_ack, mesh_open] []
      {''1'', ''n'', ''2'', ''4'', ''a'', ''b'', ''3'', ''c'', ''d''})" by (simp add: insert_commute)
  from mesh_listed [OF this] show ?thesis by (simp add: mesh_inserted_def insert_commute)
qed

section \<open>An order overtakes the acknowledgement\<close>

text \<open>The node is in the registry before it has been acknowledged, so that it can be picked; the
  order is then its first frame. The CLI is told that its tunnel is open; the node, which
  has given up the session, leaves the registry.\<close>

definition mesh_early :: "auth_lib \<Rightarrow> system" where
  "mesh_early lib = mesh_sys (R_Left ''n'') Map.empty (mesh_tasks (K_Node_Serve sample_ctx mesh_info))
     (all_ports - {30001}) [''3'' \<mapsto> mesh_tunnel] [mesh_opened lib, Node_Connected ''n'' ''edge'']
     [mesh_open, mesh_ack] [mesh_advert]
     {''1'', ''n'', ''a'', ''b'', ''3'', ''c'', ''d'', ''e'', ''f'', ''v'', ''w'', ''i'', ''j'', ''k'', ''l''}"

lemma mesh_early_reachable: "sys_reachable json_codec lib sample_config (mesh_early lib)"
proof -
  note node = mesh_node_step [where line = Io_Err]
  let ?nodes = "[''n'' \<mapsto> mesh_info\<lparr>ni_tunnel_count := 1\<rparr>]"
  let ?u = "{''1'', ''n'', ''a'', ''b'', ''3'', ''c'', ''d'', ''e'', ''f''}"
  from mesh_ordered [OF mesh_registering]
  have "sys_reachable json_codec lib sample_config (mesh_sys (R_Ack ''n'') [''n'' \<mapsto> mesh_info]
      (mesh_tasks (K_Node_Insert sample_ctx mesh_info)) (all_ports - {30001}) Map.empty
      [] [mesh_open] [] {''1'', ''n'', ''a'', ''b'', ''3'', ''c'', ''d''})" by (simp add: insert_commute)
  from mesh_listed [OF this]
  have "sys_reachable json_codec lib sample_config (mesh_sys (R_Ack ''n'') ?nodes
      (mesh_tasks (K_Node_Publish sample_ctx mesh_info 0)) (all_ports - {30001})
      [''3'' \<mapsto> mesh_tunnel] [] [mesh_open] [] ?u)" by (simp add: insert_commute)
  from mesh_advertised [OF this]
  have "sys_reachable json_codec lib sample_config (mesh_sys (R_Ack ''n'') ?nodes
      (mesh_tasks (K_Node_Serve sample_ctx mesh_info)) (all_ports - {30001})
      [''3'' \<mapsto> mesh_tunnel] [mesh_opened lib] [mesh_open] [mesh_advert] (?u \<union> {''v'', ''w''}))"
    by (simp add: insert_commute)
  from node [OF this, of "''i''" "[''n'']"]
  have "sys_reachable json_codec lib sample_config (mesh_sys (R_Publish ''n'') ?nodes
      (mesh_tasks (K_Node_Serve sample_ctx mesh_info)) (all_ports - {30001})
      [''3'' \<mapsto> mesh_tunnel] [mesh_opened lib] [mesh_open, mesh_ack] [mesh_advert]
      (?u \<union> {''v'', ''w'', ''i''}))"
    by (simp add: mesh_cli_defs mesh_ack_def)
  from node [OF this, of "''j''" "[''n'']"]
  have "sys_reachable json_codec lib sample_config (mesh_sys (R_Loop ''n'') ?nodes
      (mesh_tasks (K_Node_Serve sample_ctx mesh_info)) (all_ports - {30001})
      [''3'' \<mapsto> mesh_tunnel] [mesh_opened lib, Node_Connected ''n'' ''edge''] [mesh_open, mesh_ack]
      [mesh_advert] (?u \<union> {''v'', ''w'', ''i'', ''j''}))"
    by (simp add: mesh_cli_defs)
  from node [OF this, of "''k''" "[''n'']"]
  have "sys_reachable json_codec lib sample_config (mesh_sys (R_Remove ''n'') ?nodes
      (mesh_tasks (K_Node_Serve sample_ctx mesh_info)) (all_ports - {30001})
      [''3'' \<mapsto> mesh_tunnel] [mesh_opened lib, Node_Connected ''n'' ''edge''] [mesh_open, mesh_ack]
      [mesh_advert] (?u \<union> {''v'', ''w'', ''i'', ''j'', ''k''}))"
    by (simp add: mesh_cli_defs)
  from node [OF this, of "''l''" "[''n'']"] show ?thesis
    by (simp add: mesh_cli_defs mesh_early_def nm_remove_def)
qed

section \<open>A visitor overtakes the registration\<close>

text \<open>The node already listens on the public port; it reports a visitor, and the server
  forwards it while the CLI's task is still before \<open>K_Advertise\<close>.\<close>

definition mesh_notice :: message where
  "mesh_notice = New_Conn \<lparr>nc_conn_id = ''k'', nc_node_host = Some ''h'', nc_node_port = Some 7002\<rparr>"

definition mesh_raced :: system where
  "mesh_raced = mesh_sys (R_Loop ''n'') [''n'' \<mapsto> mesh_info\<lparr>ni_tunnel_count := 1\<rparr>]
     (mesh_tasks (K_Node_Publish sample_ctx mesh_info 0)) (all_ports - {30001})
     [''3'' \<mapsto> mesh_tunnel] [Node_Connected ''n'' ''edge''] [mesh_ack, mesh_open] [mesh_notice]
     {''1'', ''n'', ''2'', ''4'', ''a'', ''b'', ''3'', ''c'', ''d'', ''e'', ''f'', ''g'', ''h'', ''i''}"

lemma mesh_route: "te_route mesh_tunnel = Some (7, ''h'', 7002)"
  by (simp add: mesh_tunnel_def entry_for_def mesh_info_def)

text \<open>The node reports visitor \<open>k\<close>, at any time after the tunnel was put into the table.\<close>

lemma mesh_reported:
  assumes "sys_reachable json_codec lib sample_config
      (mesh_sys (R_Loop ''n'') [''n'' \<mapsto> i] tasks (all_ports - {30001}) [''3'' \<mapsto> mesh_tunnel] bus to_node to_cli u)"
    and "u \<inter> {''g'', ''h'', ''i''} = {}"
  shows "sys_reachable json_codec lib sample_config
      (mesh_sys (R_Loop ''n'') [''n'' \<mapsto> i] tasks (all_ports - {30001}) [''3'' \<mapsto> mesh_tunnel] bus to_node
        (to_cli @ [mesh_notice]) (u \<union> {''g'', ''h'', ''i''}))"
proof -
  have "wf_message (Visitor_Conn \<lparr>vc_tunnel_id = ''3'', vc_conn_id = ''k''\<rparr>)"
    by (simp add: wf_message_def valid_utf8_ascii)
  then obtain line where line: "from_line json_codec line =
      Some (Visitor_Conn \<lparr>vc_tunnel_id = ''3'', vc_conn_id = ''k''\<rparr>)"
    using sent_line [OF json.wire_codec_axioms] by metis
  note step = mesh_node_step [where order = "[''n'']" and line = "Io_Ok (1, line)"]
  from step [OF assms(1), of "''g''"] assms(2)
  have "sys_reachable json_codec lib sample_config (mesh_sys (R_Lookup ''n'' ''3'' ''k'') [''n'' \<mapsto> i] tasks
      (all_ports - {30001}) [''3'' \<mapsto> mesh_tunnel] bus to_node to_cli (u \<union> {''g''}))"
    by (simp add: mesh_cli_defs line)
  from step [OF this, of "''h''"] assms(2)
  have "sys_reachable json_codec lib sample_config (mesh_sys (R_Forward ''n'' ''k'' (7, ''h'', 7002))
      [''n'' \<mapsto> i] tasks (all_ports - {30001}) [''3'' \<mapsto> mesh_tunnel] bus to_node to_cli
      (u \<union> {''g'', ''h''}))"
    by (simp add: mesh_cli_defs mesh_route)
  from step [OF this, of "''i''"] assms(2) show ?thesis
    by (simp add: mesh_cli_defs mesh_notice_def)
qed

lemma mesh_raced_reachable: "sys_reachable json_codec lib sample_config mesh_raced"
  using mesh_reported [OF mesh_inserted_reachable [unfolded mesh_inserted_def]]
  by (simp add: mesh_raced_def insert_commute)

text \<open>The same visitor, after the confirmation.\<close>

definition mesh_served :: "auth_lib \<Rightarrow> system" where
  "mesh_served lib = mesh_sys (R_Loop ''n'') [''n'' \<mapsto> mesh_info\<lparr>ni_tunnel_count := 1\<rparr>]
     (mesh_tasks (K_Node_Serve sample_ctx mesh_info)) (all_ports - {30001})
     [''3'' \<mapsto> mesh_tunnel] [Node_Connected ''n'' ''edge'', mesh_opened lib] [mesh_ack, mesh_open]
     [mesh_advert, mesh_notice]
     {''1'', ''n'', ''2'', ''4'', ''a'', ''b'', ''3'', ''c'', ''d'', ''e'', ''f'', ''g'', ''h'', ''i'', ''v'', ''w''}"

lemma mesh_served_reachable: "sys_reachable json_codec lib sample_config (mesh_served lib)"
  using mesh_reported [OF mesh_advertised [OF mesh_inserted_reachable [unfolded mesh_inserted_def]]]
  by (simp add: mesh_served_def insert_commute)

end
