(* ===== verification/Control_Nodes.thy ===== *)
theory Control_Nodes
  imports Control_Tunnels Control_Mesh
begin

text \<open>
  The edge nodes of the running server (\<open>Control\<close>): the registry lists exactly the nodes whose
  connection is being served, and the load it keeps for each of them is the number of tunnels
  that run through it, which is what \<open>pick\<close> balances on.
\<close>

section \<open>Counting users\<close>

definition users :: "('a \<rightharpoonup> 'k) \<Rightarrow> 'k \<Rightarrow> nat" where
  "users f k = card {c. f c = Some k}"

lemma finite_users: "finite (dom f) \<Longrightarrow> finite {c. f c = Some k}"
  by (rule finite_subset [of _ "dom f"]) auto

lemma users_enter:
  assumes "finite (dom f)" and "f c = None"
  shows "users (f(c \<mapsto> k)) = (users f)(k := Suc (users f k))"
proof (rule ext)
  fix j
  have "{d. (f(c \<mapsto> k)) d = Some j} = (if j = k then insert c {d. f d = Some j} else {d. f d = Some j})"
    using assms(2) by auto
  then show "users (f(c \<mapsto> k)) j = ((users f)(k := Suc (users f k))) j"
    using assms finite_users [OF assms(1)] by (simp add: users_def)
qed

lemma users_leave:
  assumes "finite (dom f)" and "f c = Some k"
  shows "users (f(c := None)) = (users f)(k := users f k - 1)"
proof (rule ext)
  fix j
  have "{d. (f(c := None)) d = Some j} = (if j = k then {d. f d = Some j} - {c} else {d. f d = Some j})"
    using assms(2) by auto
  then show "users (f(c := None)) j = ((users f)(k := users f k - 1)) j"
    using assms finite_users [OF assms(1)] by (simp add: users_def)
qed

lemma users_none: "k \<notin> ran f \<Longrightarrow> users f k = 0"
  by (auto simp: users_def ran_def intro: card_eq_0_iff [THEN iffD2])

section \<open>Tasks and nodes\<close>

text \<open>The node a task has picked, and the node in whose load the task is counted.\<close>

fun pc_node :: "cli_pc \<Rightarrow> node_info option" where
  "pc_node (K_Open x n) = Some n"
| "pc_node (K_Node_Insert x n) = Some n"
| "pc_node (K_Increment x n ts) = Some n"
| "pc_node (K_Node_Publish x n ts) = Some n"
| "pc_node (K_Advertise x n) = Some n"
| "pc_node (K_Node_Serve x n) = Some n"
| "pc_node (K_Close_Order x n) = Some n"
| "pc_node (K_Decrement x n) = Some n"
| "pc_node _ = None"

fun pc_counted :: "cli_pc \<Rightarrow> string option" where
  "pc_counted (K_Node_Publish x n ts) = Some (ni_node_id n)"
| "pc_counted (K_Advertise x n) = Some (ni_node_id n)"
| "pc_counted (K_Node_Serve x n) = Some (ni_node_id n)"
| "pc_counted (K_Close_Order x n) = Some (ni_node_id n)"
| "pc_counted (K_Decrement x n) = Some (ni_node_id n)"
| "pc_counted _ = None"

definition counted :: "system \<Rightarrow> conn \<rightharpoonup> string" where
  "counted sys c = Option.bind (sy_cli sys c) (\<lambda>t. pc_counted (ct_pc t))"

definition node_ids :: "system \<Rightarrow> string set" where
  "node_ids sys = {k. \<exists>c t n. sy_cli sys c = Some t \<and> pc_node (ct_pc t) = Some n \<and> ni_node_id n = k}"

lemma counted_goto:
  "sy_cli sys' = (sy_cli sys)(c \<mapsto> t\<lparr>ct_pc := pc\<rparr>) \<Longrightarrow> counted sys' = (counted sys)(c := pc_counted pc)"
  by (auto simp: counted_def fun_eq_iff)

lemma counted_cong: "sy_cli sys' = sy_cli sys \<Longrightarrow> counted sys' = counted sys"
  by (rule ext) (simp add: counted_def)

lemma pc_counted_node: "pc_counted pc = Some k \<Longrightarrow> \<exists>n. pc_node pc = Some n \<and> ni_node_id n = k"
  by (cases pc) auto

lemma counted_node:
  assumes "counted sys c = Some k"
  shows "k \<in> node_ids sys"
proof -
  obtain t where t: "sy_cli sys c = Some t" "pc_counted (ct_pc t) = Some k"
    using assms by (auto simp: counted_def bind_eq_Some_conv)
  from pc_counted_node [OF t(2)] obtain n where "pc_node (ct_pc t) = Some n" "ni_node_id n = k"
    by blast
  with t(1) show ?thesis unfolding node_ids_def by blast
qed

lemma finite_counted: "finite (dom (sy_cli sys)) \<Longrightarrow> finite (dom (counted sys))"
  by (rule finite_subset [of _ "dom (sy_cli sys)"]) (auto simp: counted_def bind_eq_Some_conv)

text \<open>What a step of a CLI task does to the registry and to the node it goes through.\<close>

lemma cli_step_nodes:
  assumes "sy_cli sys c = Some t"
  obtains (keep) pc' where "sy_cli (cli_step rf c io sys) = (sy_cli sys)(c \<mapsto> t\<lparr>ct_pc := pc'\<rparr>)"
      "pc_node pc' = None \<or> pc_node pc' = pc_node (ct_pc t)" "pc_counted pc' = pc_counted (ct_pc t)"
      "sv_node_manager (sy_server (cli_step rf c io sys)) = sv_node_manager (sy_server sys)"
  | (picked) pc' n where "sy_cli (cli_step rf c io sys) = (sy_cli sys)(c \<mapsto> t\<lparr>ct_pc := pc'\<rparr>)"
      "pc_node pc' = Some n" "pc_counted pc' = pc_counted (ct_pc t)"
      "pick (io_order io) (rg_node (ct_register t)) (sv_node_manager (sy_server sys)) = Some n"
      "sv_node_manager (sy_server (cli_step rf c io sys)) = sv_node_manager (sy_server sys)"
  | (enter) pc' n where "sy_cli (cli_step rf c io sys) = (sy_cli sys)(c \<mapsto> t\<lparr>ct_pc := pc'\<rparr>)"
      "pc_node pc' = Some n" "pc_node (ct_pc t) = Some n" "pc_counted (ct_pc t) = None"
      "pc_counted pc' = Some (ni_node_id n)"
      "sv_node_manager (sy_server (cli_step rf c io sys)) =
        increment_tunnels (ni_node_id n) (sv_node_manager (sy_server sys))"
  | (leave) pc' and n :: node_info where "sy_cli (cli_step rf c io sys) = (sy_cli sys)(c \<mapsto> t\<lparr>ct_pc := pc'\<rparr>)"
      "pc_node pc' = None" "pc_counted (ct_pc t) = Some (ni_node_id n)" "pc_counted pc' = None"
      "sv_node_manager (sy_server (cli_step rf c io sys)) =
        decrement_tunnels (ni_node_id n) (sv_node_manager (sy_server sys))"
proof -
  obtain pc' where step: "sy_cli (cli_step rf c io sys) = (sy_cli sys)(c \<mapsto> t\<lparr>ct_pc := pc'\<rparr>)"
    using assms by (cases rule: cli_step_table [where rf = rf and io = io]) blast+
  then have pc: "pc' = ct_pc (the (sy_cli (cli_step rf c io sys) c))" by simp
  note st = cli_step_def assms pc
  show thesis
  proof (cases "ct_pc t")
    case (K_Pick x)
    show thesis
    proof (cases "pick (io_order io) (rg_node (ct_register t)) (sv_node_manager (sy_server sys))")
      case None
      with K_Pick show thesis by (intro keep [OF step]) (simp_all add: st step_pick_def)
    next
      case (Some n)
      with K_Pick show thesis by (intro picked [OF step, of n]) (simp_all add: st step_pick_def)
    qed
  next
    case (K_Increment x n ts)
    then show thesis by (intro enter [OF step, of n]) (simp_all add: st step_increment_def)
  next
    case (K_Decrement x n)
    then show thesis by (intro leave [OF step, of n]) (simp_all add: st step_decrement_def)
  qed (rule keep [OF step]; simp add: st cli_defs remove_tunnel_def Let_def case_prod_beta
      split: option.split serve_event.split)+
qed

section \<open>The invariant\<close>

text \<open>Node ids are drawn UUIDs; every load is the number of tasks counted in it.\<close>

definition nodes_ok :: "system \<Rightarrow> bool" where
  "nodes_ok sys \<longleftrightarrow>
     finite (dom (sy_cli sys)) \<and> nm_wf (sv_node_manager (sy_server sys)) \<and>
     dom (sv_node_manager (sy_server sys)) \<subseteq> sy_uuids sys \<and> node_ids sys \<subseteq> sy_uuids sys \<and>
     nm.counts (sv_node_manager (sy_server sys)) (users (counted sys))"

lemma nodes_okD:
  assumes "nodes_ok sys"
  shows "finite (dom (counted sys))" and "finite (dom (sy_cli sys))"
    and "nm_wf (sv_node_manager (sy_server sys))"
    and "dom (sv_node_manager (sy_server sys)) \<subseteq> sy_uuids sys" and "node_ids sys \<subseteq> sy_uuids sys"
    and "nm.counts (sv_node_manager (sy_server sys)) (users (counted sys))"
  using assms finite_counted by (auto simp: nodes_ok_def)

lemma node_ids_goto:
  assumes "sy_cli sys' = (sy_cli sys)(c \<mapsto> t)"
  shows "node_ids sys' \<subseteq> node_ids sys \<union> ni_node_id ` set_option (pc_node (ct_pc t))"
  using assms by (auto simp: node_ids_def split: if_splits)

lemma node_ids_here:
  "sy_cli sys c = Some t \<Longrightarrow> ni_node_id ` set_option (pc_node (ct_pc t)) \<subseteq> node_ids sys"
  by (auto simp: node_ids_def)

lemma nm_domain [simp]:
  "dom (increment_tunnels k nodes) = dom nodes"
  "dom (decrement_tunnels k nodes) = dom nodes"
  by (auto simp: increment_tunnels_def decrement_tunnels_def split: option.splits)

lemma nodes_ok_cli:
  assumes "nodes_ok sys" and "draws_ok io sys"
  shows "nodes_ok (cli_step rf c io sys)"
proof (cases "sy_cli sys c")
  case None
  with assms(1) show ?thesis by (simp add: cli_step_def)
next
  case (Some t)
  let ?sys' = "cli_step rf c io sys" and ?nodes = "sv_node_manager (sy_server sys)"
  note ok = nodes_okD [OF assms(1)]
  have here: "counted sys c = pc_counted (ct_pc t)" using Some by (simp add: counted_def)
  have upd: "(counted sys)(c := pc_counted (ct_pc t)) = counted sys" using here by auto
  have fin: "finite (dom (sy_cli ?sys'))" if "sy_cli ?sys' = (sy_cli sys)(c \<mapsto> t')" for t'
    using that ok(2) by simp
  from Some show ?thesis
  proof (cases rule: cli_step_nodes [where rf = rf and io = io])
    case (keep pc')
    have "ni_node_id ` set_option (pc_node pc') \<subseteq> node_ids sys"
      using keep(2) node_ids_here [of sys, OF Some] by (elim disjE) simp_all
    then have "node_ids ?sys' \<subseteq> node_ids sys"
      by (intro order.trans [OF node_ids_goto [OF keep(1)]]) simp
    with keep ok fin counted_goto [OF keep(1)] upd show ?thesis
      by (simp add: nodes_ok_def)
  next
    case (picked pc' n)
    have "iteration_order ?nodes (io_order io)" using assms(2) by (simp add: draws_ok_def)
    from pick_in [OF this picked(4) ok(3)] have "ni_node_id n \<in> sy_uuids sys" using ok(4) by auto
    with picked ok fin counted_goto [OF picked(1)] upd node_ids_goto [OF picked(1)] show ?thesis
      by (auto simp: nodes_ok_def)
  next
    case (enter pc' n)
    have "ni_node_id n \<in> node_ids sys" using node_ids_here [of sys, OF Some] enter(3) by auto
    moreover have "users (counted ?sys') =
        (users (counted sys))(ni_node_id n := Suc (users (counted sys) (ni_node_id n)))"
      using users_enter [OF ok(1), of c] here enter(4) counted_goto [OF enter(1)] enter(5) by simp
    ultimately show ?thesis
      using enter ok fin nm.counts_more [OF ok(6)] nm_wf_ops(3) [OF ok(3)] node_ids_goto [OF enter(1)]
      by (auto simp: nodes_ok_def)
  next
    case (leave pc' n)
    have "users (counted ?sys') =
        (users (counted sys))(ni_node_id n := users (counted sys) (ni_node_id n) - 1)"
      using users_leave [OF ok(1), of c] here leave(3) counted_goto [OF leave(1)] leave(4) by simp
    then show ?thesis
      using leave ok fin nm.counts_less [OF ok(6)] nm_wf_ops(4) [OF ok(3)] node_ids_goto [OF leave(1)]
      by (auto simp: nodes_ok_def)
  qed
qed

lemma nodes_ok_cong:
  assumes "nodes_ok sys" and "sy_cli sys' = sy_cli sys"
    and "sv_node_manager (sy_server sys') = sv_node_manager (sy_server sys)"
    and "sy_uuids sys \<subseteq> sy_uuids sys'"
  shows "nodes_ok sys'"
proof -
  have "node_ids sys' = node_ids sys" by (simp add: node_ids_def assms(2))
  with assms counted_cong [OF assms(2)] show ?thesis by (auto simp: nodes_ok_def)
qed

text \<open>A node task registers its node under a fresh id, removes it, or leaves the registry.\<close>

lemma node_step_nodes:
  obtains (keep) "sv_node_manager (sy_server (node_step cd c io sys)) = sv_node_manager (sy_server sys)"
  | (register) d where "sv_node_manager (sy_server (node_step cd c io sys)) =
      register_as (io_uuid io) d (sv_node_manager (sy_server sys))"
  | (remove) k where "sv_node_manager (sy_server (node_step cd c io sys)) =
      nm_remove k (sv_node_manager (sy_server sys))"
proof (cases "sy_node sys c")
  case None
  with keep show thesis by (simp add: node_step_def)
next
  case (Some t)
  note st = node_step_def Some node_defs
  show thesis
  proof (cases "nt_pc t")
    case R_Register
    then show thesis
      using register [of "(rn_name (nt_register t), nt_host t, rn_data_port (nt_register t), c)"]
      by (simp add: st register_as_def)
  next
    case (R_Unregister k)
    with remove show thesis by (simp add: st)
  next
    case (R_Remove k)
    with remove show thesis by (simp add: st)
  qed (rule keep; simp add: st split: option.split io_result.split prod.split message.split)+
qed

lemma nodes_ok_node:
  assumes "nodes_ok sys" and "draws_ok io sys"
  shows "nodes_ok (drawn (io_uuid io) (node_step cd c io sys))"
proof -
  let ?sys' = "drawn (io_uuid io) (node_step cd c io sys)"
  note ok = nodes_okD [OF assms(1)]
  have cli: "sy_cli ?sys' = sy_cli sys" and uuids: "sy_uuids ?sys' = insert (io_uuid io) (sy_uuids sys)"
    by (simp_all add: node_step_frame)
  have same: "counted ?sys' = counted sys" "node_ids ?sys' = node_ids sys"
    using counted_cong [OF cli] cli by (simp_all add: node_ids_def)
  show ?thesis
  proof (cases rule: node_step_nodes [of cd c io sys])
    case keep
    with nodes_ok_cong [OF assms(1) cli] uuids show ?thesis by auto
  next
    case (register d)
    have "io_uuid io \<notin> ran (counted sys)"
      using assms(2) ok(5) counted_node by (auto simp: draws_ok_def ran_def)
    from nm.counts_add [OF ok(6) users_none [OF this], of d] register ok cli uuids same
    show ?thesis
      by (auto simp: nodes_ok_def register_as_def nm_register_def nm_wf_def split: prod.splits)
  next
    case (remove k)
    from nm.counts_drop [OF ok(6), of k] nm_wf_ops(2) [OF ok(3), of k] remove ok cli uuids same
    show ?thesis by (auto simp: nodes_ok_def nm_remove_def)
  qed
qed

lemma nodes_ok_step: "sys_step cd lib sys sys' \<Longrightarrow> nodes_ok sys \<Longrightarrow> nodes_ok sys'"
proof (induction rule: sys_step.induct)
  case (connect sys c stream host ok)
  let ?sys' = "handle_client cd c stream host ok sys"
  have "counted ?sys' = counted sys"
    using handle_client_cli [of cd c stream host ok sys] connect(1)
    by (auto simp: counted_def fun_eq_iff)
  moreover have "node_ids ?sys' \<subseteq> node_ids sys"
    using handle_client_cli [of cd c stream host ok sys]
  proof
    assume "sy_cli ?sys' = sy_cli sys"
    then show ?thesis by (simp add: node_ids_def)
  next
    assume "\<exists>reg. sy_cli ?sys' = (sy_cli sys)(c \<mapsto> \<lparr>ct_register = reg, ct_pc = K_Token\<rparr>)"
    then obtain reg where "sy_cli ?sys' = (sy_cli sys)(c \<mapsto> \<lparr>ct_register = reg, ct_pc = K_Token\<rparr>)" ..
    from node_ids_goto [OF this] show ?thesis by simp
  qed
  moreover have "finite (dom (sy_cli ?sys'))"
    using handle_client_cli [of cd c stream host ok sys] nodes_okD(2) [OF connect(4)] by auto
  ultimately show ?case
    using nodes_okD [OF connect(4)] by (simp add: nodes_ok_def handle_client_frame)
next
  case (cli io sys c)
  then show ?case
    using nodes_ok_cli [of sys io "al_rfc3339 lib" c]
      nodes_ok_cong [of "cli_step (al_rfc3339 lib) c io sys"
        "drawn (io_uuid io) (cli_step (al_rfc3339 lib) c io sys)"] by auto
next
  case (node io sys c)
  then show ?case by (simp add: nodes_ok_node)
next
  case (data op sys)
  then show ?case by (auto intro: nodes_ok_cong)
next
  case (visit sys v now)
  then show ?case by (auto intro: nodes_ok_cong simp: visitor_done_frame)
next
  case (api sys now order uuid parts req)
  then show ?case by (auto intro: nodes_ok_cong simp: api_frame)
qed

lemma nodes_ok_new: "nodes_ok (system_new cfg)"
  by (simp add: nodes_ok_def node_ids_def nm.counts_def node_load_def system_new_def server_new_def
      nm_new_def nm_wf_def)

lemma nodes_ok_reachable: "sys_reachable cd lib cfg sys \<Longrightarrow> nodes_ok sys"
  by (induction rule: sys_reachable.induct) (auto intro: nodes_ok_new nodes_ok_step)

section \<open>Whose entry it is\<close>

fun pc_registered :: "node_pc \<Rightarrow> string option" where
  "pc_registered (R_Ack i) = Some i"
| "pc_registered (R_Unregister i) = Some i"
| "pc_registered (R_Publish i) = Some i"
| "pc_registered (R_Loop i) = Some i"
| "pc_registered (R_Lookup i a b) = Some i"
| "pc_registered (R_Forward i a b) = Some i"
| "pc_registered (R_Remove i) = Some i"
| "pc_registered _ = None"

definition serves :: "conn \<Rightarrow> node_task \<Rightarrow> node_info \<Rightarrow> bool" where
  "serves c t n \<longleftrightarrow> ni_tx n = c \<and> ni_name n = rn_name (nt_register t) \<and> ni_host n = nt_host t \<and>
     ni_data_port n = rn_data_port (nt_register t)"

definition registry_ok :: "(conn \<rightharpoonup> node_task) \<Rightarrow> node_manager \<Rightarrow> bool" where
  "registry_ok tasks nodes \<longleftrightarrow>
     (\<forall>c t i. tasks c = Some t \<longrightarrow> pc_registered (nt_pc t) = Some i \<longrightarrow>
        (\<exists>n. nodes i = Some n \<and> serves c t n)) \<and>
     (\<forall>i n. nodes i = Some n \<longrightarrow>
        (\<exists>t. tasks (ni_tx n) = Some t \<and> pc_registered (nt_pc t) = Some i))"

lemma serves_pc [simp]: "serves c (t\<lparr>nt_pc := pc\<rparr>) n = serves c t n"
  by (simp add: serves_def)

lemma registry_keep:
  assumes "registry_ok tasks nodes" and "tasks c = Some t"
    and "pc_registered pc' = pc_registered (nt_pc t)"
  shows "registry_ok (tasks(c \<mapsto> t\<lparr>nt_pc := pc'\<rparr>)) nodes"
  using assms unfolding registry_ok_def by simp (metis option.inject)

lemma registry_register:
  assumes "registry_ok tasks nodes" and "tasks c = Some t"
    and "pc_registered (nt_pc t) = None" and "pc_registered pc' = Some i" and "nodes i = None"
    and "serves c t n"
  shows "registry_ok (tasks(c \<mapsto> t\<lparr>nt_pc := pc'\<rparr>)) (nodes(i \<mapsto> n))"
proof -
  have "ni_tx m \<noteq> c" if "nodes j = Some m" for j m
    using assms(1-3) that unfolding registry_ok_def by (metis option.distinct(1) option.inject)
  moreover have "pc_registered (nt_pc s) \<noteq> Some i" if "tasks d = Some s" for d s
    using assms(1,5) that unfolding registry_ok_def by (metis option.distinct(1))
  ultimately show ?thesis
    using assms unfolding registry_ok_def by (auto simp: serves_def)
qed

lemma registry_remove:
  assumes "registry_ok tasks nodes" and "tasks c = Some t"
    and "pc_registered (nt_pc t) = Some i" and "pc_registered pc' = None"
  shows "registry_ok (tasks(c \<mapsto> t\<lparr>nt_pc := pc'\<rparr>)) (nodes(i := None))"
proof -
  obtain n where n: "nodes i = Some n" "ni_tx n = c"
    using assms(1-3) unfolding registry_ok_def serves_def by blast
  have "pc_registered (nt_pc s) \<noteq> Some i" if "tasks d = Some s" "d \<noteq> c" for d s
    using assms(1) that n unfolding registry_ok_def serves_def by (metis option.inject)
  moreover have "ni_tx m \<noteq> c" if "nodes j = Some m" "j \<noteq> i" for j m
    using assms(1-3) that unfolding registry_ok_def by (metis option.inject)
  ultimately show ?thesis
    using assms(1,4) unfolding registry_ok_def by auto
qed

text \<open>The loads of the registry do not matter for whose entries they are.\<close>

lemma serves_load: "serves c t (n\<lparr>ni_tunnel_count := k\<rparr>) = serves c t n"
  by (simp add: serves_def)

lemma tx_load: "ni_tx (n\<lparr>ni_tunnel_count := k\<rparr>) = ni_tx n"
  by simp

lemma registry_load:
  assumes "registry_ok tasks nodes"
    and "\<And>i. nodes' i = None \<longleftrightarrow> nodes i = None"
    and "\<And>i n n'. nodes i = Some n \<Longrightarrow> nodes' i = Some n' \<Longrightarrow>
      n'\<lparr>ni_tunnel_count := 0\<rparr> = n\<lparr>ni_tunnel_count := 0\<rparr>"
  shows "registry_ok tasks nodes'"
proof -
  have there: "\<exists>n'. nodes' i = Some n' \<and> serves c t n'"
    if n: "nodes i = Some n" "serves c t n" for i n c t
  proof -
    obtain n' where n': "nodes' i = Some n'" using assms(2) [of i] n(1) by (cases "nodes' i") auto
    from assms(3) [OF n(1) n'] have "serves c t n' = serves c t n" by (metis serves_load)
    with n' n(2) show ?thesis by simp
  qed
  have origin: "\<exists>n. nodes i = Some n \<and> ni_tx n = ni_tx n'" if n': "nodes' i = Some n'" for i n'
  proof -
    obtain n where n: "nodes i = Some n" using assms(2) [of i] n' by (cases "nodes i") auto
    from assms(3) [OF n n'] have "ni_tx n' = ni_tx n" by (metis tx_load)
    with n show ?thesis by simp
  qed
  show ?thesis
    unfolding registry_ok_def
  proof (intro conjI allI impI)
    fix c t i
    assume "tasks c = Some t" "pc_registered (nt_pc t) = Some i"
    with assms(1) obtain n where "nodes i = Some n" "serves c t n"
      unfolding registry_ok_def by blast
    with there show "\<exists>n. nodes' i = Some n \<and> serves c t n" by blast
  next
    fix i n'
    assume "nodes' i = Some n'"
    then obtain n where "nodes i = Some n" "ni_tx n = ni_tx n'" using origin by blast
    with assms(1) show "\<exists>t. tasks (ni_tx n') = Some t \<and> pc_registered (nt_pc t) = Some i"
      unfolding registry_ok_def by metis
  qed
qed

lemma registry_increment: "registry_ok tasks nodes \<Longrightarrow> registry_ok tasks (increment_tunnels k nodes)"
  by (erule registry_load) (auto simp: increment_tunnels_def split: option.splits if_splits)

lemma registry_decrement: "registry_ok tasks nodes \<Longrightarrow> registry_ok tasks (decrement_tunnels k nodes)"
  by (erule registry_load) (auto simp: decrement_tunnels_def split: option.splits if_splits)

lemma cli_step_node [simp]: "sy_node (cli_step rf c io sys) = sy_node sys"
  by (simp add: cli_step_def cli_defs remove_tunnel_def Let_def case_prod_beta
      split: option.split cli_pc.split serve_event.split)

definition sys_registry_ok :: "system \<Rightarrow> bool" where
  "sys_registry_ok sys \<longleftrightarrow> registry_ok (sy_node sys) (sv_node_manager (sy_server sys))"

lemma sys_registry_cli:
  assumes "sys_registry_ok sys"
  shows "sys_registry_ok (cli_step rf c io sys)"
proof (cases "sy_cli sys c")
  case None
  with assms show ?thesis by (simp add: cli_step_def)
next
  case (Some t)
  then show ?thesis
    using assms registry_increment registry_decrement unfolding sys_registry_ok_def
    by (cases rule: cli_step_nodes [where rf = rf and io = io]) auto
qed

lemma sys_registry_node:
  assumes "sys_registry_ok sys" and "sv_node_manager (sy_server sys) (io_uuid io) = None"
  shows "sys_registry_ok (node_step cd c io sys)"
proof (cases "sy_node sys c")
  case None
  with assms show ?thesis by (simp add: node_step_def)
next
  case (Some t)
  let ?nodes = "sv_node_manager (sy_server sys)"
  note R = assms(1) [unfolded sys_registry_ok_def]
  have stay: "(sy_node sys)(c \<mapsto> t\<lparr>nt_pc := nt_pc t\<rparr>) = sy_node sys" using Some by (simp add: fun_upd_idem)
  have keep: "sys_registry_ok (node_step cd c io sys)"
    if "sy_node (node_step cd c io sys) = (sy_node sys)(c \<mapsto> t\<lparr>nt_pc := pc'\<rparr>)"
      "pc_registered pc' = pc_registered (nt_pc t)"
      "sv_node_manager (sy_server (node_step cd c io sys)) = ?nodes" for pc'
    using registry_keep [OF R Some that(2)] that(1,3) by (simp add: sys_registry_ok_def)
  have remove: "sys_registry_ok (node_step cd c io sys)"
    if "sy_node (node_step cd c io sys) = (sy_node sys)(c \<mapsto> t\<lparr>nt_pc := pc'\<rparr>)"
      "pc_registered (nt_pc t) = Some i" "pc_registered pc' = None"
      "sv_node_manager (sy_server (node_step cd c io sys)) = ?nodes(i := None)" for pc' i
    using registry_remove [OF R Some that(2,3)] that(1,4) by (simp add: sys_registry_ok_def)
  note st = node_step_def Some node_defs
  show ?thesis
  proof (cases "nt_pc t")
    case R_Register
    then show ?thesis
      using registry_register [OF R Some, of "R_Ack (io_uuid io)" "io_uuid io"
          "\<lparr>ni_node_id = io_uuid io, ni_name = rn_name (nt_register t), ni_host = nt_host t,
            ni_data_port = rn_data_port (nt_register t), ni_tunnel_count = 0, ni_tx = c\<rparr>"] assms(2)
      by (simp add: sys_registry_ok_def st nm_register_def serves_def)
  next
    case (R_Unregister i)
    then show ?thesis by (intro remove [of R_Finished i]) (simp_all add: st nm_remove_def)
  next
    case (R_Remove i)
    then show ?thesis by (intro remove [of "R_Left i" i]) (simp_all add: st nm_remove_def)
  next
    case (R_Loop i)
    then show ?thesis
      using R stay registry_keep [OF R Some, of "R_Remove i"]
        registry_keep [OF R Some, of "R_Lookup i a b" for a b]
      by (simp add: sys_registry_ok_def st split: io_result.split prod.split option.split message.split)
  next
    case R_Token
    then show ?thesis
      by (intro keep [of "if known_token (rn_token (nt_register t)) (sy_server sys) then R_Register
          else R_Finished"]) (simp_all add: st)
  next
    case (R_Ack i)
    then show ?thesis
      by (intro keep [of "if io_sent io then R_Publish i else R_Unregister i"]) (simp_all add: st)
  next
    case (R_Lookup i a b)
    then show ?thesis
      by (intro keep [of "case Option.bind (sv_active_tunnels (sy_server sys) a) te_route of
          Some route \<Rightarrow> R_Forward i b route | None \<Rightarrow> R_Loop i"]) (simp_all add: st split: option.split)
  next
    case R_Finished
    then show ?thesis using keep [of R_Finished] stay by (simp add: st)
  next
    case (R_Publish i)
    then show ?thesis by (intro keep [of "R_Loop i"]) (simp_all add: st)
  next
    case (R_Forward i a r)
    then show ?thesis by (intro keep [of "R_Loop i"]) (simp_all add: st split: prod.split)
  next
    case (R_Left i)
    then show ?thesis by (intro keep [of R_Finished]) (simp_all add: st)
  qed
qed

lemma sys_registry_step:
  "sys_step cd lib sys sys' \<Longrightarrow> nodes_ok sys \<Longrightarrow> sys_registry_ok sys \<Longrightarrow> sys_registry_ok sys'"
proof (induction rule: sys_step.induct)
  case (connect sys c stream host ok)
  have "sy_node (handle_client cd c stream host ok sys) = sy_node sys \<or>
      (\<exists>t. sy_node (handle_client cd c stream host ok sys) = (sy_node sys)(c \<mapsto> t) \<and> nt_pc t = R_Token)"
    by (auto simp: handle_client_def split: client_kind.split)
  moreover have "registry_ok ((sy_node sys)(c \<mapsto> t)) (sv_node_manager (sy_server sys))"
    if "nt_pc t = R_Token" for t
  proof -
    have "ni_tx m \<noteq> c" if "sv_node_manager (sy_server sys) j = Some m" for j m
      using connect(2,5) that unfolding sys_registry_ok_def registry_ok_def
      by (metis option.distinct(1))
    with connect(5) that show ?thesis unfolding sys_registry_ok_def registry_ok_def by auto
  qed
  ultimately show ?case
    using connect(5) by (auto simp: sys_registry_ok_def handle_client_frame)
next
  case (cli io sys c)
  then show ?case using sys_registry_cli [of sys] by (simp add: sys_registry_ok_def)
next
  case (node io sys c)
  then have "sv_node_manager (sy_server sys) (io_uuid io) = None"
    using nodes_okD(4) [of sys] by (auto simp: draws_ok_def)
  with node show ?case using sys_registry_node [of sys io cd c] by (simp add: sys_registry_ok_def)
qed (simp_all add: sys_registry_ok_def visitor_done_frame api_frame)

lemma sys_registry_reachable: "sys_reachable cd lib cfg sys \<Longrightarrow> sys_registry_ok sys"
proof (induction rule: sys_reachable.induct)
  case start
  show ?case
    by (simp add: sys_registry_ok_def registry_ok_def system_new_def server_new_def nm_new_def)
next
  case (step sys sys')
  with sys_registry_step nodes_ok_reachable show ?case by blast
qed

text \<open>A node takes its place in the registry as long as its connection is served, and
  no longer: the task that has registered finds its entry, under its own id, until it
  removes it.\<close>

lemma node_listed_while_served:
  assumes "sys_reachable cd lib cfg sys" and "sy_node sys c = Some t"
    and "pc_registered (nt_pc t) = Some i"
  shows "\<exists>n. sv_node_manager (sy_server sys) i = Some n \<and> ni_tx n = c"
  using sys_registry_reachable [OF assms(1)] assms(2,3)
  unfolding sys_registry_ok_def registry_ok_def serves_def by blast

section \<open>Properties\<close>

text \<open>C15: the node registry is exact in every reachable state: each entry belongs to a live
  node connection, shows the name, host and data port of its registration, and its load is
  the number of tunnels that run through the node at that moment, so that \<open>pick\<close> compares
  true loads.\<close>

theorem node_registry_exact:
  assumes "sys_reachable cd lib cfg sys" and "sv_node_manager (sy_server sys) i = Some n"
  shows "\<exists>t. sy_node sys (ni_tx n) = Some t \<and> pc_registered (nt_pc t) = Some i \<and>
    ni_node_id n = i \<and> ni_name n = rn_name (nt_register t) \<and> ni_host n = nt_host t \<and>
    ni_data_port n = rn_data_port (nt_register t) \<and>
    ni_tunnel_count n = card {c. counted sys c = Some i}"
proof -
  note ok = nodes_okD [OF nodes_ok_reachable [OF assms(1)]]
  have R: "registry_ok (sy_node sys) (sv_node_manager (sy_server sys))"
    using sys_registry_reachable [OF assms(1)] by (simp add: sys_registry_ok_def)
  then obtain t where t: "sy_node sys (ni_tx n) = Some t" "pc_registered (nt_pc t) = Some i"
    using assms(2) unfolding registry_ok_def by blast
  then have "serves (ni_tx n) t n" using R assms(2) unfolding registry_ok_def by fastforce
  moreover have "ni_node_id n = i" using ok(3) assms(2) by (simp add: nm_wf_def)
  moreover have "ni_tunnel_count n = card {c. counted sys c = Some i}"
    using ok(6) assms(2) by (simp add: nm.counts_def node_load_def users_def)
  ultimately show ?thesis using t by (auto simp: serves_def)
qed

theorem node_registry_exact_witness:
  "card {c. counted mesh_inserted c = Some ''n''} = 1"
proof -
  have n: "sv_node_manager (sy_server mesh_inserted) ''n'' = Some (mesh_info\<lparr>ni_tunnel_count := 1\<rparr>)"
    by (simp add: mesh_inserted_def)
  from node_registry_exact [OF mesh_inserted_reachable n]
  have "ni_tunnel_count (mesh_info\<lparr>ni_tunnel_count := 1\<rparr>) = card {c. counted mesh_inserted c = Some ''n''}"
    by blast
  then show ?thesis by simp
qed

end
