(* ===== verification/Control_Wire.thy ===== *)
theory Control_Wire
  imports Control_Visitors Control_Nodes
begin

text \<open>
  What a CLI hears on its control connection (\<open>Control\<close>). While its tunnel is served on the
  direct path, the frames sent to it are the confirmation with the port that its task holds
  and then the notices of its visitors, in order, and nothing from any other task: orders go
  to connections of nodes only, and a visitor of a node is forwarded only to a CLI whose
  tunnel goes through a node.
\<close>

section \<open>The view of a task\<close>

text \<open>The program points before and on the direct path.\<close>

fun pc_direct :: "cli_pc \<Rightarrow> bool" where
  "pc_direct (K_Increment x n ts) = False"
| "pc_direct (K_Node_Publish x n ts) = False"
| "pc_direct (K_Advertise x n) = False"
| "pc_direct (K_Node_Serve x n) = False"
| "pc_direct (K_Close_Order x n) = False"
| "pc_direct (K_Decrement x n) = False"
| "pc_direct (K_Remove x) = False"
| "pc_direct (K_Record x e) = False"
| "pc_direct (K_Closed x) = False"
| "pc_direct (K_Release x) = False"
| "pc_direct K_Finished = False"
| "pc_direct _ = True"

fun pc_confirmed :: "cli_pc \<Rightarrow> tunnel_ctx option" where
  "pc_confirmed (K_Insert x) = Some x"
| "pc_confirmed (K_Publish x ts) = Some x"
| "pc_confirmed (K_Serve x) = Some x"
| "pc_confirmed (K_Notify x v i) = Some x"
| "pc_confirmed _ = None"

definition confirmation :: "tunnel_ctx \<Rightarrow> message" where
  "confirmation x = Registered \<lparr>rd_remote_port = tc_port x, rd_node_host = None, rd_node_port = None\<rparr>"

definition visitor_notice :: "string \<Rightarrow> message" where
  "visitor_notice i = New_Conn \<lparr>nc_conn_id = i, nc_node_host = None, nc_node_port = None\<rparr>"

definition hears :: "cli_pc \<Rightarrow> message list \<Rightarrow> bool" where
  "hears pc ms \<longleftrightarrow> pc_direct pc \<longrightarrow>
     (case pc_confirmed pc of
        None \<Rightarrow> ms = []
      | Some x \<Rightarrow> \<exists>ids. ms = confirmation x # map visitor_notice ids)"

definition routed :: "system \<Rightarrow> conn \<Rightarrow> bool" where
  "routed sys d \<longleftrightarrow> (\<exists>t. sy_cli sys d = Some t \<and> \<not> pc_direct (ct_pc t))"

definition node_forwarding :: "node_pc \<Rightarrow> conn option" where
  "node_forwarding pc = (case pc of R_Forward i k route \<Rightarrow> Some (fst route) | _ \<Rightarrow> None)"

section \<open>Steps of a CLI task\<close>

lemma notice_snoc:
  "\<exists>ids'. map visitor_notice ids @ [New_Conn \<lparr>nc_conn_id = i, nc_node_host = None, nc_node_port = None\<rparr>] =
     map visitor_notice ids'"
  by (rule exI [of _ "ids @ [i]"]) (simp add: visitor_notice_def)

lemma cli_step_sent_other:
  assumes "sy_cli sys c = Some t" and "d \<noteq> c"
    and "\<And>n. pc_node (ct_pc t) = Some n \<Longrightarrow> ni_tx n \<noteq> d"
  shows "sy_sent (cli_step rf c io sys) d = sy_sent sys d"
  using assms
  by (cases "ct_pc t") (auto simp: cli_step_def cli_defs remove_tunnel_def Let_def case_prod_beta
      deliver_sent reject_to_def split: option.split serve_event.split)

lemma cli_step_hears:
  assumes "sy_cli sys c = Some t" and "sy_cli (cli_step rf c io sys) c = Some t'"
    and "\<And>n. pc_node (ct_pc t) = Some n \<Longrightarrow> ni_tx n \<noteq> c"
    and "hears (ct_pc t) (sy_sent sys c)"
  shows "hears (ct_pc t') (sy_sent (cli_step rf c io sys) c)"
proof (cases "ct_pc t")
  case (K_Notify x v i)
  with assms show ?thesis
    by (auto simp: cli_step_def step_notify_def deliver_sent hears_def notice_snoc)
qed (use assms in \<open>auto simp: cli_step_def cli_defs remove_tunnel_def Let_def case_prod_beta
      deliver_sent reject_to_def hears_def confirmation_def split: option.splits serve_event.splits if_splits\<close>)

lemma cli_step_direct:
  assumes "sy_cli sys c = Some t" and "sy_cli (cli_step rf c io sys) c = Some t'" and "pc_direct (ct_pc t')"
  shows "pc_direct (ct_pc t)"
  using assms
  by (cases "ct_pc t") (auto simp: cli_step_def cli_defs remove_tunnel_def Let_def case_prod_beta
      split: option.splits serve_event.splits if_splits)

lemma cli_step_routes:
  assumes "sy_cli sys c = Some t" and "sy_cli (cli_step rf c io sys) c = Some t'"
    and "sv_active_tunnels (sy_server (cli_step rf c io sys)) i = Some e" and "te_route e = Some (d, h, p)"
  shows "sv_active_tunnels (sy_server sys) i = Some e \<or> d = c \<and> \<not> pc_direct (ct_pc t')"
  using assms
  by (cases "ct_pc t") (auto simp: cli_step_def cli_defs remove_tunnel_def entry_for_def Let_def
      case_prod_beta split: option.splits serve_event.splits if_splits)

section \<open>Steps of a node task\<close>

lemma node_step_sent_other:
  assumes "sy_node sys c = Some t" and "d \<noteq> c" and "node_forwarding (nt_pc t) \<noteq> Some d"
  shows "sy_sent (node_step cd c io sys) d = sy_sent sys d"
  using assms
  by (cases "nt_pc t") (auto simp: node_step_def node_defs node_forwarding_def deliver_sent reject_to_def
      split: option.splits io_result.splits prod.splits message.splits)

lemma node_step_task:
  assumes "sy_node sys c = Some t"
  obtains pc' where "sy_node (node_step cd c io sys) = (sy_node sys)(c \<mapsto> t\<lparr>nt_pc := pc'\<rparr>)"
    "\<And>d. node_forwarding pc' = Some d \<Longrightarrow> node_forwarding (nt_pc t) = Some d \<or>
      (\<exists>i e h p. sv_active_tunnels (sy_server sys) i = Some e \<and> te_route e = Some (d, h, p))"
proof -
  have stay: "(sy_node sys)(c \<mapsto> t\<lparr>nt_pc := nt_pc t\<rparr>) = sy_node sys" using assms by (simp add: fun_upd_idem)
  note st = node_step_def assms node_defs
  show thesis
  proof (cases "nt_pc t")
    case (R_Loop i)
    show thesis
    proof (cases "sy_node (node_step cd c io sys) = sy_node sys")
      case True
      then show thesis using stay that [of "nt_pc t"] by simp
    next
      case False
      then show thesis
        using R_Loop that [of "nt_pc (the (sy_node (node_step cd c io sys) c))"]
        by (auto simp: st node_forwarding_def split: io_result.splits prod.splits option.splits message.splits
            if_splits)
    qed
  next
    case (R_Lookup i k w)
    show thesis
    proof (cases "Option.bind (sv_active_tunnels (sy_server sys) k) te_route")
      case None
      then show thesis using R_Lookup that [of "R_Loop i"] by (simp add: st node_forwarding_def)
    next
      case (Some route)
      then have "\<exists>e h p. sv_active_tunnels (sy_server sys) k = Some e \<and> te_route e = Some (fst route, h, p)"
        by (cases route) (auto simp: bind_eq_Some_conv)
      with Some show thesis
        using R_Lookup that [of "R_Forward i w route"] by (auto simp: st node_forwarding_def)
    qed
  next
    case R_Finished
    then show thesis using stay that [of "nt_pc t"] by (simp add: st)
  qed (rule that [of "nt_pc (the (sy_node (node_step cd c io sys) c))"];
      auto simp: st node_forwarding_def split: prod.splits if_splits)+
qed

section \<open>The invariant\<close>

text \<open>A connection belongs to a CLI or to a node; the nodes picked are connections of nodes;
  routes, and visitors that are being forwarded, lead to CLIs that are not on the direct path.\<close>

definition wire_ok :: "system \<Rightarrow> bool" where
  "wire_ok sys \<longleftrightarrow>
     (\<forall>c. sy_cli sys c = None \<or> sy_node sys c = None) \<and>
     (\<forall>c t n. sy_cli sys c = Some t \<longrightarrow> pc_node (ct_pc t) = Some n \<longrightarrow> sy_node sys (ni_tx n) \<noteq> None) \<and>
     (\<forall>i e d h p. sv_active_tunnels (sy_server sys) i = Some e \<longrightarrow> te_route e = Some (d, h, p) \<longrightarrow>
        routed sys d) \<and>
     (\<forall>c t d. sy_node sys c = Some t \<longrightarrow> node_forwarding (nt_pc t) = Some d \<longrightarrow> routed sys d) \<and>
     (\<forall>c t. sy_cli sys c = Some t \<longrightarrow> hears (ct_pc t) (sy_sent sys c))"

lemma wire_okD:
  assumes "wire_ok sys"
  shows "sy_cli sys c = Some t \<Longrightarrow> sy_node sys c = None"
    and "sy_cli sys c = Some t \<Longrightarrow> pc_node (ct_pc t) = Some n \<Longrightarrow> sy_node sys (ni_tx n) \<noteq> None"
    and "sv_active_tunnels (sy_server sys) i = Some e \<Longrightarrow> te_route e = Some (d, h, p) \<Longrightarrow> routed sys d"
    and "sy_node sys c = Some t' \<Longrightarrow> node_forwarding (nt_pc t') = Some d \<Longrightarrow> routed sys d"
    and "sy_cli sys c = Some t \<Longrightarrow> hears (ct_pc t) (sy_sent sys c)"
  using assms unfolding wire_ok_def by (metis option.distinct(1))+

lemma wire_okI:
  assumes "\<And>c t. sy_cli sys c = Some t \<Longrightarrow> sy_node sys c = None"
    and "\<And>c t n. sy_cli sys c = Some t \<Longrightarrow> pc_node (ct_pc t) = Some n \<Longrightarrow> sy_node sys (ni_tx n) \<noteq> None"
    and "\<And>i e d h p. sv_active_tunnels (sy_server sys) i = Some e \<Longrightarrow> te_route e = Some (d, h, p) \<Longrightarrow>
      routed sys d"
    and "\<And>c t d. sy_node sys c = Some t \<Longrightarrow> node_forwarding (nt_pc t) = Some d \<Longrightarrow> routed sys d"
    and "\<And>c t. sy_cli sys c = Some t \<Longrightarrow> hears (ct_pc t) (sy_sent sys c)"
  shows "wire_ok sys"
proof -
  have "sy_cli sys c = None \<or> sy_node sys c = None" for c using assms(1) [of c] by (cases "sy_cli sys c") auto
  with assms(2-5) show ?thesis unfolding wire_ok_def by blast
qed

lemma wire_ok_cong:
  assumes "sy_cli sys' = sy_cli sys" and "sy_node sys' = sy_node sys" and "sy_sent sys' = sy_sent sys"
    and "sv_active_tunnels (sy_server sys') = sv_active_tunnels (sy_server sys)" and "wire_ok sys"
  shows "wire_ok sys'"
  using assms by (simp add: wire_ok_def routed_def)

lemma pick_from:
  assumes "pick order want nodes = Some n"
  obtains i where "nodes i = Some n"
proof -
  have "n \<in> set (values_in nodes order)"
    using assms min_by_key_in [of ni_tunnel_count "filter (wanted_name want) (values_in nodes order)" n]
    by (simp add: pick_def)
  then show thesis using that by (auto simp: values_in_def List.map_filter_def)
qed

lemma wire_ok_cli:
  assumes "wire_ok sys" and "sys_registry_ok sys"
  shows "wire_ok (cli_step rf c io sys)"
proof (cases "sy_cli sys c")
  case None
  with assms(1) show ?thesis by (simp add: cli_step_def)
next
  case (Some t)
  let ?sys' = "cli_step rf c io sys"
  note W = wire_okD [OF assms(1)]
  have nodes: "sy_node sys (ni_tx n) \<noteq> None" if "sv_node_manager (sy_server sys) i = Some n" for i n
    using assms(2) that unfolding sys_registry_ok_def registry_ok_def by fastforce
  have "\<exists>pc'. sy_cli ?sys' = (sy_cli sys)(c \<mapsto> t\<lparr>ct_pc := pc'\<rparr>) \<and>
      (\<forall>n. pc_node pc' = Some n \<longrightarrow> sy_node sys (ni_tx n) \<noteq> None)"
    using Some
  proof (cases rule: cli_step_nodes [where rf = rf and io = io])
    case (keep pc')
    with W(2) [OF Some] show ?thesis by (intro exI [of _ pc']) auto
  next
    case (picked pc' n)
    from pick_from [OF picked(4)] nodes have "sy_node sys (ni_tx n) \<noteq> None" by blast
    with picked(1,2) show ?thesis by (intro exI [of _ pc']) simp
  next
    case (enter pc' n)
    with W(2) [OF Some] show ?thesis by (intro exI [of _ pc']) auto
  next
    case (leave pc' n)
    then show ?thesis by (intro exI [of _ pc']) simp
  qed
  then obtain pc' where step: "sy_cli ?sys' = (sy_cli sys)(c \<mapsto> t\<lparr>ct_pc := pc'\<rparr>)"
    and node: "\<And>n. pc_node pc' = Some n \<Longrightarrow> sy_node sys (ni_tx n) \<noteq> None" by blast
  from step have here: "sy_cli ?sys' c = Some (t\<lparr>ct_pc := pc'\<rparr>)" by simp
  have mono: "routed ?sys' d" if "routed sys d" for d
    using that cli_step_direct [OF Some here] Some step unfolding routed_def by (cases "d = c") auto
  have other: "ni_tx n \<noteq> d" if "pc_node (ct_pc t) = Some n" "sy_cli sys d = Some u" for n d u
    using W(2) [OF Some that(1)] W(1) [OF that(2)] by auto
  show ?thesis
  proof (rule wire_okI)
    fix d u assume "sy_cli ?sys' d = Some u"
    then show "sy_node ?sys' d = None" using W(1) [of d] W(1) [OF Some] step by (auto split: if_splits)
  next
    fix d u n assume "sy_cli ?sys' d = Some u" "pc_node (ct_pc u) = Some n"
    then show "sy_node ?sys' (ni_tx n) \<noteq> None"
      using node W(2) [of d u n] step by (auto split: if_splits)
  next
    fix i e d h p
    assume "sv_active_tunnels (sy_server ?sys') i = Some e" "te_route e = Some (d, h, p)"
    with cli_step_routes [OF Some here this] W(3) mono here show "routed ?sys' d"
      unfolding routed_def by blast
  next
    fix d u v assume "sy_node ?sys' d = Some u" "node_forwarding (nt_pc u) = Some v"
    then show "routed ?sys' v" using W(4) mono by simp
  next
    fix d u assume u: "sy_cli ?sys' d = Some u"
    show "hears (ct_pc u) (sy_sent ?sys' d)"
    proof (cases "d = c")
      case True
      with u cli_step_hears [OF Some _ other [OF _ Some] W(5) [OF Some]] show ?thesis by blast
    next
      case False
      with u step have d: "sy_cli sys d = Some u" by simp
      have "sy_sent ?sys' d = sy_sent sys d" by (rule cli_step_sent_other [OF Some False other [OF _ d]])
      with W(5) [OF d] show ?thesis by simp
    qed
  qed
qed

lemma wire_ok_node:
  assumes "wire_ok sys"
  shows "wire_ok (node_step cd c io sys)"
proof (cases "sy_node sys c")
  case None
  with assms show ?thesis by (simp add: node_step_def)
next
  case (Some t)
  let ?sys' = "node_step cd c io sys"
  note W = wire_okD [OF assms]
  obtain pc' where step: "sy_node ?sys' = (sy_node sys)(c \<mapsto> t\<lparr>nt_pc := pc'\<rparr>)"
    and fwd: "\<And>d. node_forwarding pc' = Some d \<Longrightarrow> node_forwarding (nt_pc t) = Some d \<or>
      (\<exists>i e h p. sv_active_tunnels (sy_server sys) i = Some e \<and> te_route e = Some (d, h, p))"
    using node_step_task [OF Some, where cd = cd and io = io] by blast
  have cli: "sy_cli ?sys' = sy_cli sys" by (rule node_step_frame)
  then have routes: "routed ?sys' d = routed sys d" for d by (simp add: routed_def)
  show ?thesis
  proof (rule wire_okI)
    fix d u assume "sy_cli ?sys' d = Some u"
    then show "sy_node ?sys' d = None" using W(1) [of d u] Some step cli by (cases "d = c") auto
  next
    fix d u n assume "sy_cli ?sys' d = Some u" "pc_node (ct_pc u) = Some n"
    then show "sy_node ?sys' (ni_tx n) \<noteq> None" using W(2) [of d u n] step cli by auto
  next
    fix i e d h p
    assume "sv_active_tunnels (sy_server ?sys') i = Some e" "te_route e = Some (d, h, p)"
    then show "routed ?sys' d" using W(3) routes by (simp add: node_step_frame)
  next
    fix d u v assume u: "sy_node ?sys' d = Some u" "node_forwarding (nt_pc u) = Some v"
    show "routed ?sys' v"
    proof (cases "d = c")
      case True
      with u(1) step have "u = t\<lparr>nt_pc := pc'\<rparr>" by simp
      with u(2) have "node_forwarding pc' = Some v" by simp
      with fwd W(4) [OF Some] W(3) routes show ?thesis by blast
    next
      case False
      with u step W(4) [of d u v] routes show ?thesis by simp
    qed
  next
    fix d u assume "sy_cli ?sys' d = Some u"
    then have u: "sy_cli sys d = Some u" by (simp add: cli)
    show "hears (ct_pc u) (sy_sent ?sys' d)"
    proof (cases "pc_direct (ct_pc u)")
      case True
      then have "node_forwarding (nt_pc t) \<noteq> Some d" using W(4) [OF Some] u by (auto simp: routed_def)
      moreover have "d \<noteq> c" using W(1) [OF u] Some by auto
      ultimately show ?thesis using node_step_sent_other [OF Some] W(5) [OF u] by simp
    qed (simp add: hears_def)
  qed
qed

lemma wire_ok_connect:
  assumes "wire_ok sys" and "sy_cli sys c = None" and "sy_node sys c = None" and "sy_sent sys c = []"
  shows "wire_ok (handle_client cd c stream host ok sys)"
proof -
  note W = wire_okD [OF assms(1)]
  show ?thesis
  proof (cases "classify cd (fst (read_frame stream))")
    case (As_Cli reg)
    let ?sys' = "sys\<lparr>sy_cli := (sy_cli sys)(c \<mapsto> \<lparr>ct_register = reg, ct_pc = K_Token\<rparr>)\<rparr>"
    have mono: "routed ?sys' d" if "routed sys d" for d
      using that assms(2) by (auto simp: routed_def)
    have "wire_ok ?sys'"
    proof (rule wire_okI)
      fix d u assume "sy_cli ?sys' d = Some u"
      then show "hears (ct_pc u) (sy_sent ?sys' d)"
        using W(5) [of d u] assms(4) by (auto simp: hears_def split: if_splits)
    qed (use W mono assms(3) in \<open>auto split: if_splits\<close>)
    with As_Cli show ?thesis by (simp add: handle_client_def)
  next
    case (As_Node reg)
    let ?sys' = "sys\<lparr>sy_node := (sy_node sys)(c \<mapsto> \<lparr>nt_register = reg, nt_host = host, nt_pc = R_Token\<rparr>)\<rparr>"
    have same: "routed ?sys' d = routed sys d" for d by (simp add: routed_def)
    have "wire_ok ?sys'"
      by (rule wire_okI) (use W same assms(2) in \<open>auto simp: node_forwarding_def split: if_splits\<close>)
    with As_Node show ?thesis by (simp add: handle_client_def)
  next
    case (Refused reason)
    let ?sys' = "reject_to c reason ok sys"
    have same: "routed ?sys' d = routed sys d" for d by (simp add: routed_def)
    have "wire_ok ?sys'"
    proof (rule wire_okI)
      fix d u assume u: "sy_cli ?sys' d = Some u"
      with assms(2) have "d \<noteq> c" by auto
      then have "sy_sent ?sys' d = sy_sent sys d" by (simp add: reject_to_def deliver_sent)
      with W(5) [of d u] u show "hears (ct_pc u) (sy_sent ?sys' d)" by simp
    qed (use W same in auto)
    with Refused show ?thesis by (simp add: handle_client_def)
  next
    case Gone
    with assms(1) show ?thesis by (simp add: handle_client_def)
  qed
qed

lemma wire_ok_step:
  assumes "sys_step cd lib sys sys'" and "wire_ok sys" and "sys_registry_ok sys"
  shows "wire_ok sys'"
  using assms
proof (induction rule: sys_step.induct)
  case (connect sys c stream host ok)
  then show ?case by (simp add: wire_ok_connect)
next
  case (cli io sys c)
  then have "wire_ok (cli_step (al_rfc3339 lib) c io sys)" by (simp add: wire_ok_cli)
  then show ?case by (rule wire_ok_cong [rotated 4]) simp_all
next
  case (node io sys c)
  then have "wire_ok (node_step cd c io sys)" by (simp add: wire_ok_node)
  then show ?case by (rule wire_ok_cong [rotated 4]) simp_all
next
  case (data op sys)
  then show ?case by (auto intro: wire_ok_cong)
next
  case (visit sys v now)
  then show ?case by (auto intro: wire_ok_cong simp: visitor_done_frame)
next
  case (api sys now order uuid parts req)
  then show ?case by (auto intro: wire_ok_cong simp: api_frame)
qed

lemma wire_ok_reachable: "sys_reachable cd lib cfg sys \<Longrightarrow> wire_ok sys"
proof (induction rule: sys_reachable.induct)
  case start
  show ?case by (simp add: wire_ok_def system_new_def server_new_def)
next
  case (step sys sys')
  then show ?case using wire_ok_step sys_registry_reachable by blast
qed

text \<open>What has been sent to the CLI of a confirmed direct tunnel.\<close>

lemma notices_heard: "List.map_filter direct_notice (confirmation x # map visitor_notice ids) = ids"
proof -
  have "List.map_filter direct_notice (map visitor_notice ids) = ids"
    by (induction ids) (simp_all add: visitor_notice_def List.map_filter_simps)
  then show ?thesis by (simp add: confirmation_def List.map_filter_simps)
qed

lemma sent_confirmed:
  assumes "sys_reachable cd lib cfg sys" and "sy_cli sys c = Some t" and "pc_confirmed (ct_pc t) = Some x"
  shows "sy_sent sys c = confirmation x # map visitor_notice (notices sys c)"
proof -
  have "pc_direct (ct_pc t)" using assms(3) by (cases "ct_pc t") simp_all
  then obtain ids where ids: "sy_sent sys c = confirmation x # map visitor_notice ids"
    using wire_okD(5) [OF wire_ok_reachable [OF assms(1)] assms(2)] assms(3) by (auto simp: hears_def)
  then have "notices sys c = ids" by (simp only: notices_def notices_heard)
  with ids show ?thesis by simp
qed

end
