(* ===== verification/Control_Orders.thy ===== *)
theory Control_Orders
  imports Control_Wire
begin

text \<open>
  The orders of the server to its edge nodes (\<open>Control\<close>). On a control connection of a node
  nothing is said of a tunnel, or that it is to be opened, once, or that and later that it is
  to be closed; which of these is fixed by the program point of the task of the tunnel. The
  route in the table of active tunnels leads to the node that was told to open the tunnel.
\<close>

section \<open>Orders on the wire\<close>

definition open_order :: "string \<Rightarrow> u16 \<Rightarrow> message" where
  "open_order i p = Open_Tunnel \<lparr>ot_tunnel_id = i, ot_remote_port = p\<rparr>"

definition close_order :: "string \<Rightarrow> message" where
  "close_order i = Close_Tunnel \<lparr>ct_tunnel_id = i\<rparr>"

fun order_for :: "string \<Rightarrow> message \<Rightarrow> bool" where
  "order_for i (Open_Tunnel ot) = (ot_tunnel_id ot = i)"
| "order_for i (Close_Tunnel ct) = (ct_tunnel_id ct = i)"
| "order_for i _ = False"

lemma order_for_simps [simp]:
  "order_for i (open_order j p) = (j = i)" "order_for i (close_order j) = (j = i)"
  by (simp_all add: open_order_def close_order_def)

definition orders :: "system \<Rightarrow> conn \<Rightarrow> string \<Rightarrow> message list" where
  "orders sys d i = filter (order_for i) (sy_sent sys d)"

definition paired :: "string \<Rightarrow> message list \<Rightarrow> bool" where
  "paired i ms \<longleftrightarrow> ms = [] \<or> (\<exists>p. ms = [open_order i p] \<or> ms = [open_order i p, close_order i])"

lemma paired_simps [simp]: "paired i []" "paired i [open_order i p]" "paired i [open_order i p, close_order i]"
  by (auto simp: paired_def)

text \<open>The tunnel of a task that has not ordered it from any node, and of a task whose node has
  been ordered to open it and not yet to close it.\<close>

fun pc_unordered :: "cli_pc \<Rightarrow> tunnel_ctx option" where
  "pc_unordered (K_Pick x) = Some x"
| "pc_unordered (K_Bind x) = Some x"
| "pc_unordered (K_Ready x) = Some x"
| "pc_unordered (K_Insert x) = Some x"
| "pc_unordered (K_Publish x ts) = Some x"
| "pc_unordered (K_Serve x) = Some x"
| "pc_unordered (K_Notify x v i) = Some x"
| "pc_unordered (K_Open x n) = Some x"
| "pc_unordered _ = None"

fun pc_ordered :: "cli_pc \<Rightarrow> (tunnel_ctx \<times> node_info) option" where
  "pc_ordered (K_Node_Insert x n) = Some (x, n)"
| "pc_ordered (K_Increment x n ts) = Some (x, n)"
| "pc_ordered (K_Node_Publish x n ts) = Some (x, n)"
| "pc_ordered (K_Advertise x n) = Some (x, n)"
| "pc_ordered (K_Node_Serve x n) = Some (x, n)"
| "pc_ordered (K_Close_Order x n) = Some (x, n)"
| "pc_ordered _ = None"

lemma pc_ordered_ctx: "pc_ordered pc = Some (x, n) \<Longrightarrow> pc_ctx pc = Some x \<and> pc_node pc = Some n"
  by (cases pc) auto

lemma pc_unordered_ctx: "pc_unordered pc = Some x \<Longrightarrow> pc_ctx pc = Some x \<and> pc_ordered pc = None"
  by (cases pc) auto

section \<open>Steps of a CLI task\<close>

lemma cli_step_orders:
  assumes "sy_cli sys c = Some t"
  obtains (quiet) pc' where "sy_cli (cli_step rf c io sys) = (sy_cli sys)(c \<mapsto> t\<lparr>ct_pc := pc'\<rparr>)"
      "orders (cli_step rf c io sys) = orders sys"
      "pc_ordered pc' = pc_ordered (ct_pc t) \<or> pc_ordered pc' = None"
      "\<And>x. pc_unordered pc' = Some x \<Longrightarrow> pc_unordered (ct_pc t) = Some x \<or> tc_tunnel_id x = io_uuid io"
  | (opened) x n where "sy_cli (cli_step rf c io sys) = (sy_cli sys)(c \<mapsto> t\<lparr>ct_pc := K_Node_Insert x n\<rparr>)"
      "ct_pc t = K_Open x n"
      "orders (cli_step rf c io sys) = (\<lambda>d i. orders sys d i @
        (if d = ni_tx n \<and> i = tc_tunnel_id x then [open_order i (tc_port x)] else []))"
  | (closed) x n where "sy_cli (cli_step rf c io sys) = (sy_cli sys)(c \<mapsto> t\<lparr>ct_pc := K_Decrement x n\<rparr>)"
      "ct_pc t = K_Close_Order x n"
      "orders (cli_step rf c io sys) = (\<lambda>d i. orders sys d i @
        (if d = ni_tx n \<and> i = tc_tunnel_id x \<and> io_sent io then [close_order i] else []))"
proof -
  obtain pc' where step: "sy_cli (cli_step rf c io sys) = (sy_cli sys)(c \<mapsto> t\<lparr>ct_pc := pc'\<rparr>)"
    using assms by (cases rule: cli_step_table [where rf = rf and io = io]) blast+
  then have pc: "pc' = ct_pc (the (sy_cli (cli_step rf c io sys) c))" by simp
  note st = cli_step_def assms pc
  show thesis
  proof (cases "ct_pc t")
    case (K_Open x n)
    show thesis
    proof (cases "io_sent io")
      case True
      with K_Open step show thesis
        by (intro opened [of x n]) (auto simp: st step_open_def orders_def deliver_sent open_order_def fun_eq_iff)
    next
      case False
      with K_Open show thesis
        by (intro quiet [OF step]) (auto simp: st step_open_def orders_def deliver_sent fun_eq_iff)
    qed
  next
    case (K_Close_Order x n)
    with step show thesis
      by (intro closed [of x n]) (auto simp: st step_close_order_def orders_def deliver_sent close_order_def fun_eq_iff)
  qed (rule quiet [OF step]; auto simp: st cli_defs remove_tunnel_def Let_def case_prod_beta orders_def
      deliver_sent reject_to_def fun_eq_iff split: option.splits serve_event.splits if_splits)+
qed

lemma node_step_orders [simp]: "orders (node_step cd c io sys) = orders sys"
  by (auto simp: node_step_def node_defs orders_def deliver_sent reject_to_def fun_eq_iff
      split: option.split node_pc.split io_result.split prod.split message.split)

lemma handle_client_orders: "orders (handle_client cd c stream host ok sys) = orders sys"
  by (auto simp: handle_client_def orders_def deliver_sent reject_to_def fun_eq_iff split: client_kind.split)

lemma orders_frame [simp]:
  "orders (drawn u sys) = orders sys" "orders (on_server f sys) = orders sys"
  "orders (visitor_done rf v now sys) = orders sys"
  by (simp_all add: orders_def fun_eq_iff visitor_done_frame)

section \<open>Pairing\<close>

definition orders_ok :: "system \<Rightarrow> bool" where
  "orders_ok sys \<longleftrightarrow>
     (\<forall>d i. paired i (orders sys d i) \<and> (i \<notin> sy_uuids sys \<longrightarrow> orders sys d i = [])) \<and>
     (\<forall>c t x d. sy_cli sys c = Some t \<longrightarrow> pc_unordered (ct_pc t) = Some x \<longrightarrow>
        orders sys d (tc_tunnel_id x) = []) \<and>
     (\<forall>c t x n d. sy_cli sys c = Some t \<longrightarrow> pc_ordered (ct_pc t) = Some (x, n) \<longrightarrow>
        orders sys d (tc_tunnel_id x) =
          (if d = ni_tx n then [open_order (tc_tunnel_id x) (tc_port x)] else []))"

lemma orders_okD:
  assumes "orders_ok sys"
  shows "paired i (orders sys d i)"
    and "i \<notin> sy_uuids sys \<Longrightarrow> orders sys d i = []"
    and "sy_cli sys c = Some t \<Longrightarrow> pc_unordered (ct_pc t) = Some x \<Longrightarrow> orders sys d (tc_tunnel_id x) = []"
    and "sy_cli sys c = Some t \<Longrightarrow> pc_ordered (ct_pc t) = Some (x, n) \<Longrightarrow> orders sys d (tc_tunnel_id x) =
      (if d = ni_tx n then [open_order (tc_tunnel_id x) (tc_port x)] else [])"
  using assms unfolding orders_ok_def by blast+

lemma orders_ok_cong:
  assumes "orders_ok sys" and "sy_cli sys' = sy_cli sys" and "orders sys' = orders sys"
    and "sy_uuids sys \<subseteq> sy_uuids sys'"
  shows "orders_ok sys'"
  using assms unfolding orders_ok_def by auto

text \<open>A step that touches the orders of one tunnel leaves those of the other tasks alone.\<close>

lemma orders_ok_touch:
  assumes "orders_ok sys" and "ids_ok sys" and "sy_cli sys c = Some t" and "pc_ctx (ct_pc t) = Some x"
    and cli: "sy_cli sys' = (sy_cli sys)(c \<mapsto> t\<lparr>ct_pc := pc'\<rparr>)"
    and others: "\<And>d i. i \<noteq> tc_tunnel_id x \<Longrightarrow> orders sys' d i = orders sys d i"
    and uuids: "sy_uuids sys \<subseteq> sy_uuids sys'"
    and mine: "\<And>d. paired (tc_tunnel_id x) (orders sys' d (tc_tunnel_id x))"
    and unordered: "pc_unordered pc' = None"
    and ordered: "\<And>y n d. pc_ordered pc' = Some (y, n) \<Longrightarrow> orders sys' d (tc_tunnel_id y) =
      (if d = ni_tx n then [open_order (tc_tunnel_id y) (tc_port y)] else [])"
  shows "orders_ok sys'"
proof -
  note ok = orders_okD [OF assms(1)]
  have known: "tc_tunnel_id x \<in> sy_uuids sys"
    using assms(2-4) unfolding ids_ok_def ctx_of_def by (metis bind.bind_lunit)
  have away: "tc_tunnel_id y \<noteq> tc_tunnel_id x"
    if "sy_cli sys d = Some s" "d \<noteq> c" "pc_ctx (ct_pc s) = Some y" for d s y
    using assms(2-4) that unfolding ids_ok_def ctx_of_def by (metis bind.bind_lunit)
  show ?thesis
    unfolding orders_ok_def
  proof (intro conjI allI impI)
    fix d i show "paired i (orders sys' d i)"
      using ok(1) mine others by (cases "i = tc_tunnel_id x") simp_all
  next
    fix d i assume "i \<notin> sy_uuids sys'"
    with uuids known have "i \<notin> sy_uuids sys" "i \<noteq> tc_tunnel_id x" by auto
    with ok(2) others show "orders sys' d i = []" by simp
  next
    fix e s y d assume "sy_cli sys' e = Some s" "pc_unordered (ct_pc s) = Some y"
    with unordered cli have s: "sy_cli sys e = Some s" "e \<noteq> c" "pc_unordered (ct_pc s) = Some y"
      by (auto split: if_splits)
    with away pc_unordered_ctx have "tc_tunnel_id y \<noteq> tc_tunnel_id x" by blast
    with ok(3) [OF s(1,3)] others show "orders sys' d (tc_tunnel_id y) = []" by simp
  next
    fix e s y n d assume s': "sy_cli sys' e = Some s" "pc_ordered (ct_pc s) = Some (y, n)"
    show "orders sys' d (tc_tunnel_id y) =
        (if d = ni_tx n then [open_order (tc_tunnel_id y) (tc_port y)] else [])"
    proof (cases "e = c")
      case True
      with s' cli ordered show ?thesis by auto
    next
      case False
      with s' cli have s: "sy_cli sys e = Some s" by simp
      with away False pc_ordered_ctx [OF s'(2)] have "tc_tunnel_id y \<noteq> tc_tunnel_id x" by blast
      with ok(4) [OF s s'(2)] others show ?thesis by simp
    qed
  qed
qed

lemma orders_ok_cli:
  assumes "orders_ok sys" and "ids_ok sys" and "draws_ok io sys"
  shows "orders_ok (cli_step rf c io sys)"
proof (cases "sy_cli sys c")
  case None
  then show ?thesis using assms(1) by (simp add: cli_step_def)
next
  case (Some t)
  let ?sys' = "cli_step rf c io sys"
  note ok = orders_okD [OF assms(1)]
  from Some show ?thesis
  proof (cases rule: cli_step_orders [where rf = rf and io = io])
    case (quiet pc')
    have fresh: "orders sys d (io_uuid io) = []" for d
      using ok(2) assms(3) by (simp add: draws_ok_def)
    show ?thesis
      unfolding orders_ok_def quiet(2) cli_step_uuids
    proof (intro conjI allI impI)
      fix e s y d assume "sy_cli ?sys' e = Some s" "pc_unordered (ct_pc s) = Some y"
      then have "sy_cli sys e = Some s \<or> pc_unordered (ct_pc t) = Some y \<or> tc_tunnel_id y = io_uuid io"
        using quiet(1,4) by (cases "e = c") auto
      then show "orders sys d (tc_tunnel_id y) = []"
        using ok(3) Some fresh \<open>pc_unordered (ct_pc s) = Some y\<close> by (elim disjE) simp_all
    next
      fix e s y n d assume s: "sy_cli ?sys' e = Some s" "pc_ordered (ct_pc s) = Some (y, n)"
      then have "sy_cli sys e = Some s \<or> pc_ordered (ct_pc t) = Some (y, n)"
        using quiet(1,3) by (cases "e = c") auto
      then show "orders sys d (tc_tunnel_id y) =
          (if d = ni_tx n then [open_order (tc_tunnel_id y) (tc_port y)] else [])"
        using ok(4) Some s(2) by blast
    qed (use ok(1,2) in simp_all)
  next
    case (opened x n)
    then have "pc_unordered (ct_pc t) = Some x" by simp
    from ok(3) [OF Some this] have none: "orders sys d (tc_tunnel_id x) = []" for d .
    show ?thesis
      by (rule orders_ok_touch [OF assms(1,2) Some _ opened(1), where x = x]) (auto simp: opened none)
  next
    case (closed x n)
    then have "pc_ordered (ct_pc t) = Some (x, n)" by simp
    from ok(4) [OF Some this] have one: "orders sys d (tc_tunnel_id x) =
        (if d = ni_tx n then [open_order (tc_tunnel_id x) (tc_port x)] else [])" for d .
    show ?thesis
      by (rule orders_ok_touch [OF assms(1,2) Some _ closed(1), where x = x]) (simp_all add: closed one)
  qed
qed

lemma orders_ok_step:
  assumes "sys_step cd lib sys sys'" and "orders_ok sys" and "ids_ok sys"
  shows "orders_ok sys'"
  using assms
proof (induction rule: sys_step.induct)
  case (connect sys c stream host ok)
  let ?sys' = "handle_client cd c stream host ok sys"
  have "sy_cli sys e = Some t \<or> pc_unordered (ct_pc t) = None \<and> pc_ordered (ct_pc t) = None"
    if "sy_cli ?sys' e = Some t" for e t
    using handle_client_cli [of cd c stream host ok sys] that by (auto split: if_splits)
  with orders_okD [OF connect(4)] show ?case
    unfolding orders_ok_def handle_client_orders handle_client_frame
    by (metis option.distinct(1))
next
  case (cli io sys c)
  then have "orders_ok (cli_step (al_rfc3339 lib) c io sys)" by (simp add: orders_ok_cli)
  then show ?case by (rule orders_ok_cong) auto
next
  case (node io sys c)
  from node(2) show ?case
    by (rule orders_ok_cong) (auto simp: node_step_frame)
next
  case (visit sys v now)
  from visit(2) show ?case by (rule orders_ok_cong) (simp_all add: visitor_done_frame)
qed (auto intro: orders_ok_cong)

lemma orders_ok_reachable: "sys_reachable cd lib cfg sys \<Longrightarrow> orders_ok sys"
proof (induction rule: sys_reachable.induct)
  case start
  show ?case by (simp add: orders_ok_def orders_def system_new_def)
next
  case (step sys sys')
  then show ?case using orders_ok_step ids_ok_reachable by blast
qed

section \<open>Routes\<close>

text \<open>The node a task has picked is the one behind its connection; a route leads to the node that
  was told to open the tunnel, on the port of the table.\<close>

definition node_behind :: "system \<Rightarrow> node_info \<Rightarrow> bool" where
  "node_behind sys n \<longleftrightarrow> (\<exists>t. sy_node sys (ni_tx n) = Some t \<and> serves (ni_tx n) t n)"

definition leads_to :: "system \<Rightarrow> string \<Rightarrow> tunnel_entry \<Rightarrow> conn \<Rightarrow> bool" where
  "leads_to sys i e d \<longleftrightarrow> hd (orders sys d i) = open_order i (te_remote_port e) \<and>
     (\<exists>t. sy_node sys d = Some t \<and>
        te_route e = Some (te_close e, nt_host t, rn_data_port (nt_register t)))"

definition routes_ok :: "system \<Rightarrow> bool" where
  "routes_ok sys \<longleftrightarrow>
     (\<forall>c t n. sy_cli sys c = Some t \<longrightarrow> pc_node (ct_pc t) = Some n \<longrightarrow> node_behind sys n) \<and>
     (\<forall>i e d. sv_active_tunnels (sy_server sys) i = Some e \<longrightarrow> te_route e \<noteq> None \<longrightarrow>
        orders sys d i \<noteq> [] \<longrightarrow> leads_to sys i e d)"

lemma routes_okD:
  assumes "routes_ok sys"
  shows "sy_cli sys c = Some t \<Longrightarrow> pc_node (ct_pc t) = Some n \<Longrightarrow> node_behind sys n"
    and "sv_active_tunnels (sy_server sys) i = Some e \<Longrightarrow> te_route e \<noteq> None \<Longrightarrow>
      orders sys d i \<noteq> [] \<Longrightarrow> leads_to sys i e d"
  using assms unfolding routes_ok_def by blast+

text \<open>The connections of nodes only become more, and keep their registration.\<close>

definition nodes_kept :: "system \<Rightarrow> system \<Rightarrow> bool" where
  "nodes_kept sys sys' \<longleftrightarrow> (\<forall>d t. sy_node sys d = Some t \<longrightarrow>
     (\<exists>pc. sy_node sys' d = Some (t\<lparr>nt_pc := pc\<rparr>)))"

lemma nodes_kept_same: "sy_node sys' = sy_node sys \<Longrightarrow> nodes_kept sys sys'"
  unfolding nodes_kept_def by (metis node_task.surjective node_task.update_convs(3))

lemma node_behind_kept: "nodes_kept sys sys' \<Longrightarrow> node_behind sys n \<Longrightarrow> node_behind sys' n"
  unfolding nodes_kept_def node_behind_def by (metis serves_pc)

lemma leads_to_kept:
  assumes "nodes_kept sys sys'" and "leads_to sys i e d" and "hd (orders sys' d i) = hd (orders sys d i)"
  shows "leads_to sys' i e d"
proof -
  from assms(2) obtain t where t: "sy_node sys d = Some t"
    "te_route e = Some (te_close e, nt_host t, rn_data_port (nt_register t))" by (auto simp: leads_to_def)
  with assms(1) obtain pc where "sy_node sys' d = Some (t\<lparr>nt_pc := pc\<rparr>)" unfolding nodes_kept_def by blast
  with t(2) assms(2,3) show ?thesis by (auto simp: leads_to_def)
qed

lemma routes_ok_mono:
  assumes "routes_ok sys" and "nodes_kept sys sys'" and "orders sys' = orders sys"
    and "\<And>c t. sy_cli sys' c = Some t \<Longrightarrow> sy_cli sys c = Some t \<or> pc_node (ct_pc t) = None"
    and "sv_active_tunnels (sy_server sys') = sv_active_tunnels (sy_server sys)"
  shows "routes_ok sys'"
  unfolding routes_ok_def
proof (intro conjI allI impI)
  fix c t n assume "sy_cli sys' c = Some t" "pc_node (ct_pc t) = Some n"
  with assms(4) have "sy_cli sys c = Some t" by fastforce
  with routes_okD(1) [OF assms(1)] node_behind_kept [OF assms(2)] \<open>pc_node (ct_pc t) = Some n\<close>
  show "node_behind sys' n" by blast
next
  fix i e d
  assume "sv_active_tunnels (sy_server sys') i = Some e" "te_route e \<noteq> None" "orders sys' d i \<noteq> []"
  with assms(3,5) routes_okD(2) [OF assms(1)] show "leads_to sys' i e d"
    by (intro leads_to_kept [OF assms(2)]) simp_all
qed

lemma cli_step_entry:
  assumes "sy_cli sys c = Some t"
    and "sv_active_tunnels (sy_server (cli_step rf c io sys)) i = Some e" and "te_route e \<noteq> None"
  shows "sv_active_tunnels (sy_server sys) i = Some e \<or>
    (\<exists>x n. ct_pc t = K_Node_Insert x n \<and> tc_tunnel_id x = i \<and> te_remote_port e = tc_port x \<and>
      te_close e = c \<and> te_route e = Some (c, ni_host n, ni_data_port n))"
  using assms
  by (cases "ct_pc t") (auto simp: cli_step_def cli_defs remove_tunnel_def entry_for_def Let_def
      case_prod_beta split: option.splits serve_event.splits if_splits)

lemma registered_behind:
  assumes "sys_registry_ok sys" and "sv_node_manager (sy_server sys) i = Some n"
  shows "node_behind sys n"
proof -
  from assms obtain t where t: "sy_node sys (ni_tx n) = Some t" "pc_registered (nt_pc t) = Some i"
    unfolding sys_registry_ok_def registry_ok_def by blast
  with assms obtain m where "sv_node_manager (sy_server sys) i = Some m" "serves (ni_tx n) t m"
    unfolding sys_registry_ok_def registry_ok_def by blast
  with assms(2) t(1) show ?thesis unfolding node_behind_def by auto
qed

lemma cli_step_behind:
  assumes "routes_ok sys" and "sys_registry_ok sys" and "sy_cli sys c = Some t"
    and "sy_cli (cli_step rf c io sys) d = Some u" and "pc_node (ct_pc u) = Some n"
  shows "node_behind sys n"
proof -
  note R = routes_okD(1) [OF assms(1)]
  from assms(3) show ?thesis
  proof (cases rule: cli_step_nodes [where rf = rf and io = io])
    case (keep pc')
    with assms(3-5) R [of c t n] R [of d u n] show ?thesis by (auto split: if_splits)
  next
    case (picked pc' m)
    from pick_from [OF picked(4)] registered_behind [OF assms(2)] have "node_behind sys m" by blast
    with picked assms(4,5) R [of d u n] show ?thesis by (auto split: if_splits)
  next
    case (enter pc' m)
    with assms(3-5) R [of c t n] R [of d u n] show ?thesis by (auto split: if_splits)
  next
    case (leave pc' m)
    with assms(4,5) R [of d u n] show ?thesis by (auto split: if_splits)
  qed
qed

text \<open>An order that is sent leaves the beginning of what the node has been told of a listed tunnel.\<close>

lemma cli_step_head:
  assumes "orders_ok sys" and "table_ok sys" and "sy_cli sys c = Some t"
    and "sv_active_tunnels (sy_server sys) i \<noteq> None" and "orders (cli_step rf c io sys) d i \<noteq> []"
  shows "orders sys d i \<noteq> [] \<and> hd (orders (cli_step rf c io sys) d i) = hd (orders sys d i)"
  using assms(3)
proof (cases rule: cli_step_orders [where rf = rf and io = io])
  case (opened x n)
  have "task_listed sys t" using assms(2,3) by (simp add: table_ok_def)
  with opened(2) have "sv_active_tunnels (sy_server sys) (tc_tunnel_id x) = None"
    by (simp add: task_listed_def)
  with assms(4,5) opened(3) show ?thesis by (auto split: if_splits)
next
  case (closed x n)
  then have "orders sys d (tc_tunnel_id x) =
      (if d = ni_tx n then [open_order (tc_tunnel_id x) (tc_port x)] else [])"
    using orders_okD(4) [OF assms(1,3)] by simp
  with assms(5) closed(3) show ?thesis by (auto split: if_splits)
qed (use assms(5) in simp)

lemma routes_ok_cli:
  assumes "routes_ok sys" and "orders_ok sys" and "table_ok sys" and "sys_registry_ok sys"
  shows "routes_ok (cli_step rf c io sys)"
proof (cases "sy_cli sys c")
  case None
  then show ?thesis using assms(1) by (simp add: cli_step_def)
next
  case (Some t)
  let ?sys' = "cli_step rf c io sys"
  have kept: "nodes_kept sys ?sys'" by (simp add: nodes_kept_same)
  show ?thesis
    unfolding routes_ok_def
  proof (intro conjI allI impI)
    fix d u n assume "sy_cli ?sys' d = Some u" "pc_node (ct_pc u) = Some n"
    with cli_step_behind [OF assms(1,4) Some] node_behind_kept [OF kept] show "node_behind ?sys' n" by blast
  next
    fix i e d
    assume e: "sv_active_tunnels (sy_server ?sys') i = Some e" "te_route e \<noteq> None" and o: "orders ?sys' d i \<noteq> []"
    from cli_step_entry [OF Some e] show "leads_to ?sys' i e d"
    proof (elim disjE exE conjE)
      assume old: "sv_active_tunnels (sy_server sys) i = Some e"
      then have "sv_active_tunnels (sy_server sys) i \<noteq> None" by simp
      from cli_step_head [OF assms(2,3) Some this o] routes_okD(2) [OF assms(1) old e(2)]
      show ?thesis by (intro leads_to_kept [OF kept]) auto
    next
      fix x n assume x: "ct_pc t = K_Node_Insert x n" "tc_tunnel_id x = i" "te_remote_port e = tc_port x"
        "te_close e = c" "te_route e = Some (c, ni_host n, ni_data_port n)"
      have "orders ?sys' = orders sys"
        using Some x(1) by (cases rule: cli_step_orders [where rf = rf and io = io]) simp_all
      with o x orders_okD(4) [OF assms(2) Some, of x n d] have "d = ni_tx n"
        "hd (orders ?sys' d i) = open_order i (tc_port x)" by (auto split: if_splits)
      moreover from x(1) have "node_behind sys n" using routes_okD(1) [OF assms(1) Some, of n] by simp
      ultimately show ?thesis using x by (auto simp: leads_to_def node_behind_def serves_def)
    qed
  qed
qed

lemma routes_ok_step:
  assumes "sys_step cd lib sys sys'" and "routes_ok sys" and "orders_ok sys" and "table_ok sys"
    and "sys_registry_ok sys"
  shows "routes_ok sys'"
  using assms
proof (induction rule: sys_step.induct)
  case (connect sys c stream host ok)
  let ?sys' = "handle_client cd c stream host ok sys"
  have "sy_node ?sys' = sy_node sys \<or> (\<exists>t. sy_node ?sys' = (sy_node sys)(c \<mapsto> t))"
    by (auto simp: handle_client_def split: client_kind.split)
  then have "nodes_kept sys ?sys'"
    using nodes_kept_same [of ?sys' sys] nodes_kept_same [of sys sys] connect(2)
    by (auto simp: nodes_kept_def)
  moreover have "sy_cli sys d = Some t \<or> pc_node (ct_pc t) = None" if "sy_cli ?sys' d = Some t" for d t
    using handle_client_cli [of cd c stream host ok sys] that by (auto split: if_splits)
  ultimately show ?case
    using routes_ok_mono [OF connect(4)] by (simp add: handle_client_orders handle_client_frame)
next
  case (cli io sys c)
  then have "routes_ok (cli_step (al_rfc3339 lib) c io sys)" by (simp add: routes_ok_cli)
  then show ?case by (rule routes_ok_mono) (simp_all add: nodes_kept_same)
next
  case (node io sys c)
  have "nodes_kept sys (node_step cd c io sys)"
  proof (cases "sy_node sys c")
    case None
    then show ?thesis by (simp add: node_step_def nodes_kept_same)
  next
    case (Some t)
    from node_step_task [OF Some, where cd = cd and io = io] obtain pc' where
      "sy_node (node_step cd c io sys) = (sy_node sys)(c \<mapsto> t\<lparr>nt_pc := pc'\<rparr>)" by blast
    with Some nodes_kept_same [of sys sys] show ?thesis by (auto simp: nodes_kept_def)
  qed
  then show ?case
    by (intro routes_ok_mono [OF node(2)]) (simp_all add: node_step_frame nodes_kept_def)
next
  case (data op sys)
  from data(2) show ?case by (rule routes_ok_mono) (simp_all add: nodes_kept_same)
next
  case (visit sys v now)
  from visit(2) show ?case by (rule routes_ok_mono) (simp_all add: nodes_kept_same visitor_done_frame)
next
  case (api sys now order uuid parts req)
  from api(1) show ?case by (rule routes_ok_mono) (simp_all add: nodes_kept_same api_frame)
qed

lemma routes_ok_reachable: "sys_reachable cd lib cfg sys \<Longrightarrow> routes_ok sys"
proof (induction rule: sys_reachable.induct)
  case start
  show ?case by (simp add: routes_ok_def system_new_def server_new_def)
next
  case (step sys sys')
  then show ?case
    using routes_ok_step orders_ok_reachable table_ok_reachable sys_registry_reachable by blast
qed

end
