(* ===== verification/Control_Heard.thy ===== *)
theory Control_Heard
  imports Control_Orders
begin

text \<open>
  What a CLI hears on its control connection while its tunnel runs through a node
  (\<open>Control\<close>): at most one confirmation, with the port of its task and the data address of
  its node, and the visitors that were reported, each with that same address. Where the
  confirmation stands among them is not fixed.
\<close>

section \<open>Frames to the CLI\<close>

fun via_node :: "node_info \<Rightarrow> message \<Rightarrow> bool" where
  "via_node n (New_Conn nc) =
     (nc_node_host nc = Some (ni_host n) \<and> nc_node_port nc = Some (ni_data_port n))"
| "via_node n _ = False"

definition advertisement :: "tunnel_ctx \<Rightarrow> node_info \<Rightarrow> message" where
  "advertisement x n = Registered \<lparr>rd_remote_port = tc_port x, rd_node_host = Some (ni_host n),
     rd_node_port = Some (ni_data_port n)\<rparr>"

lemma via_node_advertisement [simp]: "\<not> via_node n (advertisement x m)"
  by (simp add: advertisement_def)

definition heard :: "tunnel_ctx \<Rightarrow> node_info \<Rightarrow> bool \<Rightarrow> message list \<Rightarrow> bool" where
  "heard x n advertised ms \<longleftrightarrow>
     (let others = filter (\<lambda>m. \<not> via_node n m) ms
      in others = [] \<or> advertised \<and> others = [advertisement x n])"

lemma heard_forward: "via_node n m \<Longrightarrow> heard x n b (ms @ [m]) = heard x n b ms"
  by (simp add: heard_def)

lemma heard_advertised: "heard x n False ms \<Longrightarrow> heard x n True (ms @ [advertisement x n])"
  by (simp add: heard_def)

lemma heard_mono: "heard x n b ms \<Longrightarrow> heard x n (b \<or> b') ms"
  by (auto simp: heard_def Let_def)

fun pc_advertised :: "cli_pc \<Rightarrow> bool" where
  "pc_advertised (K_Node_Serve x n) = True"
| "pc_advertised (K_Close_Order x n) = True"
| "pc_advertised _ = False"

text \<open>A route to a CLI that is served through a node carries the address of this node.\<close>

definition addressed :: "system \<Rightarrow> conn \<times> string \<times> u16 \<Rightarrow> bool" where
  "addressed sys r \<longleftrightarrow> (\<forall>t x n. sy_cli sys (fst r) = Some t \<longrightarrow> pc_ordered (ct_pc t) = Some (x, n) \<longrightarrow>
     snd r = (ni_host n, ni_data_port n))"

definition node_route :: "node_pc \<Rightarrow> (conn \<times> string \<times> u16) option" where
  "node_route pc = (case pc of R_Forward i k r \<Rightarrow> Some r | _ \<Rightarrow> None)"

lemma node_route_forwarding: "node_forwarding pc = map_option fst (node_route pc)"
  by (simp add: node_forwarding_def node_route_def split: node_pc.split)

section \<open>The invariant\<close>

definition heard_ok :: "system \<Rightarrow> bool" where
  "heard_ok sys \<longleftrightarrow>
     (\<forall>i e r. sv_active_tunnels (sy_server sys) i = Some e \<longrightarrow> te_route e = Some r \<longrightarrow> addressed sys r) \<and>
     (\<forall>c t r. sy_node sys c = Some t \<longrightarrow> node_route (nt_pc t) = Some r \<longrightarrow> addressed sys r) \<and>
     (\<forall>c t x n. sy_cli sys c = Some t \<longrightarrow> pc_ordered (ct_pc t) = Some (x, n) \<longrightarrow>
        heard x n (pc_advertised (ct_pc t)) (sy_sent sys c))"

lemma heard_okD:
  assumes "heard_ok sys"
  shows "sv_active_tunnels (sy_server sys) i = Some e \<Longrightarrow> te_route e = Some r \<Longrightarrow> addressed sys r"
    and "sy_node sys c = Some t \<Longrightarrow> node_route (nt_pc t) = Some r \<Longrightarrow> addressed sys r"
    and "sy_cli sys c = Some u \<Longrightarrow> pc_ordered (ct_pc u) = Some (x, n) \<Longrightarrow>
      heard x n (pc_advertised (ct_pc u)) (sy_sent sys c)"
  using assms unfolding heard_ok_def by blast+

lemma heard_okI:
  assumes "\<And>i e r. sv_active_tunnels (sy_server sys) i = Some e \<Longrightarrow> te_route e = Some r \<Longrightarrow> addressed sys r"
    and "\<And>c t r. sy_node sys c = Some t \<Longrightarrow> node_route (nt_pc t) = Some r \<Longrightarrow> addressed sys r"
    and "\<And>c t x n. sy_cli sys c = Some t \<Longrightarrow> pc_ordered (ct_pc t) = Some (x, n) \<Longrightarrow>
      heard x n (pc_advertised (ct_pc t)) (sy_sent sys c)"
  shows "heard_ok sys"
  using assms unfolding heard_ok_def by blast

lemma addressed_cong: "sy_cli sys' = sy_cli sys \<Longrightarrow> addressed sys' = addressed sys"
  by (simp add: addressed_def fun_eq_iff)

lemma heard_ok_cong:
  assumes "sy_cli sys' = sy_cli sys" and "sy_node sys' = sy_node sys" and "sy_sent sys' = sy_sent sys"
    and "sv_active_tunnels (sy_server sys') = sv_active_tunnels (sy_server sys)" and "heard_ok sys"
  shows "heard_ok sys'"
  using assms addressed_cong [OF assms(1)] by (simp add: heard_ok_def)

section \<open>Steps\<close>

text \<open>The task gets its node at \<open>K_Open\<close>, where nothing has been sent to its CLI; it tells the
  CLI at \<open>K_Advertise\<close>.\<close>

lemma cli_step_heard:
  assumes "sy_cli sys c = Some t" and "sy_cli (cli_step rf c io sys) c = Some t'"
    and "pc_ordered (ct_pc t') = Some (x, n)" and "\<And>m. pc_node (ct_pc t) = Some m \<Longrightarrow> ni_tx m \<noteq> c"
    and "\<And>x m. ct_pc t = K_Open x m \<Longrightarrow> sy_sent sys c = []"
    and "\<And>x n. pc_ordered (ct_pc t) = Some (x, n) \<Longrightarrow> heard x n (pc_advertised (ct_pc t)) (sy_sent sys c)"
  shows "heard x n (pc_advertised (ct_pc t')) (sy_sent (cli_step rf c io sys) c)"
proof (cases "ct_pc t")
  case (K_Open y m)
  with assms(4,5) have "sy_sent (cli_step rf c io sys) c = []"
    using assms(1) by (simp add: cli_step_def step_open_def deliver_sent)
  then show ?thesis by (simp add: heard_def)
next
  case (K_Advertise y m)
  with assms(1-3) have "y = x" "m = n" "pc_advertised (ct_pc t')"
    by (auto simp: cli_step_def step_advertise_def)
  moreover from K_Advertise assms(6) have "heard y m False (sy_sent sys c)" by simp
  moreover have "sy_sent (cli_step rf c io sys) c = sy_sent sys c @ (if io_sent io then [advertisement y m] else [])"
    using K_Advertise assms(1) by (simp add: cli_step_def step_advertise_def deliver_sent advertisement_def)
  ultimately show ?thesis
    using heard_advertised [of x n "sy_sent sys c"] heard_mono [of x n False "sy_sent sys c" True] by auto
qed (use assms in \<open>auto simp: cli_step_def cli_defs remove_tunnel_def Let_def case_prod_beta
      deliver_sent reject_to_def split: option.splits serve_event.splits if_splits\<close>)

lemma addressed_cli:
  assumes "sy_cli sys c = Some t" and "addressed sys r" and "pc_direct (ct_pc t) \<Longrightarrow> fst r \<noteq> c"
  shows "addressed (cli_step rf c io sys) r"
  using assms(1)
proof (cases rule: cli_step_orders [where rf = rf and io = io])
  case (quiet pc')
  with assms(1,2) show ?thesis unfolding addressed_def by (auto split: if_splits)
next
  case (opened x n)
  with assms(2,3) show ?thesis unfolding addressed_def by auto
next
  case (closed x n)
  with assms(2) show ?thesis unfolding addressed_def by auto
qed

lemma heard_ok_cli:
  assumes "heard_ok sys" and "wire_ok sys"
  shows "heard_ok (cli_step rf c io sys)"
proof (cases "sy_cli sys c")
  case None
  then show ?thesis using assms(1) by (simp add: cli_step_def)
next
  case (Some t)
  let ?sys' = "cli_step rf c io sys"
  note H = heard_okD [OF assms(1)] and W = wire_okD [OF assms(2)]
  obtain pc' where step: "sy_cli ?sys' = (sy_cli sys)(c \<mapsto> t\<lparr>ct_pc := pc'\<rparr>)"
    using Some by (cases rule: cli_step_table [where rf = rf and io = io]) blast+
  have other: "ni_tx n \<noteq> d" if "pc_node (ct_pc t) = Some n" "sy_cli sys d = Some u" for n d u
    using W(2) [OF Some that(1)] W(1) [OF that(2)] by auto
  have old: "addressed ?sys' r" if "addressed sys r" "routed sys (fst r)" for r
    using that Some by (intro addressed_cli [OF Some that(1)]) (auto simp: routed_def)
  show ?thesis
  proof (rule heard_okI)
    fix i e r assume e: "sv_active_tunnels (sy_server ?sys') i = Some e" "te_route e = Some r"
    then have "te_route e \<noteq> None" by simp
    from cli_step_entry [OF Some e(1) this] show "addressed ?sys' r"
    proof (elim disjE exE conjE)
      assume s: "sv_active_tunnels (sy_server sys) i = Some e"
      then have "routed sys (fst r)" using W(3) [of i e "fst r" "fst (snd r)" "snd (snd r)"] e(2) by simp
      with H(1) [OF s e(2)] show ?thesis by (rule old)
    next
      fix x n assume x: "ct_pc t = K_Node_Insert x n" "te_route e = Some (c, ni_host n, ni_data_port n)"
      with Some have "sy_cli ?sys' c = Some (t\<lparr>ct_pc := K_Increment x n (io_now io)\<rparr>)"
        by (simp add: cli_step_def step_node_insert_def)
      with x e(2) show ?thesis by (auto simp: addressed_def)
    qed
  next
    fix d u r assume "sy_node ?sys' d = Some u" and r: "node_route (nt_pc u) = Some r"
    then have u: "sy_node sys d = Some u" by simp
    moreover have "node_forwarding (nt_pc u) = Some (fst r)" using r by (simp add: node_route_forwarding)
    ultimately have "routed sys (fst r)" by (rule W(4))
    with H(2) [OF u r] show "addressed ?sys' r" by (rule old)
  next
    fix d u x n assume u: "sy_cli ?sys' d = Some u" "pc_ordered (ct_pc u) = Some (x, n)"
    show "heard x n (pc_advertised (ct_pc u)) (sy_sent ?sys' d)"
    proof (cases "d = c")
      case True
      have "sy_sent sys c = []" if "ct_pc t = K_Open y m" for y m
        using W(5) [OF Some] that by (simp add: hears_def)
      with True u other [OF _ Some] H(3) [OF Some] cli_step_heard [OF Some, where t' = u and x = x and n = n]
      show ?thesis by simp
    next
      case False
      with u step have d: "sy_cli sys d = Some u" by simp
      have "sy_sent ?sys' d = sy_sent sys d" by (rule cli_step_sent_other [OF Some False other [OF _ d]])
      with H(3) [OF d u(2)] show ?thesis by simp
    qed
  qed
qed

lemma node_step_routes:
  assumes "sy_node sys c = Some t"
  obtains pc' where "sy_node (node_step cd c io sys) = (sy_node sys)(c \<mapsto> t\<lparr>nt_pc := pc'\<rparr>)"
    "\<And>r. node_route pc' = Some r \<Longrightarrow> node_route (nt_pc t) = Some r \<or>
      (\<exists>i e. sv_active_tunnels (sy_server sys) i = Some e \<and> te_route e = Some r)"
proof -
  obtain pc' where step: "sy_node (node_step cd c io sys) = (sy_node sys)(c \<mapsto> t\<lparr>nt_pc := pc'\<rparr>)"
    using node_step_task [OF assms, where cd = cd and io = io] by blast
  then have pc: "pc' = nt_pc (the (sy_node (node_step cd c io sys) c))" by simp
  have "node_route (nt_pc t) = Some r \<or>
      (\<exists>i e. sv_active_tunnels (sy_server sys) i = Some e \<and> te_route e = Some r)"
    if "node_route pc' = Some r" for r
    using that assms unfolding pc
    by (cases "nt_pc t") (auto simp: node_step_def node_defs node_route_def bind_eq_Some_conv
        split: option.splits io_result.splits prod.splits message.splits if_splits)
  with step show thesis by (rule that)
qed

text \<open>What a node task sends to another connection is a visitor with the address of its route.\<close>

lemma node_step_sent:
  assumes "sy_node sys c = Some t" and "d \<noteq> c"
  shows "sy_sent (node_step cd c io sys) d = sy_sent sys d \<or>
    (\<exists>i h q. node_route (nt_pc t) = Some (d, h, q) \<and> sy_sent (node_step cd c io sys) d = sy_sent sys d @
      [New_Conn \<lparr>nc_conn_id = i, nc_node_host = Some h, nc_node_port = Some q\<rparr>])"
proof (cases "nt_pc t")
  case (R_Forward i k r)
  with assms show ?thesis
    by (cases r) (auto simp: node_step_def step_forward_def node_route_def deliver_sent)
next
  case (R_Loop i)
  with assms show ?thesis
    by (auto simp: node_step_def step_node_loop_def split: io_result.splits prod.splits option.splits message.splits)
next
  case (R_Lookup i k w)
  with assms show ?thesis by (simp add: node_step_def step_lookup_def split: option.split)
qed (use assms in \<open>simp_all add: node_step_def node_defs deliver_sent reject_to_def\<close>)

lemma heard_ok_node:
  assumes "heard_ok sys" and "wire_ok sys"
  shows "heard_ok (node_step cd c io sys)"
proof (cases "sy_node sys c")
  case None
  then show ?thesis using assms(1) by (simp add: node_step_def)
next
  case (Some t)
  let ?sys' = "node_step cd c io sys"
  note H = heard_okD [OF assms(1)]
  obtain pc' where step: "sy_node ?sys' = (sy_node sys)(c \<mapsto> t\<lparr>nt_pc := pc'\<rparr>)"
    and routes: "\<And>r. node_route pc' = Some r \<Longrightarrow> node_route (nt_pc t) = Some r \<or>
      (\<exists>i e. sv_active_tunnels (sy_server sys) i = Some e \<and> te_route e = Some r)"
    using node_step_routes [OF Some, where cd = cd and io = io] by blast
  have cli: "sy_cli ?sys' = sy_cli sys" by (rule node_step_frame)
  have same: "addressed ?sys' = addressed sys" by (rule addressed_cong [OF cli])
  show ?thesis
  proof (rule heard_okI)
    fix i e r assume "sv_active_tunnels (sy_server ?sys') i = Some e" "te_route e = Some r"
    with H(1) same show "addressed ?sys' r" by (simp add: node_step_frame)
  next
    fix d u r assume u: "sy_node ?sys' d = Some u" "node_route (nt_pc u) = Some r"
    show "addressed ?sys' r"
    proof (cases "d = c")
      case True
      with u step have "node_route pc' = Some r" by auto
      with routes H(1) H(2) [OF Some] same show ?thesis by metis
    next
      case False
      with u step H(2) [of d u r] same show ?thesis by simp
    qed
  next
    fix d u x n assume u': "sy_cli ?sys' d = Some u" "pc_ordered (ct_pc u) = Some (x, n)"
    then have u: "sy_cli sys d = Some u" by (simp add: cli)
    then have "d \<noteq> c" using wire_okD(1) [OF assms(2) u] Some by auto
    from node_step_sent [OF Some this, of cd io]
    show "heard x n (pc_advertised (ct_pc u)) (sy_sent ?sys' d)"
    proof (elim disjE exE conjE)
      fix i h q
      assume r: "node_route (nt_pc t) = Some (d, h, q)" and sent: "sy_sent ?sys' d = sy_sent sys d @
        [New_Conn \<lparr>nc_conn_id = i, nc_node_host = Some h, nc_node_port = Some q\<rparr>]"
      from H(2) [OF Some r] u u'(2) have "h = ni_host n" "q = ni_data_port n"
        by (auto simp: addressed_def)
      with sent H(3) [OF u u'(2)] show ?thesis by (simp add: heard_forward)
    qed (use H(3) [OF u u'(2)] in simp)
  qed
qed

lemma heard_ok_connect:
  assumes "heard_ok sys" and "sy_cli sys c = None" and "sy_node sys c = None"
  shows "heard_ok (handle_client cd c stream host ok sys)"
proof -
  let ?sys' = "handle_client cd c stream host ok sys"
  note H = heard_okD [OF assms(1)]
  have cli: "sy_cli sys d = Some u \<or> pc_ordered (ct_pc u) = None" if "sy_cli ?sys' d = Some u" for d u
    using handle_client_cli [of cd c stream host ok sys] that by (auto split: if_splits)
  have mono: "addressed ?sys' r" if "addressed sys r" for r
    using that cli unfolding addressed_def by (metis option.distinct(1))
  have sent: "sy_sent ?sys' d = sy_sent sys d" if "d \<noteq> c" for d
    using that by (simp add: handle_client_def reject_to_def deliver_sent split: client_kind.split)
  show ?thesis
  proof (rule heard_okI)
    fix i e r assume "sv_active_tunnels (sy_server ?sys') i = Some e" "te_route e = Some r"
    with H(1) mono show "addressed ?sys' r" by (simp add: handle_client_frame)
  next
    fix d u r assume "sy_node ?sys' d = Some u" "node_route (nt_pc u) = Some r"
    then have "sy_node sys d = Some u"
      by (auto simp: handle_client_def node_route_def split: client_kind.splits if_splits)
    with H(2) mono \<open>node_route (nt_pc u) = Some r\<close> show "addressed ?sys' r" by blast
  next
    fix d u x n assume u: "sy_cli ?sys' d = Some u" "pc_ordered (ct_pc u) = Some (x, n)"
    with cli have d: "sy_cli sys d = Some u" by fastforce
    with assms(2) have "d \<noteq> c" by auto
    with H(3) [OF d u(2)] sent show "heard x n (pc_advertised (ct_pc u)) (sy_sent ?sys' d)" by simp
  qed
qed

lemma heard_ok_step:
  assumes "sys_step cd lib sys sys'" and "heard_ok sys" and "wire_ok sys"
  shows "heard_ok sys'"
  using assms
proof (induction rule: sys_step.induct)
  case (connect sys c stream host ok)
  then show ?case by (simp add: heard_ok_connect)
next
  case (cli io sys c)
  then have "heard_ok (cli_step (al_rfc3339 lib) c io sys)" by (simp add: heard_ok_cli)
  then show ?case by (rule heard_ok_cong [rotated 4]) simp_all
next
  case (node io sys c)
  then have "heard_ok (node_step cd c io sys)" by (simp add: heard_ok_node)
  then show ?case by (rule heard_ok_cong [rotated 4]) simp_all
next
  case (data op sys)
  then show ?case by (auto intro: heard_ok_cong)
next
  case (visit sys v now)
  then show ?case by (auto intro: heard_ok_cong simp: visitor_done_frame)
next
  case (api sys now order uuid parts req)
  then show ?case by (auto intro: heard_ok_cong simp: api_frame)
qed

lemma heard_ok_reachable: "sys_reachable cd lib cfg sys \<Longrightarrow> heard_ok sys"
proof (induction rule: sys_reachable.induct)
  case start
  show ?case by (simp add: heard_ok_def system_new_def server_new_def)
next
  case (step sys sys')
  then show ?case using heard_ok_step wire_ok_reachable by blast
qed

section \<open>What the CLI makes of it\<close>

definition node_notice :: "node_info \<Rightarrow> string \<Rightarrow> message" where
  "node_notice n i = New_Conn \<lparr>nc_conn_id = i, nc_node_host = Some (ni_host n), nc_node_port = Some (ni_data_port n)\<rparr>"

lemma via_node_notice: "via_node n m \<longleftrightarrow> (\<exists>i. m = node_notice n i)"
  by (cases m) (auto simp: node_notice_def intro!: exI new_conn.equality)

lemma all_via_node: "filter (\<lambda>m. \<not> via_node n m) ms = [] \<Longrightarrow> \<exists>ids. ms = map (node_notice n) ids"
proof (induction ms)
  case (Cons m ms)
  then obtain i ids where "m = node_notice n i" "ms = map (node_notice n) ids"
    by (auto simp: via_node_notice split: if_splits)
  then show ?case by (intro exI [of _ "i # ids"]) simp
qed simp

text \<open>If the confirmation comes first, the rest are visitors of the node.\<close>

lemma sent_via_node:
  assumes "sys_reachable cd lib cfg sys" and "sy_cli sys c = Some t"
    and "pc_ordered (ct_pc t) = Some (x, n)" and "sy_sent sys c = Registered r # ms"
  shows "Registered r = advertisement x n \<and> (\<exists>ids. ms = map (node_notice n) ids)"
proof -
  have "heard x n (pc_advertised (ct_pc t)) (Registered r # ms)"
    using heard_okD(3) [OF heard_ok_reachable [OF assms(1)] assms(2,3)] assms(4) by simp
  then have "Registered r = advertisement x n" "filter (\<lambda>m. \<not> via_node n m) ms = []"
    by (auto simp: heard_def Let_def)
  with all_via_node show ?thesis by blast
qed

end
