(* ===== verification/Control_Events.thy ===== *)
theory Control_Events
  imports Control_Tunnels
begin

text \<open>
  The lifecycle events of a tunnel on the dashboard's bus. \<open>span\<close> is what the bus says of
  one tunnel; the stage of the owning task, read off its program point, tells what it must
  be: nothing before the tunnel is announced, one opening event while it lives, an opening
  and a closing event when it is gone.
\<close>

section \<open>What the bus says of a tunnel\<close>

fun about :: "string \<Rightarrow> bh_event \<Rightarrow> bool" where
  "about i (Tunnel_Opened j _ _ _ _ _) = (j = i)"
| "about i (Tunnel_Closed j) = (j = i)"
| "about i _ = False"

fun opens :: "string \<Rightarrow> bh_event \<Rightarrow> bool" where
  "opens i (Tunnel_Opened j _ _ _ _ _) = (j = i)"
| "opens i _ = False"

definition span :: "string \<Rightarrow> event_bus \<Rightarrow> bh_event list" where
  "span i bus = filter (about i) bus"

lemma span_snoc: "span i (bus @ [e]) = span i bus @ (if about i e then [e] else [])"
  by (simp add: span_def)

lemma span_Nil [simp]: "span i [] = []"
  by (simp add: span_def)

lemma opened_event_about [simp]:
  "about i (opened_event rf reg x node ts) \<longleftrightarrow> tc_tunnel_id x = i"
  "opens i (opened_event rf reg x node ts) \<longleftrightarrow> tc_tunnel_id x = i"
  by (simp_all add: opened_event_def)

definition is_open :: "string \<Rightarrow> bh_event list \<Rightarrow> bool" where
  "is_open i sp \<longleftrightarrow> (\<exists>e. opens i e \<and> sp = [e])"

definition is_over :: "string \<Rightarrow> bh_event list \<Rightarrow> bool" where
  "is_over i sp \<longleftrightarrow> (\<exists>e. opens i e \<and> sp = [e, Tunnel_Closed i])"

lemma is_open_close: "is_open i sp \<Longrightarrow> is_over i (sp @ [Tunnel_Closed i])"
  by (auto simp: is_open_def is_over_def)

section \<open>The stage of a task\<close>

datatype stage = Unannounced | Announced | Removing | Settled

fun pc_stage :: "cli_pc \<Rightarrow> stage" where
  "pc_stage (K_Serve _) = Announced"
| "pc_stage (K_Notify _ _ _) = Announced"
| "pc_stage (K_Advertise _ _) = Announced"
| "pc_stage (K_Node_Serve _ _) = Announced"
| "pc_stage (K_Close_Order _ _) = Announced"
| "pc_stage (K_Decrement _ _) = Announced"
| "pc_stage (K_Record _ _) = Announced"
| "pc_stage (K_Closed _) = Announced"
| "pc_stage (K_Remove _) = Removing"
| "pc_stage (K_Release _) = Settled"
| "pc_stage _ = Unannounced"

definition stage_ok :: "bool \<Rightarrow> stage \<Rightarrow> string \<Rightarrow> bh_event list \<Rightarrow> bool" where
  "stage_ok in_table st i sp \<longleftrightarrow>
     (case st of
        Unannounced \<Rightarrow> sp = []
      | Announced \<Rightarrow> is_open i sp
      | Removing \<Rightarrow> if in_table then is_open i sp else sp = []
      | Settled \<Rightarrow> sp = [] \<or> is_over i sp)"

definition task_told :: "system \<Rightarrow> cli_task \<Rightarrow> bool" where
  "task_told sys t \<longleftrightarrow>
     (case pc_ctx (ct_pc t) of
        None \<Rightarrow> True
      | Some x \<Rightarrow> stage_ok (sv_active_tunnels (sy_server sys) (tc_tunnel_id x) \<noteq> None)
          (pc_stage (ct_pc t)) (tc_tunnel_id x) (span (tc_tunnel_id x) (sv_event_bus (sy_server sys))))"

text \<open>The step of a task, for its own tunnel and for all others.\<close>

lemma task_told_cli:
  assumes "sy_cli sys c = Some t" and "task_told sys t" and "task_listed sys t"
    and "span (io_uuid io) (sv_event_bus (sy_server sys)) = []"
    and "sy_cli (cli_step rf c io sys) c = Some t'"
  shows "task_told (cli_step rf c io sys) t'"
proof (cases "ct_pc t")
  case (K_Insert x)
  with assms show ?thesis
    by (clarsimp simp: cli_step_def step_insert_def task_told_def stage_ok_def)
next
  case (K_Node_Insert x node)
  with assms show ?thesis
    by (clarsimp simp: cli_step_def step_node_insert_def task_told_def stage_ok_def)
next
  case (K_Remove x)
  with assms show ?thesis
    by (cases "sv_active_tunnels (sy_server sys) (tc_tunnel_id x)")
      (auto simp: cli_step_def step_remove_def remove_tunnel_def Let_def task_told_def stage_ok_def)
qed (use assms in \<open>auto simp: cli_step_def cli_defs task_told_def task_listed_def stage_ok_def
      span_snoc is_open_def is_over_def Let_def case_prod_beta
      split: option.splits serve_event.splits if_splits\<close>)

lemma cli_step_span:
  assumes "sy_cli sys c = Some t" and "i \<notin> tc_tunnel_id ` set_option (pc_ctx (ct_pc t))"
  shows "span i (sv_event_bus (sy_server (cli_step rf c io sys))) = span i (sv_event_bus (sy_server sys))"
  using assms
  by (cases "ct_pc t")
    (simp_all add: cli_step_def cli_defs span_snoc remove_tunnel_def Let_def case_prod_beta
      split: option.split serve_event.split)

section \<open>The invariant\<close>

definition events_ok :: "system \<Rightarrow> bool" where
  "events_ok sys \<longleftrightarrow>
     (\<forall>c t. sy_cli sys c = Some t \<longrightarrow> task_told sys t) \<and>
     (\<forall>i. let sp = span i (sv_event_bus (sy_server sys)) in
        (i \<notin> tc_tunnel_id ` ran (ctx_of sys) \<longrightarrow> sp = [] \<or> is_over i sp) \<and>
        (i \<notin> sy_uuids sys \<longrightarrow> sp = []))"

lemma task_told_cong:
  assumes "sv_active_tunnels (sy_server sys') = sv_active_tunnels (sy_server sys)"
    and "\<And>i. span i (sv_event_bus (sy_server sys')) = span i (sv_event_bus (sy_server sys))"
  shows "task_told sys' = task_told sys"
  unfolding task_told_def assms by (rule refl)

lemma events_ok_cong:
  assumes "events_ok sys" and "sy_cli sys' = sy_cli sys"
    and "sv_active_tunnels (sy_server sys') = sv_active_tunnels (sy_server sys)"
    and "\<And>i. span i (sv_event_bus (sy_server sys')) = span i (sv_event_bus (sy_server sys))"
    and "sy_uuids sys \<subseteq> sy_uuids sys'"
  shows "events_ok sys'"
  using assms(1,5) task_told_cong [OF assms(3,4)] ctx_of_cong [OF assms(2)]
  by (auto simp: events_ok_def assms(2,4) Let_def)

abbreviation own_id :: "cli_task \<Rightarrow> string set" where
  "own_id t \<equiv> tc_tunnel_id ` set_option (pc_ctx (ct_pc t))"

lemma own_id_ctx:
  assumes "sy_cli sys c = Some t" and "i \<in> own_id t"
  shows "\<exists>x. ctx_of sys c = Some x \<and> tc_tunnel_id x = i"
  using assms by (auto simp: ctx_of_def)

lemma own_id_held:
  assumes "sy_cli sys c = Some t" and "i \<in> own_id t"
  shows "i \<in> tc_tunnel_id ` ran (ctx_of sys)"
  using own_id_ctx [OF assms] by (metis imageI ranI)

lemma own_id_known:
  assumes "ids_ok sys" and "sy_cli sys c = Some t" and "i \<in> own_id t"
  shows "i \<in> sy_uuids sys"
  using own_id_ctx [OF assms(2,3)] assms(1) unfolding ids_ok_def by blast

lemma own_id_apart:
  assumes "ids_ok sys" and "sy_cli sys c = Some t" and "sy_cli sys d = Some s" and "d \<noteq> c"
  shows "own_id s \<inter> own_id t = {}"
proof (rule ccontr)
  assume "own_id s \<inter> own_id t \<noteq> {}"
  then obtain i where i: "i \<in> own_id s" "i \<in> own_id t" by blast
  from own_id_ctx [OF assms(2) i(2)] own_id_ctx [OF assms(3) i(1)] assms(1,4) show False
    unfolding ids_ok_def by metis
qed

lemma cli_step_others:
  assumes "sy_cli sys c = Some t"
  shows "d \<noteq> c \<Longrightarrow> sy_cli (cli_step rf c io sys) d = sy_cli sys d"
    and "i \<notin> own_id t \<Longrightarrow>
      sv_active_tunnels (sy_server (cli_step rf c io sys)) i = sv_active_tunnels (sy_server sys) i"
  using assms by (cases rule: cli_step_table [where rf = rf and io = io], auto)+

lemma other_told_cli:
  assumes "ids_ok sys" and "sy_cli sys c = Some t" and "sy_cli sys d = Some s" and "d \<noteq> c"
    and "task_told sys s"
  shows "task_told (cli_step rf c io sys) s"
proof (cases "pc_ctx (ct_pc s)")
  case (Some y)
  then have "tc_tunnel_id y \<notin> own_id t" using own_id_apart [OF assms(1-4)] by auto
  with Some assms(5) cli_step_span [OF assms(2)] cli_step_others(2) [OF assms(2)] show ?thesis
    by (simp add: task_told_def)
qed (simp add: task_told_def)

text \<open>A tunnel that no task owns after a step was told to its end, or never begun.\<close>

lemma unowned_settled:
  assumes "events_ok sys" and "sy_cli sys c = Some t"
    and "i \<notin> tc_tunnel_id ` ran (ctx_of (cli_step rf c io sys))"
  shows "span i (sv_event_bus (sy_server (cli_step rf c io sys))) = [] \<or>
    is_over i (span i (sv_event_bus (sy_server (cli_step rf c io sys))))"
proof -
  let ?bus = "sv_event_bus (sy_server sys)"
  have told: "task_told sys t" using assms(1,2) by (simp add: events_ok_def)
  have old: "span i ?bus = [] \<or> is_over i (span i ?bus)" if "i \<notin> tc_tunnel_id ` ran (ctx_of sys)"
    using assms(1) that by (simp add: events_ok_def Let_def)
  have same: "span i (sv_event_bus (sy_server (cli_step rf c io sys))) = span i ?bus" if "i \<notin> own_id t"
    using cli_step_span [OF assms(2) that] .
  have sub: "i \<notin> tc_tunnel_id ` ran (ctx_of sys)" "i \<notin> own_id t"
    if "ran (ctx_of sys) \<subseteq> ran (ctx_of (cli_step rf c io sys))"
  proof -
    show new: "i \<notin> tc_tunnel_id ` ran (ctx_of sys)" using that assms(3) by blast
    show "i \<notin> own_id t" using new own_id_held [OF assms(2)] by blast
  qed
  from assms(2) show ?thesis
  proof (cases rule: cli_step_ctx [where rf = rf and io = io])
    case (released x)
    have bus: "sv_event_bus (sy_server (cli_step rf c io sys)) = ?bus"
      using assms(2) released(1) by (simp add: cli_step_def step_release_def)
    show ?thesis
    proof (cases "i = tc_tunnel_id x")
      case True
      with told released(1) bus show ?thesis by (simp add: task_told_def stage_ok_def)
    next
      case False
      have "i \<notin> tc_tunnel_id ` ran (ctx_of sys)"
      proof
        assume "i \<in> tc_tunnel_id ` ran (ctx_of sys)"
        then obtain d y where y: "ctx_of sys d = Some y" "tc_tunnel_id y = i" by (auto simp: ran_def)
        have "d \<noteq> c" using y False assms(2) released(1) by (auto simp: ctx_of_def)
        with y(1) released(2) have "ctx_of (cli_step rf c io sys) d = Some y" by simp
        with y(2) assms(3) show False by (metis imageI ranI)
      qed
      with old bus show ?thesis by simp
    qed
  next
    case keep
    then show ?thesis using old same sub by simp
  next
    case refused
    then show ?thesis using old same sub by simp
  next
    case (acquired p)
    have "ctx_of sys c = None" using assms(2) acquired(1) by (simp add: ctx_of_def)
    then have "ran (ctx_of sys) \<subseteq> ran (ctx_of (cli_step rf c io sys))"
      using acquired(3) by auto
    then show ?thesis using old same sub by simp
  qed
qed

lemma events_ok_cli:
  assumes "events_ok sys" and "ids_ok sys" and "table_ok sys" and "draws_ok io sys"
  shows "events_ok (drawn (io_uuid io) (cli_step rf c io sys))"
proof (cases "sy_cli sys c")
  case None
  then show ?thesis
    using events_ok_cong [OF assms(1), of "drawn (io_uuid io) (cli_step rf c io sys)"]
    by (auto simp: cli_step_def)
next
  case (Some t)
  let ?sys' = "cli_step rf c io sys"
  have told: "task_told sys t" and listed: "task_listed sys t"
    using assms(1,3) Some by (simp_all add: events_ok_def table_ok_def)
  have fresh: "span (io_uuid io) (sv_event_bus (sy_server sys)) = []"
    using assms(1,4) by (simp add: events_ok_def draws_ok_def Let_def)
  have tasks: "task_told ?sys' s" if "sy_cli ?sys' d = Some s" for d s
  proof (cases "d = c")
    case True
    with that task_told_cli [OF Some told listed fresh] show ?thesis by simp
  next
    case False
    with that have s: "sy_cli sys d = Some s" using cli_step_others(1) [OF Some] by simp
    then have "task_told sys s" using assms(1) by (simp add: events_ok_def)
    with other_told_cli [OF assms(2) Some s False] show ?thesis by simp
  qed
  have unborn: "span i (sv_event_bus (sy_server ?sys')) = []" if "i \<notin> sy_uuids sys" for i
  proof -
    have "i \<notin> own_id t" using own_id_known [OF assms(2) Some] that by blast
    from cli_step_span [OF Some this] assms(1) that show ?thesis
      by (simp add: events_ok_def Let_def)
  qed
  have "task_told (drawn (io_uuid io) ?sys') = task_told ?sys'" by (rule task_told_cong) simp_all
  with tasks unowned_settled [OF assms(1) Some] unborn show ?thesis
    by (simp add: events_ok_def Let_def)
qed

text \<open>Node tasks publish events too, about nodes only.\<close>

lemma node_step_span:
  "span i (sv_event_bus (sy_server (node_step cd c io sys))) = span i (sv_event_bus (sy_server sys))"
  by (simp add: node_step_def node_defs span_snoc split: option.splits node_pc.splits
      io_result.splits prod.splits message.splits)

lemma events_ok_connect:
  assumes "events_ok sys" and "sy_cli sys c = None"
  shows "events_ok (handle_client cd c stream host ok sys)"
proof -
  let ?sys' = "handle_client cd c stream host ok sys"
  have "ctx_of ?sys' = ctx_of sys"
    using handle_client_cli [of cd c stream host ok sys] assms(2)
    by (auto simp: ctx_of_def fun_eq_iff)
  moreover have "task_told ?sys' = task_told sys"
    by (rule task_told_cong) (simp_all add: handle_client_frame)
  moreover have "task_told sys t" if "sy_cli ?sys' d = Some t" for d t
    using that handle_client_cli [of cd c stream host ok sys] assms(1)
    by (auto simp: events_ok_def task_told_def split: if_splits)
  ultimately show ?thesis
    using assms(1) by (simp add: events_ok_def handle_client_frame)
qed

lemma events_ok_step:
  "sys_step cd lib sys sys' \<Longrightarrow> ids_ok sys \<Longrightarrow> table_ok sys \<Longrightarrow> events_ok sys \<Longrightarrow> events_ok sys'"
proof (induction rule: sys_step.induct)
  case (connect sys c stream host ok)
  then show ?case by (simp add: events_ok_connect)
next
  case (cli io sys c)
  then show ?case by (simp add: events_ok_cli)
next
  case (node io sys c)
  show ?case
    by (rule events_ok_cong [OF node(4)]) (auto simp: node_step_frame node_step_span)
next
  case (data op sys)
  show ?case by (rule events_ok_cong [OF data(4)]) simp_all
next
  case (visit sys v now)
  show ?case by (rule events_ok_cong [OF visit(4)]) (simp_all add: visitor_done_frame)
next
  case (api sys now order uuid parts req)
  show ?case by (rule events_ok_cong [OF api(3)]) (simp_all add: api_frame)
qed

lemma events_ok_new: "events_ok (system_new cfg)"
  by (simp add: events_ok_def system_new_def server_new_def event_bus_new_def)

lemma events_ok_reachable: "sys_reachable cd lib cfg sys \<Longrightarrow> events_ok sys"
proof (induction rule: sys_reachable.induct)
  case start
  show ?case by (rule events_ok_new)
next
  case (step sys sys')
  with ids_ok_reachable table_ok_reachable events_ok_step show ?case by blast
qed

lemma stage_of_task:
  assumes "events_ok sys" and "sy_cli sys c = Some t" and "pc_ctx (ct_pc t) = Some x"
  shows "stage_ok (sv_active_tunnels (sy_server sys) (tc_tunnel_id x) \<noteq> None) (pc_stage (ct_pc t))
    (tc_tunnel_id x) (span (tc_tunnel_id x) (sv_event_bus (sy_server sys)))"
proof -
  have "task_told sys t" using assms(1,2) unfolding events_ok_def by blast
  with assms(3) show ?thesis unfolding task_told_def by simp
qed

section \<open>Properties\<close>

text \<open>C4: the dashboard hears of every tunnel exactly once in the right order: in every
  reachable state the bus says nothing of a tunnel id, or that it opened, or that it
  opened and closed; a tunnel shown as open is owned by a live task, and one whose entry is
  still in the table has not been reported closed.\<close>

theorem tunnel_events_paired:
  assumes "sys_reachable cd lib cfg sys"
  shows "let sp = span i (sv_event_bus (sy_server sys)) in
    (sp = [] \<or> is_open i sp \<or> is_over i sp) \<and>
    (is_open i sp \<longrightarrow> i \<in> tc_tunnel_id ` ran (ctx_of sys)) \<and>
    (sv_active_tunnels (sy_server sys) i \<noteq> None \<longrightarrow> \<not> is_over i sp)"
proof -
  let ?sp = "span i (sv_event_bus (sy_server sys))"
  have E: "events_ok sys" using events_ok_reachable [OF assms] .
  have over: "\<not> (is_open i sp \<and> (sp = [] \<or> is_over i sp))" for sp
    by (auto simp: is_open_def is_over_def)
  have held: "?sp = [] \<or> is_open i ?sp \<or> is_over i ?sp" if "i \<in> tc_tunnel_id ` ran (ctx_of sys)"
  proof -
    from that obtain c x where "ctx_of sys c = Some x" "tc_tunnel_id x = i" by (auto simp: ran_def)
    moreover from this obtain t where "sy_cli sys c = Some t" "pc_ctx (ct_pc t) = Some x"
      by (auto simp: ctx_of_def bind_eq_Some_conv)
    ultimately have "stage_ok (sv_active_tunnels (sy_server sys) i \<noteq> None) (pc_stage (ct_pc t)) i ?sp"
      using stage_of_task [OF E] by blast
    then show ?thesis by (auto simp: stage_ok_def split: stage.splits if_splits)
  qed
  have live: "\<not> is_over i ?sp" if act: "sv_active_tunnels (sy_server sys) i = Some e" for e
  proof -
    have "entry_owned sys i e"
      using table_ok_reachable [OF assms] act by (simp add: table_ok_def)
    then obtain t x where t: "sy_cli sys (te_close e) = Some t" "pc_ctx (ct_pc t) = Some x"
      "tc_tunnel_id x = i" "pc_listed (ct_pc t) \<noteq> Some False"
      unfolding entry_owned_def by blast
    then have "stage_ok True (pc_stage (ct_pc t)) i ?sp"
      using stage_of_task [OF E t(1,2)] act by simp
    moreover have "pc_stage (ct_pc t) \<noteq> Settled" using t(4) by (cases "ct_pc t") auto
    ultimately show ?thesis using over
      by (auto simp: stage_ok_def is_over_def split: stage.splits)
  qed
  have free: "?sp = [] \<or> is_over i ?sp" if "i \<notin> tc_tunnel_id ` ran (ctx_of sys)"
    using E that unfolding events_ok_def Let_def by blast
  have "is_open i ?sp \<longrightarrow> i \<in> tc_tunnel_id ` ran (ctx_of sys)" using free over by blast
  moreover have "?sp = [] \<or> is_open i ?sp \<or> is_over i ?sp" using free held by blast
  ultimately show ?thesis using live unfolding Let_def by blast
qed

theorem tunnel_events_paired_witness:
  "is_open ''3'' (span ''3'' (sv_event_bus (sy_server (sample_served plain_lib)))) \<and>
   ''3'' \<in> tc_tunnel_id ` ran (ctx_of (sample_served plain_lib))"
proof -
  have "is_open ''3'' (span ''3'' (sv_event_bus (sy_server (sample_served plain_lib))))"
    by (simp add: sample_served_def sample_opened_def span_def is_open_def sample_ctx_def)
  with tunnel_events_paired [OF sample_served_reachable [of plain_lib], of "''3''"] show ?thesis
    by (simp add: Let_def)
qed

end
