(* ===== verification/Control_Ends.thy ===== *)
theory Control_Ends
  imports Control_Nodes
begin

text \<open>
  How a tunnel ends (\<open>Control\<close>). Every step of the task of a CLI connection takes it nearer to
  its end, except the turns of the two serving loops; once a loop leaves, because the CLI is
  gone or the dashboard asked for it, the task is over after a bounded number of its own
  steps, whatever the other tasks do in between, and it leaves nothing behind.
\<close>

section \<open>Distance to the end\<close>

fun pc_rank :: "cli_pc \<Rightarrow> nat" where
  "pc_rank K_Token = 16"
| "pc_rank K_Device = 15"
| "pc_rank K_Port = 14"
| "pc_rank (K_Pick x) = 13"
| "pc_rank (K_Open x node) = 12"
| "pc_rank (K_Node_Insert x node) = 11"
| "pc_rank (K_Increment x node ts) = 10"
| "pc_rank (K_Node_Publish x node ts) = 9"
| "pc_rank (K_Advertise x node) = 8"
| "pc_rank (K_Node_Serve x node) = 7"
| "pc_rank (K_Close_Order x node) = 6"
| "pc_rank (K_Decrement x node) = 5"
| "pc_rank (K_Bind x) = 9"
| "pc_rank (K_Ready x) = 8"
| "pc_rank (K_Insert x) = 7"
| "pc_rank (K_Publish x ts) = 6"
| "pc_rank (K_Notify x v i) = 6"
| "pc_rank (K_Serve x) = 5"
| "pc_rank (K_Remove x) = 4"
| "pc_rank (K_Record x entry) = 3"
| "pc_rank (K_Closed x) = 2"
| "pc_rank (K_Release x) = 1"
| "pc_rank K_Finished = 0"

lemma pc_rank_le: "pc_rank pc \<le> 16"
  by (cases pc) simp_all

lemma pc_rank_0: "pc_rank pc = 0 \<longleftrightarrow> pc = K_Finished"
  by (cases pc) simp_all

text \<open>The branch of \<open>select!\<close> taken is one that leaves the loop.\<close>

definition leaving :: "conn \<Rightarrow> io \<Rightarrow> system \<Rightarrow> bool" where
  "leaving c io sys \<longleftrightarrow>
     io_event io = Ev_Gone \<or> io_event io = Ev_Close \<and> c \<in> sv_permits (sy_server sys)"

lemma leaving_step:
  assumes "sy_cli sys c = Some t" and "leaving c io sys"
  shows "\<exists>pc'. sy_cli (cli_step rf c io sys) = (sy_cli sys)(c \<mapsto> t\<lparr>ct_pc := pc'\<rparr>) \<and>
    pc_rank pc' \<le> pc_rank (ct_pc t) - 1"
proof -
  obtain pc' where step: "sy_cli (cli_step rf c io sys) = (sy_cli sys)(c \<mapsto> t\<lparr>ct_pc := pc'\<rparr>)"
    using assms(1) by (cases rule: cli_step_table [where rf = rf and io = io]) blast+
  then have pc: "pc' = ct_pc (the (sy_cli (cli_step rf c io sys) c))" by simp
  have "pc_rank pc' \<le> pc_rank (ct_pc t) - 1"
    using assms(2)
    by (cases "ct_pc t"; auto simp: pc cli_step_def assms(1) cli_defs remove_tunnel_def Let_def
        case_prod_beta leaving_def split: option.split)
  with step show ?thesis by blast
qed

section \<open>Runs in which a task leaves\<close>

text \<open>\<open>n\<close> steps of task \<open>c\<close> itself, each taking the leaving branch when it is in a loop, and
  between them any steps of the system that do not concern it.\<close>

inductive leaving_run :: "codec \<Rightarrow> auth_lib \<Rightarrow> conn \<Rightarrow> nat \<Rightarrow> system \<Rightarrow> system \<Rightarrow> bool"
  for cd lib c where
  stay: "leaving_run cd lib c 0 sys sys"
| own: "leaving_run cd lib c n sys sys' \<Longrightarrow> draws_ok io sys' \<Longrightarrow> leaving c io sys' \<Longrightarrow>
    leaving_run cd lib c (Suc n) sys (drawn (io_uuid io) (cli_step (al_rfc3339 lib) c io sys'))"
| other: "leaving_run cd lib c n sys sys' \<Longrightarrow> sys_step cd lib sys' sys'' \<Longrightarrow>
    sy_cli sys'' c = sy_cli sys' c \<Longrightarrow> leaving_run cd lib c n sys sys''"

lemma leaving_run_reachable:
  "leaving_run cd lib c n sys sys' \<Longrightarrow> sys_reachable cd lib cfg sys \<Longrightarrow> sys_reachable cd lib cfg sys'"
  by (induction rule: leaving_run.induct) (auto intro: sys_reachable.step sys_step.cli)

lemma leaving_run_rank:
  "leaving_run cd lib c n sys sys' \<Longrightarrow> sy_cli sys c = Some t \<Longrightarrow>
   \<exists>t'. sy_cli sys' c = Some t' \<and> pc_rank (ct_pc t') \<le> pc_rank (ct_pc t) - n"
proof (induction rule: leaving_run.induct)
  case (own n sys sys' io)
  then obtain t' where t': "sy_cli sys' c = Some t'" "pc_rank (ct_pc t') \<le> pc_rank (ct_pc t) - n"
    by blast
  from leaving_step [OF t'(1) own.hyps(3), of "al_rfc3339 lib"] t'(2) show ?case by auto
qed auto

text \<open>Such runs exist from every reachable state, of any length: a task is never stuck.\<close>

lemma cli_step_draws:
  assumes "sys_step cd lib sys sys'" and "finite (sy_uuids sys)"
  shows "finite (sy_uuids sys')"
  using assms
  by (cases rule: sys_step.cases) (simp_all add: handle_client_frame node_step_frame visitor_done_frame)

lemma uuids_finite: "sys_reachable cd lib cfg sys \<Longrightarrow> finite (sy_uuids sys)"
proof (induction rule: sys_reachable.induct)
  case start
  show ?case by (simp add: system_new_def)
qed (rule cli_step_draws)

lemma draws_exist:
  assumes "sys_reachable cd lib cfg sys"
  shows "\<exists>io. draws_ok io sys \<and> io_event io = Ev_Gone"
proof -
  let ?free = "available (sv_port_mgr (sy_server sys))" and ?nodes = "sv_node_manager (sy_server sys)"
  have fin: "finite (sy_uuids sys)" by (rule uuids_finite [OF assms])
  then obtain u where u: "u \<notin> sy_uuids sys" using ex_new_if_finite [OF infinite_UNIV_listI] by blast
  have "\<exists>p. chosen_from ?free p"
  proof (cases "?free = {}")
    case True
    then show ?thesis by (intro exI [of _ None]) (simp add: chosen_from_def)
  next
    case False
    then obtain q where "q \<in> ?free" by blast
    then show ?thesis by (intro exI [of _ "Some q"]) (simp add: chosen_from_def)
  qed
  then obtain p where p: "chosen_from ?free p" ..
  have "finite (dom ?nodes)"
    using finite_subset [OF nodes_okD(4) [OF nodes_ok_reachable [OF assms]] fin] .
  from finite_distinct_list [OF this]
  obtain order where "set order = dom ?nodes" "distinct order" by auto
  then have "iteration_order ?nodes order" unfolding iteration_order_def by blast
  with u p show ?thesis
    by (intro exI [of _ "\<lparr>io_ok = True, io_sent = True, io_now = 0, io_uuid = u, io_choice = p,
      io_order = order, io_event = Ev_Gone, io_line = Io_Err\<rparr>"]) (simp add: draws_ok_def)
qed

lemma leaving_run_exists:
  assumes "sys_reachable cd lib cfg sys"
  shows "\<exists>sys'. leaving_run cd lib c n sys sys'"
proof (induction n)
  case 0
  show ?case by (blast intro: stay)
next
  case (Suc n)
  then obtain sys' where run: "leaving_run cd lib c n sys sys'" by blast
  from draws_exist [OF leaving_run_reachable [OF run assms]]
  obtain io where "draws_ok io sys'" "io_event io = Ev_Gone" by blast
  then have "leaving_run cd lib c (Suc n) sys (drawn (io_uuid io) (cli_step (al_rfc3339 lib) c io sys'))"
    using run by (intro own) (simp_all add: leaving_def)
  then show ?case by blast
qed

section \<open>Properties\<close>

text \<open>C16: every tunnel ends and leaves nothing behind: once its serving loop takes a leaving
  branch (the CLI hung up, or the dashboard closed the tunnel), the task is finished after
  at most 16 of its own steps, whatever runs in between; then it holds no port and no entry
  of the table is its own any more.\<close>

theorem leaving_task_ends:
  assumes "sys_reachable cd lib cfg sys" and "leaving_run cd lib c n sys sys'"
    and "sy_cli sys c = Some t" and "pc_rank (ct_pc t) \<le> n"
  shows "pc_rank (ct_pc t) \<le> 16 \<and> (\<exists>t'. sy_cli sys' c = Some t' \<and> ct_pc t' = K_Finished) \<and>
    holds sys' c = None \<and> (\<forall>i e. sv_active_tunnels (sy_server sys') i = Some e \<longrightarrow> te_close e \<noteq> c)"
proof -
  obtain t' where t': "sy_cli sys' c = Some t'" "pc_rank (ct_pc t') \<le> pc_rank (ct_pc t) - n"
    using leaving_run_rank [OF assms(2,3)] by blast
  with assms(4) have fin: "ct_pc t' = K_Finished" using pc_rank_0 [of "ct_pc t'"] by simp
  with t'(1) have none: "ctx_of sys' c = None" by (simp add: ctx_of_def)
  have "table_ok sys'"
    by (rule table_ok_reachable [OF leaving_run_reachable [OF assms(2,1)]])
  then have "te_close e \<noteq> c" if "sv_active_tunnels (sy_server sys') i = Some e" for i e
    using that none entry_owned_ctx [of sys' i e] by (auto simp: table_ok_def)
  with t'(1) fin none pc_rank_le show ?thesis by (simp add: holds_def)
qed

theorem leaving_task_ends_witness:
  "\<exists>sys'. leaving_run json_codec plain_lib 7 5 (sample_served plain_lib) sys' \<and>
     holds (sample_served plain_lib) 7 = Some 30001 \<and> holds sys' 7 = None"
proof -
  obtain sys' where run: "leaving_run json_codec plain_lib 7 5 (sample_served plain_lib) sys'"
    using leaving_run_exists [OF sample_served_reachable] by blast
  have "holds (sample_served plain_lib) 7 = Some 30001"
    by (simp add: holds_def ctx_of_def sample_served_def sample_ctx_def)
  moreover have "sy_cli (sample_served plain_lib) 7 =
      Some \<lparr>ct_register = sample_register, ct_pc = K_Serve sample_ctx\<rparr>"
    by (simp add: sample_served_def)
  from leaving_task_ends [OF sample_served_reachable run this] have "holds sys' 7 = None" by simp
  ultimately show ?thesis using run by blast
qed

end
