(* ===== verification/Node_Agent_Facts.thy ===== *)
theory Node_Agent_Facts
  imports Node_Agent
begin

text \<open>
  Invariants of the edge agent (\<open>Node_Agent\<close>): its handles and listeners, its table of
  pending visitors, and the refinement of the orders of the server.
\<close>

lemmas order_defs = apply_order_def node_open_tunnel_def node_close_tunnel_def abort_task_def

lemmas agent_defs = session_step_def serve_order_def teardown_def node_accept_def node_report_def
  drop_task_def set_accept_phase_def order_defs

section \<open>Handles and listeners\<close>

text \<open>A handle names a task of its own tunnel that is not aborted; new numbers are unused; two
  listeners never have the same port; outside of a session there are no handles.\<close>

definition handles_ok :: "agent \<Rightarrow> bool" where
  "handles_ok ag \<longleftrightarrow>
     (\<forall>i h. ag_tunnels ag i = Some h \<longrightarrow>
        (\<exists>t. ag_tasks ag h = Some t \<and> at_tunnel_id t = i \<and> \<not> at_aborted t)) \<and>
     (\<forall>h \<ge> ag_next ag. ag_tasks ag h = None) \<and>
     (\<forall>h g t s. ag_tasks ag h = Some t \<longrightarrow> ag_tasks ag g = Some s \<longrightarrow> at_port t = at_port s \<longrightarrow> h = g)"

lemma handle_task:
  assumes "handles_ok ag" and "ag_tunnels ag i = Some h"
  obtains t where "ag_tasks ag h = Some t" "at_tunnel_id t = i" "\<not> at_aborted t"
  using assms unfolding handles_ok_def by blast

lemma handle_unique:
  "handles_ok ag \<Longrightarrow> ag_tunnels ag i = Some h \<Longrightarrow> ag_tunnels ag j = Some h \<Longrightarrow> i = j"
  by (metis handle_task option.inject)

text \<open>Steps that keep id, port and the abort mark of every task keep the handles.\<close>

definition task_core :: "accept_task \<Rightarrow> string \<times> u16 \<times> bool" where
  "task_core t = (at_tunnel_id t, at_port t, at_aborted t)"

lemma handles_same:
  assumes "handles_ok ag" and "ag_next ag' = ag_next ag" and "ag_tunnels ag' = ag_tunnels ag"
    and "\<And>h. map_option task_core (ag_tasks ag' h) = map_option task_core (ag_tasks ag h)"
  shows "handles_ok ag'"
proof -
  have there: "\<exists>t'. ag_tasks ag' h = Some t' \<and> task_core t' = task_core t"
    if "ag_tasks ag h = Some t" for h t
    using assms(4) [of h] that by (cases "ag_tasks ag' h") auto
  have origin: "\<exists>t. ag_tasks ag h = Some t \<and> task_core t = task_core t'"
    if "ag_tasks ag' h = Some t'" for h t'
    using assms(4) [of h] that by (cases "ag_tasks ag h") auto
  have unused: "ag_tasks ag' h = None" if "ag_tasks ag h = None" for h
    using assms(4) [of h] that by simp
  show ?thesis
    unfolding handles_ok_def assms(2,3)
  proof (intro conjI allI impI)
    fix i h
    assume "ag_tunnels ag i = Some h"
    with assms(1) obtain t where "ag_tasks ag h = Some t" "at_tunnel_id t = i" "\<not> at_aborted t"
      by (rule handle_task)
    with there [of h t] show "\<exists>t. ag_tasks ag' h = Some t \<and> at_tunnel_id t = i \<and> \<not> at_aborted t"
      by (auto simp: task_core_def)
  next
    fix h
    assume "ag_next ag \<le> h"
    with assms(1) unused show "ag_tasks ag' h = None" by (simp add: handles_ok_def)
  next
    fix h g t s
    assume "ag_tasks ag' h = Some t" "ag_tasks ag' g = Some s" "at_port t = at_port s"
    with origin [of h t] origin [of g s] obtain t' s' where
      "ag_tasks ag h = Some t'" "ag_tasks ag g = Some s'" "at_port t' = at_port s'"
      by (auto simp: task_core_def)
    with assms(1) show "h = g" unfolding handles_ok_def by blast
  qed
qed

lemma handles_open:
  assumes "handles_ok ag" and "ok \<Longrightarrow> bind_free p ag"
  shows "handles_ok (node_open_tunnel i p ok ag)"
proof (cases ok)
  case True
  have old: "h \<noteq> ag_next ag" if "ag_tunnels ag j = Some h" for j h
    using assms(1) that unfolding handles_ok_def by (metis option.distinct(1) order_refl)
  have "at_port t \<noteq> p" if "ag_tasks ag h = Some t" for h t
    using assms(2) True that by (auto simp: bind_free_def ran_def)
  with assms(1) True old show ?thesis
    unfolding handles_ok_def node_open_tunnel_def by auto
qed (use assms(1) in \<open>simp add: node_open_tunnel_def\<close>)

lemma handles_close:
  assumes "handles_ok ag"
  shows "handles_ok (node_close_tunnel i ag)"
proof (cases "ag_tunnels ag i")
  case (Some h)
  then have "g \<noteq> h" if "ag_tunnels ag j = Some g" "j \<noteq> i" for j g
    using handle_unique [OF assms] that by blast
  with assms Some show ?thesis
    unfolding handles_ok_def node_close_tunnel_def abort_task_def by (auto split: if_splits)
qed (use assms in \<open>simp add: node_close_tunnel_def\<close>)

lemma handles_apply:
  assumes "handles_ok ag" and "\<And>ot. m = Some (Open_Tunnel ot) \<Longrightarrow> ok \<Longrightarrow> bind_free (ot_remote_port ot) ag"
  shows "handles_ok (apply_order m ok ag)"
  using assms handles_open handles_close
  by (auto simp: apply_order_def split: option.split message.split)

lemma handles_teardown:
  assumes "handles_ok ag"
  shows "handles_ok (teardown ag)"
  using assms unfolding handles_ok_def teardown_def by (auto split: if_splits)

lemma handles_pc [simp]: "handles_ok (ag\<lparr>ag_pc := pc\<rparr>) = handles_ok ag"
  "handles_ok (ag\<lparr>ag_sent := ms\<rparr>) = handles_ok ag"
  "handles_ok (ag\<lparr>ag_pending := rv\<rparr>) = handles_ok ag"
  by (simp_all add: handles_ok_def)

lemma handles_empty: "handles_ok ag \<Longrightarrow> handles_ok (ag\<lparr>ag_tunnels := Map.empty\<rparr>)"
  by (simp add: handles_ok_def)

lemma handles_phase [simp]:
  assumes "handles_ok ag"
  shows "handles_ok (set_accept_phase h ph ag)"
proof (rule handles_same [OF assms])
  fix g
  show "map_option task_core (ag_tasks (set_accept_phase h ph ag) g) = map_option task_core (ag_tasks ag g)"
    by (cases "ag_tasks ag h") (auto simp: set_accept_phase_def task_core_def)
qed (simp_all add: set_accept_phase_def)

lemma handles_drop:
  assumes "handles_ok ag" and "ag_tasks ag h = Some t" and "at_aborted t"
  shows "handles_ok (drop_task h ag)"
proof -
  have "g \<noteq> h" if "ag_tunnels ag i = Some g" for i g
    using assms that by (metis handle_task option.inject)
  with assms have "handles_ok (ag\<lparr>ag_tasks := (ag_tasks ag)(h := None)\<rparr>)"
    unfolding handles_ok_def by auto
  then show ?thesis
    by (auto simp: drop_task_def Let_def split: option.split accept_phase.split)
qed

lemma handles_session:
  assumes "handles_ok ag"
    and "\<And>p. ag_pc ag = S_Orders \<Longrightarrow> ok \<Longrightarrow> order_port cd line = Some p \<Longrightarrow> bind_free p ag"
  shows "handles_ok (session_step cd cfg ok line ag)"
proof (cases "ag_pc ag")
  case S_Orders
  have "handles_ok (apply_order (from_line cd l) ok ag)" if "line = Io_Ok (n, l)" for n l
    using assms S_Orders that by (intro handles_apply) (auto simp: order_port_def)
  with S_Orders assms(1) show ?thesis
    by (auto simp: session_step_def serve_order_def split: io_result.split)
qed (use assms(1) handles_teardown handles_empty in
    \<open>auto simp: session_step_def split: sum.split\<close>)

lemma handles_step: "agent_step cd cfg ag ag' \<Longrightarrow> handles_ok ag \<Longrightarrow> handles_ok ag'"
proof (induction rule: agent_step.induct)
  case (session ag ok line)
  then show ?case by (simp add: handles_session)
next
  case (report ag h t ok)
  then show ?case by (simp add: node_report_def split: accept_phase.split)
qed (simp_all add: node_accept_def handles_drop)

lemma handles_reachable: "agent_reachable cd cfg ag \<Longrightarrow> handles_ok ag"
proof (induction rule: agent_reachable.induct)
  case start
  show ?case by (simp add: handles_ok_def agent_new_def)
qed (rule handles_step)

section \<open>The table of pending visitors\<close>

definition reporting :: "agent \<Rightarrow> task \<rightharpoonup> socket \<times> string" where
  "reporting ag h = Option.bind (ag_tasks ag h)
     (\<lambda>t. case at_phase t of A_Report v c \<Rightarrow> Some (v, c) | A_Accept \<Rightarrow> None)"

definition agent_rv_ok :: "agent \<Rightarrow> bool" where
  "agent_rv_ok ag \<longleftrightarrow>
     rv_reachable True (ag_pending ag) \<and> announcing_ok (ag_pending ag) (reporting ag)"

lemma reporting_frame [simp]:
  "reporting (ag\<lparr>ag_pc := pc\<rparr>) = reporting ag"
  "reporting (ag\<lparr>ag_sent := ms\<rparr>) = reporting ag"
  "reporting (ag\<lparr>ag_pending := rv\<rparr>) = reporting ag"
  "reporting (ag\<lparr>ag_tunnels := hs\<rparr>) = reporting ag"
  by (simp_all add: reporting_def fun_eq_iff)

lemma reporting_abort [simp]: "reporting (abort_task h ag) = reporting ag"
  by (rule ext) (simp add: reporting_def abort_task_def bind_map_option comp_def)

lemma reporting_teardown [simp]: "reporting (teardown ag) = reporting ag"
  by (rule ext) (simp add: reporting_def teardown_def bind_map_option comp_def)

lemma reporting_phase:
  "ag_tasks ag h = Some t \<Longrightarrow> reporting (set_accept_phase h ph ag) =
     (reporting ag)(h := case ph of A_Report v c \<Rightarrow> Some (v, c) | A_Accept \<Rightarrow> None)"
  by (rule ext) (simp add: reporting_def set_accept_phase_def)

lemma pending_frame [simp]:
  "ag_pending (abort_task h ag) = ag_pending ag"
  "ag_pending (teardown ag) = ag_pending ag"
  "ag_pending (node_open_tunnel i p ok ag) = ag_pending ag"
  "ag_pending (node_close_tunnel i ag) = ag_pending ag"
  "ag_pending (set_accept_phase h ph ag) = ag_pending ag"
  by (simp_all add: abort_task_def teardown_def node_open_tunnel_def node_close_tunnel_def
      set_accept_phase_def split: option.split)

lemma reporting_open:
  assumes "handles_ok ag"
  shows "reporting (node_open_tunnel i p ok ag) = reporting ag"
proof -
  have "ag_tasks ag (ag_next ag) = None" using assms by (simp add: handles_ok_def)
  then show ?thesis by (intro ext) (simp add: reporting_def node_open_tunnel_def)
qed

lemma session_rv:
  assumes "handles_ok ag"
  shows "reporting (session_step cd cfg ok line ag) = reporting ag \<and>
    ag_pending (session_step cd cfg ok line ag) = ag_pending ag"
  using reporting_open [OF assms]
  by (simp add: session_step_def serve_order_def apply_order_def node_close_tunnel_def
      split: session_pc.split sum.split io_result.split prod.split option.split message.split)

lemma agent_rv_step:
  "agent_step cd cfg ag ag' \<Longrightarrow> handles_ok ag \<Longrightarrow> agent_rv_ok ag \<Longrightarrow> agent_rv_ok ag'"
proof (induction rule: agent_step.induct)
  case (session ag ok line)
  then show ?case using session_rv [of ag cd cfg ok line] by (simp add: agent_rv_ok_def)
next
  case (accept ag h t v conn_id)
  then have N: "announcing_ok (ag_pending ag) (reporting ag)" by (simp add: agent_rv_ok_def)
  have "reporting ag h = None" using accept by (simp add: reporting_def)
  from announcing_accept [OF N accept(3) this, of conn_id] accept show ?case
    by (auto simp: agent_rv_ok_def node_accept_def reporting_phase
        intro: rv_reachable.step rv_step.accept)
next
  case (report ag h t ok)
  show ?case
  proof (cases "at_phase t")
    case A_Accept
    with report show ?thesis by (simp add: node_report_def)
  next
    case (A_Report v c)
    have here: "reporting ag h = Some (v, c)" using report A_Report by (simp add: reporting_def)
    have N: "announcing_ok (ag_pending ag) (reporting ag)" using report by (simp add: agent_rv_ok_def)
    then obtain vs where v: "rv_visitors (ag_pending ag) v = Some vs" "vs_phase vs = V_Notifying"
      using here unfolding announcing_ok_def by blast
    let ?rv' = "if ok then rv_notified v (ag_pending ag) else rv_notify_failed v (ag_pending ag)"
    have "rv_visitors ?rv' w = rv_visitors (ag_pending ag) w" if "w \<noteq> v" for w
      using that v by (simp add: rv_notified_def rv_notify_failed_def set_phase_def remove_pending_def)
    from announcing_end [OF N here this]
    have "announcing_ok ?rv' ((reporting ag)(h := None))" by simp
    moreover have "rv_reachable True ?rv'"
      using report v by (auto simp: agent_rv_ok_def intro: rv_reachable.step rv_step.intros)
    ultimately show ?thesis
      using report A_Report
      by (cases ok) (simp_all add: agent_rv_ok_def node_report_def reporting_phase)
  qed
next
  case (drop ag h t)
  have upd: "reporting (ag\<lparr>ag_tasks := (ag_tasks ag)(h := None)\<rparr>) = (reporting ag)(h := None)"
    by (rule ext) (simp add: reporting_def)
  have N: "announcing_ok (ag_pending ag) (reporting ag)" using drop by (simp add: agent_rv_ok_def)
  show ?case
  proof (cases "at_phase t")
    case A_Accept
    then have "(reporting ag)(h := None) = reporting ag" using drop by (auto simp: reporting_def)
    with drop A_Accept upd show ?thesis by (simp add: agent_rv_ok_def drop_task_def Let_def)
  next
    case (A_Report v c)
    have here: "reporting ag h = Some (v, c)" using drop A_Report by (simp add: reporting_def)
    then obtain vs where v: "rv_visitors (ag_pending ag) v = Some vs" "vs_phase vs = V_Notifying"
      using N unfolding announcing_ok_def by blast
    have "announcing_ok (rv_abandon v (ag_pending ag)) ((reporting ag)(h := None))"
      by (rule announcing_end [OF N here]) (simp add: rv_abandon_def set_phase_other)
    moreover have "rv_reachable True (rv_abandon v (ag_pending ag))"
      using drop v by (auto simp: agent_rv_ok_def intro: rv_reachable.step rv_step.abandon)
    ultimately show ?thesis
      using drop A_Report upd by (simp add: agent_rv_ok_def drop_task_def Let_def)
  qed
next
  case (data op ag)
  then show ?case
    using same_ids_announcing [OF _ same_ids_op] op_reachable by (auto simp: agent_rv_ok_def)
next
  case (finish ag v)
  then obtain vs d where v: "rv_visitors (ag_pending ag) v = Some vs" "vs_phase vs = V_Proxying d"
    by (blast elim: visitor_inE)
  have "same_ids (ag_pending ag) (rv_finish v (ag_pending ag))"
    using v by (simp add: same_ids_def rv_finish_def set_phase_def)
  with finish v show ?case
    using same_ids_announcing [of "ag_pending ag" "reporting ag"]
    by (auto simp: agent_rv_ok_def intro: rv_reachable.step rv_step.finish)
qed

lemma agent_rv_reachable: "agent_reachable cd cfg ag \<Longrightarrow> agent_rv_ok ag"
proof (induction rule: agent_reachable.induct)
  case start
  have "reporting agent_new = Map.empty" by (rule ext) (simp add: reporting_def agent_new_def)
  then show ?case
    by (simp add: agent_rv_ok_def announcing_ok_def agent_new_def rv_reachable.start)
next
  case (step ag ag')
  then show ?case using agent_rv_step handles_reachable by blast
qed

section \<open>Listeners and orders\<close>

text \<open>The tunnels a session serves, with their ports, and what the orders mean for them.\<close>

definition listening :: "agent \<Rightarrow> string \<rightharpoonup> u16" where
  "listening ag i = Option.bind (ag_tunnels ag i) (\<lambda>h. map_option at_port (ag_tasks ag h))"

definition order_spec :: "message option \<times> bool \<Rightarrow> (string \<rightharpoonup> u16) \<Rightarrow> (string \<rightharpoonup> u16)" where
  "order_spec order l =
     (case order of (m, ok) \<Rightarrow>
        (case m of
           Some (Open_Tunnel ot) \<Rightarrow> if ok then l(ot_tunnel_id ot \<mapsto> ot_remote_port ot) else l
         | Some (Close_Tunnel ct) \<Rightarrow> l(ct_tunnel_id ct := None)
         | _ \<Rightarrow> l))"

lemma listening_open:
  assumes "handles_ok ag"
  shows "listening (node_open_tunnel i p ok ag) = (if ok then (listening ag)(i \<mapsto> p) else listening ag)"
proof -
  have "h \<noteq> ag_next ag" if "ag_tunnels ag j = Some h" for j h
    using handle_task [OF assms that] assms unfolding handles_ok_def
    by (metis option.distinct(1) order_refl)
  then have "listening (node_open_tunnel i p ok ag) j =
      (if ok then (listening ag)(i \<mapsto> p) else listening ag) j" for j
    by (cases "ag_tunnels ag j") (auto simp: listening_def node_open_tunnel_def)
  then show ?thesis by blast
qed

lemma listening_close:
  assumes "handles_ok ag"
  shows "listening (node_close_tunnel i ag) = (listening ag)(i := None)"
proof (cases "ag_tunnels ag i")
  case None
  then show ?thesis by (auto simp: listening_def node_close_tunnel_def fun_eq_iff)
next
  case (Some h)
  then have "g \<noteq> h" if "ag_tunnels ag j = Some g" "j \<noteq> i" for j g
    using handle_unique [OF assms] that by blast
  with Some have "listening (node_close_tunnel i ag) j = ((listening ag)(i := None)) j" for j
    by (cases "ag_tunnels ag j") (auto simp: listening_def node_close_tunnel_def abort_task_def)
  then show ?thesis by blast
qed

lemma listening_apply:
  "handles_ok ag \<Longrightarrow> listening (apply_order m ok ag) = order_spec (m, ok) (listening ag)"
  by (simp add: apply_order_def order_spec_def listening_open listening_close
      split: option.split message.split)

section \<open>No listener survives its tunnel\<close>

text \<open>The ids of the tunnels a node opened since it started, the latest first.\<close>

inductive agent_opened :: "codec \<Rightarrow> node_config \<Rightarrow> string list \<Rightarrow> agent \<Rightarrow> bool" for cd cfg where
  start: "agent_opened cd cfg [] agent_new"
| step: "agent_opened cd cfg ids ag \<Longrightarrow> agent_step cd cfg ag ag' \<Longrightarrow>
    agent_opened cd cfg
      (if ag_next ag' = ag_next ag then ids
       else at_tunnel_id (the (ag_tasks ag' (ag_next ag))) # ids) ag'"

definition live_ok :: "string list \<Rightarrow> agent \<Rightarrow> bool" where
  "live_ok ids ag \<longleftrightarrow> (\<forall>h t. ag_tasks ag h = Some t \<longrightarrow> at_tunnel_id t \<in> set ids \<and>
     (\<not> at_aborted t \<longrightarrow> ag_tunnels ag (at_tunnel_id t) = Some h))"

definition idle_ok :: "agent \<Rightarrow> bool" where
  "idle_ok ag \<longleftrightarrow> ag_pc ag = S_Orders \<or> (\<exists>e. ag_pc ag = S_Teardown e) \<or> ag_tunnels ag = Map.empty"

lemma live_same:
  assumes "live_ok ids ag" and "ag_tunnels ag' = ag_tunnels ag"
    and "\<And>h. map_option task_core (ag_tasks ag' h) = map_option task_core (ag_tasks ag h)"
  shows "live_ok ids ag'"
  unfolding live_ok_def
proof (intro allI impI)
  fix h t
  assume "ag_tasks ag' h = Some t"
  with assms(3) [of h] obtain s where s: "ag_tasks ag h = Some s" "task_core s = task_core t"
    by (cases "ag_tasks ag h") auto
  from assms(1) [unfolded live_ok_def, rule_format, OF s(1)] s(2) assms(2) show "at_tunnel_id t \<in> set ids \<and>
      (\<not> at_aborted t \<longrightarrow> ag_tunnels ag' (at_tunnel_id t) = Some h)"
    by (simp add: task_core_def)
qed

lemma live_open:
  assumes "live_ok ids ag" and "handles_ok ag" and "i \<notin> set ids"
  shows "live_ok (i # ids) (node_open_tunnel i p True ag)"
proof -
  have "at_tunnel_id t \<noteq> i" if "ag_tasks ag h = Some t" for h t
    using assms(1,3) that unfolding live_ok_def by blast
  with assms(1) show ?thesis unfolding live_ok_def node_open_tunnel_def by auto
qed

lemma live_close:
  assumes "live_ok ids ag"
  shows "live_ok ids (node_close_tunnel i ag)"
proof (cases "ag_tunnels ag i")
  case (Some h)
  have "at_aborted t" if "ag_tasks ag g = Some t" "at_tunnel_id t = i" "g \<noteq> h" for g t
    using assms(1) Some that unfolding live_ok_def by fastforce
  with assms(1) Some show ?thesis
    unfolding live_ok_def node_close_tunnel_def abort_task_def by (auto split: if_splits)
qed (use assms(1) in \<open>simp add: node_close_tunnel_def\<close>)

lemma live_teardown: "live_ok ids ag \<Longrightarrow> live_ok ids (teardown ag)"
  unfolding live_ok_def teardown_def by (auto simp: ran_def split: if_splits)

lemma live_pc [simp]:
  "live_ok ids (ag\<lparr>ag_pc := pc\<rparr>) = live_ok ids ag"
  "live_ok ids (ag\<lparr>ag_sent := ms\<rparr>) = live_ok ids ag"
  "live_ok ids (ag\<lparr>ag_pending := rv\<rparr>) = live_ok ids ag"
  by (simp_all add: live_ok_def)

lemma live_phase [simp]:
  assumes "live_ok ids ag"
  shows "live_ok ids (set_accept_phase h ph ag)"
proof (rule live_same [OF assms])
  fix g
  show "map_option task_core (ag_tasks (set_accept_phase h ph ag) g) = map_option task_core (ag_tasks ag g)"
    by (cases "ag_tasks ag h") (auto simp: set_accept_phase_def task_core_def)
qed (simp add: set_accept_phase_def)

lemma live_drop: "live_ok ids ag \<Longrightarrow> live_ok ids (drop_task h ag)"
  by (auto simp: live_ok_def drop_task_def Let_def split: option.split accept_phase.split)

lemma agent_frame [simp]:
  "ag_next (set_accept_phase h ph ag) = ag_next ag" "ag_next (teardown ag) = ag_next ag"
  "ag_next (drop_task h ag) = ag_next ag" "ag_next (node_close_tunnel i ag) = ag_next ag"
  "ag_tunnels (set_accept_phase h ph ag) = ag_tunnels ag" "ag_tunnels (drop_task h ag) = ag_tunnels ag"
  "ag_pc (set_accept_phase h ph ag) = ag_pc ag" "ag_pc (drop_task h ag) = ag_pc ag"
  "ag_pc (node_close_tunnel i ag) = ag_pc ag" "ag_pc (node_open_tunnel i p ok ag) = ag_pc ag"
  "ag_tunnels (teardown ag) = Map.empty"
  by (simp_all add: set_accept_phase_def teardown_def drop_task_def node_close_tunnel_def
      node_open_tunnel_def abort_task_def Let_def split: option.split accept_phase.split)

lemma idle_step: "agent_step cd cfg ag ag' \<Longrightarrow> idle_ok ag \<Longrightarrow> idle_ok ag'"
proof (induction rule: agent_step.induct)
  case (session ag ok line)
  then show ?case
    by (auto simp: idle_ok_def session_step_def serve_order_def apply_order_def
        split: session_pc.splits sum.splits io_result.splits prod.splits option.splits message.splits)
next
  case (report ag h t ok)
  then show ?case by (simp add: idle_ok_def node_report_def split: accept_phase.split)
qed (simp_all add: idle_ok_def node_accept_def)

text \<open>A step either opens a tunnel or keeps the account of the open ones.\<close>

lemma live_session:
  assumes "live_ok ids ag" and "handles_ok ag" and "idle_ok ag"
  shows "live_ok ids (session_step cd cfg ok line ag) \<and> ag_next (session_step cd cfg ok line ag) = ag_next ag \<or>
    (\<exists>i p. session_step cd cfg ok line ag = node_open_tunnel i p True ag)"
proof (cases "ag_pc ag")
  case S_Orders
  have "live_ok ids (apply_order m ok ag) \<and> ag_next (apply_order m ok ag) = ag_next ag \<or>
      (\<exists>i p. apply_order m ok ag = node_open_tunnel i p True ag)" for m
    using assms(1) live_close [OF assms(1)]
    by (cases ok) (auto simp: apply_order_def node_open_tunnel_def split: option.split message.split)
  with S_Orders assms(1) show ?thesis
    by (auto simp: session_step_def serve_order_def split: io_result.split)
next
  case S_Verdict
  then have "ag_tunnels ag = Map.empty" using assms(3) by (simp add: idle_ok_def)
  then have "ag\<lparr>ag_pc := S_Orders, ag_tunnels := Map.empty\<rparr> = ag\<lparr>ag_pc := S_Orders\<rparr>"
    by (metis agent.surjective agent.update_convs(1,3))
  with S_Verdict assms(1) show ?thesis by (simp add: session_step_def split: sum.split)
qed (use assms(1) live_teardown in \<open>simp_all add: session_step_def\<close>)

lemma agent_opened_reachable: "agent_opened cd cfg ids ag \<Longrightarrow> agent_reachable cd cfg ag"
  by (induction rule: agent_opened.induct) (auto intro: agent_reachable.intros)

lemma idle_reachable: "agent_reachable cd cfg ag \<Longrightarrow> idle_ok ag"
proof (induction rule: agent_reachable.induct)
  case start
  show ?case by (simp add: idle_ok_def agent_new_def)
qed (rule idle_step)

lemma live_step:
  assumes "agent_step cd cfg ag ag'" and "live_ok ids ag" and "handles_ok ag" and "idle_ok ag"
  shows "live_ok ids ag' \<and> ag_next ag' = ag_next ag \<or>
    (\<exists>i p. ag' = node_open_tunnel i p True ag)"
  using assms
proof (cases rule: agent_step.cases)
  case (session ok line)
  then show ?thesis using live_session [OF assms(2-4)] by blast
next
  case (report h t ok)
  then show ?thesis using assms(2) by (simp add: node_report_def split: accept_phase.split)
next
  case (drop h t)
  then show ?thesis using live_drop [OF assms(2)] by simp
qed (use assms(2) in \<open>simp_all add: node_accept_def\<close>)

lemma live_opened: "agent_opened cd cfg ids ag \<Longrightarrow> distinct ids \<Longrightarrow> live_ok ids ag"
proof (induction rule: agent_opened.induct)
  case start
  show ?case by (simp add: live_ok_def agent_new_def)
next
  case (step ids ag ag')
  have r: "agent_reachable cd cfg ag" by (rule agent_opened_reachable [OF step.hyps(1)])
  have d: "distinct ids" using step.prems by (auto split: if_splits)
  from live_step [OF step.hyps(2) step.IH [OF d] handles_reachable [OF r] idle_reachable [OF r]]
  show ?case
  proof
    assume "live_ok ids ag' \<and> ag_next ag' = ag_next ag"
    then show ?thesis by simp
  next
    assume "\<exists>i p. ag' = node_open_tunnel i p True ag"
    then obtain i p where "ag' = node_open_tunnel i p True ag" by blast
    with step.prems live_open [OF step.IH [OF d] handles_reachable [OF r], of i p] show ?thesis
      by (simp add: node_open_tunnel_def)
  qed
qed

end
