(* ===== verification/Node_Agent_Properties.thy ===== *)
theory Node_Agent_Properties
  imports Node_Agent_Facts Json_Reference
begin

text \<open>
  What the edge agent (\<open>Node_Agent\<close>) guarantees, and the two hazards of aborting its tasks,
  with a sample session: the node registers, opens a tunnel, accepts a visitor, and is told
  to close the tunnel while it reports the visitor.
\<close>

section \<open>A sample session\<close>

definition sample_node :: node_config where
  "sample_node = \<lparr>nf_server_addr = ''s:7000'', nf_token = ''t'', nf_name = ''edge'',
     nf_data_port = 7002, nf_data_bind = ''0.0.0.0:7002''\<rparr>"

definition sample_line :: "message \<Rightarrow> string" where
  "sample_line m = (case to_line json_codec m of Some l \<Rightarrow> l | None \<Rightarrow> [])"

lemma sample_line:
  assumes "wf_message m"
  shows "from_line json_codec (sample_line m) = Some m"
proof -
  obtain line where "to_line json_codec m = Some (line @ [newline])"
    "from_line json_codec (line @ [newline]) = Some m"
    using sent_line [OF json.wire_codec_axioms assms] .
  then show ?thesis by (simp add: sample_line_def)
qed

definition order_open :: message where
  "order_open = Open_Tunnel \<lparr>ot_tunnel_id = ''i'', ot_remote_port = 30001\<rparr>"

definition order_close :: message where
  "order_close = Close_Tunnel \<lparr>ct_tunnel_id = ''i''\<rparr>"

lemma sample_lines [simp]:
  "from_line json_codec (sample_line (Node_Registered \<lparr>nr_node_id = ''n''\<rparr>)) =
     Some (Node_Registered \<lparr>nr_node_id = ''n''\<rparr>)"
  "from_line json_codec (sample_line order_open) = Some order_open"
  "from_line json_codec (sample_line order_close) = Some order_close"
  by (simp_all add: sample_line wf_message_def valid_utf8_ascii order_open_def order_close_def port_json_def)

definition sample_agent ::
    "session_pc \<Rightarrow> (string \<rightharpoonup> task) \<Rightarrow> (task \<rightharpoonup> accept_task) \<Rightarrow> task \<Rightarrow> rendezvous \<Rightarrow> agent" where
  "sample_agent pc hs ts n rv = \<lparr>ag_pc = pc, ag_pending = rv, ag_tunnels = hs, ag_tasks = ts,
     ag_next = n, ag_sent = [register_frame sample_node]\<rparr>"

abbreviation sample_task :: "accept_phase \<Rightarrow> bool \<Rightarrow> accept_task" where
  "sample_task ph ab \<equiv> \<lparr>at_tunnel_id = ''i'', at_port = 30001, at_phase = ph, at_aborted = ab\<rparr>"

definition agent_opened_one :: agent where
  "agent_opened_one = sample_agent S_Orders [''i'' \<mapsto> 0] [0 \<mapsto> sample_task A_Accept False] 1 rv_new"

definition agent_reporting :: agent where
  "agent_reporting = sample_agent S_Orders [''i'' \<mapsto> 0] [0 \<mapsto> sample_task (A_Report 2 ''k'') False] 1
     (rv_accept 2 ''k'' rv_new)"

definition agent_closing :: agent where
  "agent_closing = sample_agent S_Orders Map.empty [0 \<mapsto> sample_task (A_Report 2 ''k'') True] 1
     (rv_accept 2 ''k'' rv_new)"

definition agent_leaked :: agent where
  "agent_leaked = sample_agent S_Orders Map.empty Map.empty 1 (rv_abandon 2 (rv_accept 2 ''k'' rv_new))"

lemma sample_session:
  assumes "agent_opened json_codec sample_node ids ag"
    and "\<And>p. ag_pc ag = S_Orders \<Longrightarrow> order_port json_codec line = Some p \<Longrightarrow> bind_free p ag"
    and "session_step json_codec sample_node True line ag = ag'" and "ag_next ag' = ag_next ag"
  shows "agent_opened json_codec sample_node ids ag'"
  using agent_opened.step [OF assms(1) agent_step.session [of ag True json_codec line sample_node]]
    assms(2-4) by simp

lemma sample_registered: "agent_opened json_codec sample_node [] (sample_agent S_Orders Map.empty Map.empty 0 rv_new)"
proof -
  note step = sample_session [where line = "Io_Ok (1, sample_line (Node_Registered \<lparr>nr_node_id = ''n''\<rparr>))"]
  have "agent_opened json_codec sample_node [] (agent_new\<lparr>ag_pc := S_Register\<rparr>)"
    by (rule step [OF agent_opened.start]) (simp_all add: agent_new_def session_step_def)
  then have "agent_opened json_codec sample_node [] (sample_agent S_Verdict Map.empty Map.empty 0 rv_new)"
    by (rule step) (simp_all add: agent_new_def session_step_def sample_agent_def)
  then show ?thesis
    by (rule step) (simp_all add: session_step_def sample_agent_def verdict_def)
qed

lemma sample_opened: "agent_opened json_codec sample_node [''i''] agent_opened_one"
proof -
  let ?ag = "sample_agent S_Orders Map.empty Map.empty 0 rv_new"
  have "agent_step json_codec sample_node ?ag
      (session_step json_codec sample_node True (Io_Ok (1, sample_line order_open)) ?ag)"
    by (rule agent_step.session) (simp add: bind_free_def sample_agent_def)
  moreover have "session_step json_codec sample_node True (Io_Ok (1, sample_line order_open)) ?ag =
      agent_opened_one"
    by (simp add: session_step_def serve_order_def apply_order_def order_open_def
        node_open_tunnel_def sample_agent_def agent_opened_one_def sample_line [of order_open, unfolded order_open_def] wf_message_def valid_utf8_ascii port_json_def)
  ultimately have "agent_step json_codec sample_node ?ag agent_opened_one" by simp
  from agent_opened.step [OF sample_registered this] show ?thesis
    by (simp add: agent_opened_one_def sample_agent_def)
qed

lemma sample_reporting: "agent_opened json_codec sample_node [''i''] agent_reporting"
proof -
  have "agent_step json_codec sample_node agent_opened_one (node_accept 0 2 ''k'' agent_opened_one)"
    by (rule agent_step.accept) (simp add: agent_opened_one_def sample_agent_def rv_new_def id_used_def)+
  moreover have "node_accept 0 2 ''k'' agent_opened_one = agent_reporting"
    by (simp add: node_accept_def set_accept_phase_def agent_opened_one_def agent_reporting_def sample_agent_def)
  ultimately have "agent_step json_codec sample_node agent_opened_one agent_reporting" by simp
  from agent_opened.step [OF sample_opened this] show ?thesis
    by (simp add: agent_reporting_def agent_opened_one_def sample_agent_def)
qed

lemma sample_closing: "agent_opened json_codec sample_node [''i''] agent_closing"
  by (rule sample_session [OF sample_reporting, where line = "Io_Ok (1, sample_line order_close)"])
    (simp_all add: order_port_def order_close_def session_step_def serve_order_def apply_order_def
      node_close_tunnel_def abort_task_def agent_reporting_def agent_closing_def sample_agent_def
      sample_line [of order_close, unfolded order_close_def] wf_message_def valid_utf8_ascii)

lemma sample_leaked: "agent_opened json_codec sample_node [''i''] agent_leaked"
proof -
  have "agent_step json_codec sample_node agent_closing (drop_task 0 agent_closing)"
    by (rule agent_step.drop) (simp add: agent_closing_def sample_agent_def)+
  moreover have "drop_task 0 agent_closing = agent_leaked"
    by (simp add: drop_task_def agent_closing_def agent_leaked_def sample_agent_def Let_def)
  ultimately have "agent_step json_codec sample_node agent_closing agent_leaked" by simp
  from agent_opened.step [OF sample_closing this] show ?thesis
    by (simp add: agent_closing_def agent_leaked_def sample_agent_def)
qed

section \<open>Properties\<close>

text \<open>C20: a node implements the rendezvous protocol too, with aborts: in every reachable state,
  over any number of sessions, its table of pending visitors is one the protocol reaches, so
  that no visitor is spliced to a foreign data connection and no sender is lost.\<close>

theorem node_rendezvous:
  assumes "agent_reachable cd cfg ag"
  shows "rv_reachable True (ag_pending ag)"
  using agent_rv_reachable [OF assms] by (simp add: agent_rv_ok_def)

theorem node_rendezvous_witness: "rv_reachable True (ag_pending agent_reporting)"
  by (rule node_rendezvous [OF agent_opened_reachable [OF sample_reporting]])

text \<open>C18: the node obeys its orders: a turn of the order loop changes the tunnels it serves
  exactly as the decoded order says, an open (if the bind succeeds) adds the tunnel with its
  port, a close removes that tunnel and no other, any other line changes nothing.\<close>

theorem orders_refine:
  assumes "agent_reachable cd cfg ag" and "ag_pc ag = S_Orders" and "0 < n"
  shows "listening (session_step cd cfg ok (Io_Ok (n, l)) ag) =
    order_spec (from_line cd l, ok) (listening ag)"
  using listening_apply [OF handles_reachable [OF assms(1)]] assms(2,3)
  by (simp add: session_step_def serve_order_def)

theorem orders_refine_witness:
  "listening (session_step json_codec sample_node True (Io_Ok (1, sample_line order_close))
     agent_reporting) = Map.empty"
proof -
  have "ag_pc agent_reporting = S_Orders" by (simp add: agent_reporting_def sample_agent_def)
  moreover have "listening agent_reporting = [''i'' \<mapsto> 30001]"
    by (rule ext) (simp add: listening_def agent_reporting_def sample_agent_def)
  ultimately show ?thesis
    using orders_refine [OF agent_opened_reachable [OF sample_reporting], of 1 True "sample_line order_close"]
    by (simp add: order_spec_def order_close_def
        sample_line [of order_close, unfolded order_close_def] wf_message_def valid_utf8_ascii)
qed

text \<open>C19: as long as the server never reuses a tunnel id, the listeners of a node are exactly
  those of the tunnels it serves, and between two sessions there is none: what is left is
  already aborted.\<close>

theorem live_listeners_exact:
  assumes "agent_opened cd cfg ids ag" and "distinct ids"
  shows "{(at_tunnel_id t, at_port t) | h t. ag_tasks ag h = Some t \<and> \<not> at_aborted t} =
      {(i, p). listening ag i = Some p} \<and>
    (\<forall>e. ag_pc ag = S_Sleep e \<longrightarrow> (\<forall>t \<in> ran (ag_tasks ag). at_aborted t))"
proof -
  have L: "live_ok ids ag" by (rule live_opened [OF assms])
  have H: "handles_ok ag" and I: "idle_ok ag"
    using handles_reachable idle_reachable agent_opened_reachable [OF assms(1)] by blast+
  have "(i, p) \<in> {(i, p). listening ag i = Some p}"
    if "ag_tasks ag h = Some t" "\<not> at_aborted t" "i = at_tunnel_id t" "p = at_port t" for i p h t
    using L that unfolding live_ok_def listening_def by auto
  moreover have "\<exists>h t. ag_tasks ag h = Some t \<and> \<not> at_aborted t \<and> i = at_tunnel_id t \<and> p = at_port t"
    if l: "listening ag i = Some p" for i p
  proof -
    from l obtain h where h: "ag_tunnels ag i = Some h"
      by (cases "ag_tunnels ag i") (simp_all add: listening_def)
    from handle_task [OF H h] obtain t where "ag_tasks ag h = Some t" "at_tunnel_id t = i"
      "\<not> at_aborted t" .
    with l h show ?thesis by (auto simp: listening_def)
  qed
  moreover have "at_aborted t" if "ag_pc ag = S_Sleep e" "ag_tasks ag h = Some t" for e h t
    using L I that unfolding live_ok_def idle_ok_def by fastforce
  ultimately show ?thesis by (fastforce simp: ran_def)
qed

theorem live_listeners_exact_witness:
  "{(at_tunnel_id t, at_port t) | h t. ag_tasks agent_reporting h = Some t \<and> \<not> at_aborted t} =
     {(i, p). listening agent_reporting i = Some p}"
  using live_listeners_exact [OF sample_reporting] by simp

text \<open>A closed tunnel's port is not free yet: after the node has obeyed a close order the
  listener still exists, until the runtime drops the aborted task, so that an open order
  for the same port that follows at once cannot bind it. The server, which has taken the
  port back when it sent the close order, is not told.\<close>

lemma closed_port_lingers:
  assumes "agent_reachable cd cfg ag" and "ag_pc ag = S_Orders" and "0 < n"
    and "from_line cd l = Some (Close_Tunnel \<lparr>ct_tunnel_id = i\<rparr>)" and "listening ag i = Some p"
  shows "listening (session_step cd cfg ok (Io_Ok (n, l)) ag) i = None \<and>
    \<not> bind_free p (session_step cd cfg ok (Io_Ok (n, l)) ag)"
proof -
  have H: "handles_ok ag" by (rule handles_reachable [OF assms(1)])
  obtain h where h: "ag_tunnels ag i = Some h"
    using assms(5) by (cases "ag_tunnels ag i") (simp_all add: listening_def)
  from handle_task [OF H h] obtain t where t: "ag_tasks ag h = Some t" .
  have step: "session_step cd cfg ok (Io_Ok (n, l)) ag = node_close_tunnel i ag"
    using assms(2-4) by (simp add: session_step_def serve_order_def apply_order_def)
  have "at_port t = p" using assms(5) h t by (simp add: listening_def)
  moreover have "ag_tasks (node_close_tunnel i ag) h = Some (t\<lparr>at_aborted := True\<rparr>)"
    using h t by (simp add: node_close_tunnel_def abort_task_def)
  ultimately have "\<not> bind_free p (node_close_tunnel i ag)"
    unfolding bind_free_def by (force simp: ran_def)
  then show ?thesis using listening_close [OF H, of i] step by simp
qed

lemma closed_port_lingers_sample:
  "\<not> bind_free 30001 (session_step json_codec sample_node True (Io_Ok (1, sample_line order_close))
     agent_reporting)"
proof -
  have "ag_pc agent_reporting = S_Orders" "listening agent_reporting ''i'' = Some 30001"
    by (simp_all add: listening_def agent_reporting_def sample_agent_def)
  with closed_port_lingers [OF agent_opened_reachable [OF sample_reporting], of 1 "sample_line order_close" "''i''" 30001 True]
  show ?thesis
    by (simp add: order_close_def sample_line [of order_close, unfolded order_close_def]
        wf_message_def valid_utf8_ascii)
qed

text \<open>What a step of the node does to its table of pending visitors is nothing, or a step of
  the protocol.\<close>

lemma agent_moves:
  assumes "agent_step cd cfg ag ag'" and "agent_reachable cd cfg ag"
  shows "ag_pending ag' = ag_pending ag \<or> rv_step True (ag_pending ag) (ag_pending ag')"
  using assms
proof (induction rule: agent_step.induct)
  case (session ag ok line)
  then show ?case using session_rv [OF handles_reachable] by blast
next
  case (accept ag h t v conn_id)
  then show ?case by (simp add: node_accept_def rv_step.accept)
next
  case (report ag h t ok)
  then have N: "announcing_ok (ag_pending ag) (reporting ag)"
    using agent_rv_reachable by (simp add: agent_rv_ok_def)
  show ?case
  proof (cases "at_phase t")
    case (A_Report v c)
    then have "reporting ag h = Some (v, c)" using report by (simp add: reporting_def)
    with N obtain vs where "rv_visitors (ag_pending ag) v = Some vs" "vs_phase vs = V_Notifying"
      unfolding announcing_ok_def by blast
    with report A_Report show ?thesis
      by (cases ok) (simp_all add: node_report_def rv_step.notified rv_step.notify_failed)
  qed (use report in \<open>simp add: node_report_def\<close>)
next
  case (drop ag h t)
  then have N: "announcing_ok (ag_pending ag) (reporting ag)"
    using agent_rv_reachable by (simp add: agent_rv_ok_def)
  show ?case
  proof (cases "at_phase t")
    case (A_Report v c)
    then have "reporting ag h = Some (v, c)" using drop by (simp add: reporting_def)
    with N obtain vs where "rv_visitors (ag_pending ag) v = Some vs" "vs_phase vs = V_Notifying"
      unfolding announcing_ok_def by blast
    with drop A_Report show ?thesis by (simp add: drop_task_def Let_def rv_step.abandon)
  qed (use drop in \<open>simp add: drop_task_def\<close>)
next
  case (data op ag)
  then show ?case by (simp add: op_step)
next
  case (finish ag v)
  then show ?case by (auto elim!: visitor_inE intro: rv_step.finish)
qed

lemma abandoned_kept:
  assumes "rv_step aborts rv rv'" and "rv_inv rv" and "rv_pending rv c = Some v"
    and "rv_visitors rv v = Some vs" and "vs_phase vs = V_Abandoned"
  shows "rv_pending rv' c = Some v \<and> rv_visitors rv' v = Some vs \<or>
    (\<exists>d. rv_handlers rv' d = Some (H_Holding c v))"
proof -
  have P: "pending_ok rv" and H: "holding_ok rv" and D: "ids_distinct rv"
    using assms(2) by (simp_all add: rv_inv_def)
  have id: "vs_conn_id vs = c" using P assms(3,4) by (metis pending_visitor option.inject)
  then have other: "vs_conn_id ws \<noteq> c" if "rv_visitors rv w = Some ws" "w \<noteq> v" for w ws
    using D assms(4) that unfolding ids_distinct_def by metis
  have unused: "u \<noteq> c" if "\<not> id_used rv u" for u
    using that assms(4) id unfolding id_used_def by blast
  from assms(1) show ?thesis
  proof cases
    case (accept w u)
    with assms(3,4) unused show ?thesis by (auto simp: rv_accept_def)
  next
    case (data_frame d frame)
    show ?thesis
    proof (cases rule: data_frame_cases [of d frame rv])
      case (taken u w)
      show ?thesis
      proof (cases "u = c")
        case True
        with taken assms(3) data_frame show ?thesis by auto
      next
        case False
        with taken assms(3,4) data_frame show ?thesis by simp
      qed
    qed (use data_frame assms(3,4) in simp)
  next
    case (data_send d u w)
    then have "w \<noteq> v" using pending_unheld [OF P assms(3)] by blast
    with data_send assms(3,4) show ?thesis
      by (cases rule: data_send_cases [OF data_send(2) H]) auto
  qed (use assms(3-5) other in \<open>auto simp: rv_defs\<close>)
qed

text \<open>The abort of a tunnel's task leaks the visitor it was reporting: no timeout runs for
  it, and its entry stays in the node's table through every step until a data connection
  names its id (which the server may never have heard of).\<close>

lemma abandoned_entry_stays:
  assumes "agent_reachable cd cfg ag" and "agent_step cd cfg ag ag'"
    and "rv_pending (ag_pending ag) c = Some v" and "rv_visitors (ag_pending ag) v = Some vs"
    and "vs_phase vs = V_Abandoned"
  shows "rv_pending (ag_pending ag') c = Some v \<and> rv_visitors (ag_pending ag') v = Some vs \<or>
    (\<exists>d. rv_handlers (ag_pending ag') d = Some (H_Holding c v))"
proof -
  have "rv_inv (ag_pending ag)"
    using agent_rv_reachable [OF assms(1)] rv_reachable_inv [of True]
    by (simp add: agent_rv_ok_def)
  with agent_moves [OF assms(2,1)] abandoned_kept assms(3-5) show ?thesis by metis
qed

end
