(* ===== verification/Mesh_Agreement.thy ===== *)
theory Mesh_Agreement
  imports Control_Orders Node_Agent_Properties
begin

text \<open>
  Server and node together (\<open>Control_Orders\<close>, \<open>Node_Agent\<close>): a session of the node is handed the
  frames that the server has sent on its connection, and the tunnels it listens for are
  compared with the table of the server.
\<close>

section \<open>A session of the node\<close>

text \<open>What a node does beside reading orders.\<close>

inductive agent_works :: "codec \<Rightarrow> agent \<Rightarrow> agent \<Rightarrow> bool" for cd where
  accept: "ag_tasks ag h = Some t \<Longrightarrow> at_phase t = A_Accept \<Longrightarrow>
    rv_visitors (ag_pending ag) v = None \<Longrightarrow> \<not> id_used (ag_pending ag) conn_id \<Longrightarrow>
    agent_works cd ag (node_accept h v conn_id ag)"
| report: "ag_tasks ag h = Some t \<Longrightarrow> agent_works cd ag (node_report h ok ag)"
| drop: "ag_tasks ag h = Some t \<Longrightarrow> at_aborted t \<Longrightarrow> agent_works cd ag (drop_task h ag)"
| data: "op_enabled op (ag_pending ag) \<Longrightarrow>
    agent_works cd ag (ag\<lparr>ag_pending := op_apply cd op (ag_pending ag)\<rparr>)"
| finish: "visitor_in (ag_pending ag) v (\<lambda>vs. \<exists>d. vs_phase vs = V_Proxying d) \<Longrightarrow>
    agent_works cd ag (ag\<lparr>ag_pending := rv_finish v (ag_pending ag)\<rparr>)"

text \<open>A session that has been acknowledged and has obeyed the given frames since, each with the
  outcome of the bind if it was an open.\<close>

inductive agent_obeyed :: "codec \<Rightarrow> node_config \<Rightarrow> (message \<times> bool) list \<Rightarrow> agent \<Rightarrow> bool"
  for cd cfg where
  acknowledged: "agent_reachable cd cfg ag \<Longrightarrow> ag_pc ag = S_Verdict \<Longrightarrow>
    from_line cd l = Some (Node_Registered nr) \<Longrightarrow>
    agent_obeyed cd cfg [] (session_step cd cfg ok (Io_Ok (n, l)) ag)"
| order: "agent_obeyed cd cfg os ag \<Longrightarrow> 0 < n \<Longrightarrow> from_line cd l = Some m \<Longrightarrow>
    (\<And>p. ok \<Longrightarrow> order_port cd (Io_Ok (n, l)) = Some p \<Longrightarrow> bind_free p ag) \<Longrightarrow>
    agent_obeyed cd cfg (os @ [(m, ok)]) (session_step cd cfg ok (Io_Ok (n, l)) ag)"
| work: "agent_obeyed cd cfg os ag \<Longrightarrow> agent_works cd ag ag' \<Longrightarrow> agent_obeyed cd cfg os ag'"

lemma agent_works_step: "agent_works cd ag ag' \<Longrightarrow> agent_step cd cfg ag ag'"
  by (induction rule: agent_works.induct) (auto intro: agent_step.intros)

lemma listening_phase: "listening (set_accept_phase h ph ag) = listening ag"
proof
  fix i
  show "listening (set_accept_phase h ph ag) i = listening ag i"
    by (cases "ag_tasks ag h"; cases "ag_tunnels ag i")
      (auto simp: listening_def set_accept_phase_def)
qed

lemma listening_frame [simp]:
  "listening (ag\<lparr>ag_pending := rv\<rparr>) = listening ag" "listening (ag\<lparr>ag_sent := ms\<rparr>) = listening ag"
  "listening (ag\<lparr>ag_pc := pc\<rparr>) = listening ag"
  by (simp_all add: listening_def fun_eq_iff)

lemma listening_drop:
  assumes "handles_ok ag" and "ag_tasks ag h = Some t" and "at_aborted t"
  shows "listening (drop_task h ag) = listening ag"
proof
  fix i
  have "g \<noteq> h" if "ag_tunnels ag i = Some g" for g
    using assms that by (metis handle_task option.inject)
  then show "listening (drop_task h ag) i = listening ag i"
    by (cases "ag_tunnels ag i")
      (auto simp: listening_def drop_task_def Let_def split: option.split accept_phase.split)
qed

lemma works_listening:
  assumes "agent_works cd ag ag'" and "handles_ok ag"
  shows "listening ag' = listening ag \<and> ag_pc ag' = ag_pc ag"
  using assms
proof (induction rule: agent_works.induct)
  case (accept ag h t v conn_id)
  then show ?case by (simp add: node_accept_def listening_phase)
next
  case (report ag h t ok)
  then show ?case by (simp add: node_report_def listening_phase split: accept_phase.split)
next
  case (drop ag h t)
  then show ?case using listening_drop by simp
qed simp_all

text \<open>What the orders amount to.\<close>

definition obey :: "message \<times> bool \<Rightarrow> (string \<rightharpoonup> u16) \<Rightarrow> (string \<rightharpoonup> u16)" where
  "obey order = order_spec (Some (fst order), snd order)"

lemma session_obeys:
  assumes "agent_obeyed cd cfg os ag"
  shows "agent_reachable cd cfg ag \<and> ag_pc ag = S_Orders \<and> listening ag = fold obey os Map.empty"
  using assms
proof (induction rule: agent_obeyed.induct)
  case (acknowledged ag l nr ok n)
  from acknowledged(2) have "agent_step cd cfg ag (session_step cd cfg ok (Io_Ok (n, l)) ag)"
    by (intro agent_step.session) simp
  with acknowledged show ?case
    by (auto intro: agent_reachable.step simp: session_step_def verdict_def listening_def fun_eq_iff)
next
  case (order os ag n l m ok)
  then have "agent_step cd cfg ag (session_step cd cfg ok (Io_Ok (n, l)) ag)"
    by (intro agent_step.session) blast
  moreover have "session_step cd cfg ok (Io_Ok (n, l)) ag = apply_order (Some m) ok ag"
    using order by (simp add: session_step_def serve_order_def)
  moreover have "ag_pc (apply_order (Some m) ok ag) = ag_pc ag"
    by (simp add: apply_order_def split: message.split)
  ultimately show ?case
    using order.IH listening_apply handles_reachable [of cd cfg ag]
    by (auto intro: agent_reachable.step simp: obey_def)
next
  case (work os ag ag')
  then show ?case
    using works_listening [OF work.hyps(2) handles_reachable [of cd cfg ag]] agent_works_step
    by (auto intro: agent_reachable.step)
qed

text \<open>Only the orders for a tunnel matter for it.\<close>

lemma obey_for:
  assumes "\<not> order_for i (fst order)"
  shows "obey order l i = l i"
  using assms by (cases "fst order") (auto simp: obey_def order_spec_def)

lemma obey_at:
  assumes "l i = l' i"
  shows "obey order l i = obey order l' i"
  using assms by (cases "fst order") (auto simp: obey_def order_spec_def)

lemma fold_obey_for:
  assumes "l i = l' i"
  shows "fold obey os l i = fold obey (filter (order_for i \<circ> fst) os) l' i"
  using assms
proof (induction os arbitrary: l l')
  case (Cons order os)
  show ?case
  proof (cases "order_for i (fst order)")
    case True
    have "obey order l i = obey order l' i" by (rule obey_at) (rule Cons.prems)
    then have "fold obey os (obey order l) i = fold obey (filter (order_for i \<circ> fst) os) (obey order l') i"
      by (rule Cons.IH)
    with True show ?thesis by (simp add: comp_def)
  next
    case False
    with Cons.prems obey_for have "obey order l i = l' i" by simp
    then have "fold obey os (obey order l) i = fold obey (filter (order_for i \<circ> fst) os) l' i"
      by (rule Cons.IH)
    with False show ?thesis by (simp add: comp_def)
  qed
qed simp

lemma obey_simps [simp]:
  "obey (open_order i p, ok) l = (if ok then l(i \<mapsto> p) else l)" "obey (close_order i, ok) l = l(i := None)"
  by (simp_all add: obey_def order_spec_def open_order_def close_order_def)

text \<open>The frames obeyed begin those that were sent; the orders for one tunnel do, too.\<close>

lemma obeyed_for:
  assumes "sy_sent sys d = Node_Registered nr # map fst os @ rest"
  shows "orders sys d i = map fst (filter (order_for i \<circ> fst) os) @ filter (order_for i) rest"
  by (simp add: orders_def assms filter_map)

lemma obeyed_listens:
  assumes "orders_ok sys" and "sy_sent sys d = Node_Registered nr # map fst os @ rest"
    and "fold obey os Map.empty i = Some p"
  shows "orders sys d i \<noteq> [] \<and> hd (orders sys d i) = open_order i p"
proof -
  let ?os = "filter (order_for i \<circ> fst) os"
  have f: "fold obey ?os Map.empty i = Some p"
    using assms(3) fold_obey_for [of Map.empty i Map.empty os] by simp
  then have "?os \<noteq> []" by (cases ?os) simp_all
  then obtain a b os' where os: "?os = (a, b) # os'" by (metis neq_Nil_conv prod.exhaust)
  have o: "orders sys d i = a # map fst os' @ filter (order_for i) rest"
    using obeyed_for [OF assms(2), of i] by (simp only: os list.map append_Cons fst_conv)
  with orders_okD(1) [OF assms(1), of i d] obtain q where a: "a = open_order i q"
    and os': "map fst os' = [] \<or> map fst os' = [close_order i]"
    by (auto simp: paired_def append_eq_Cons_conv)
  from os' have "os' = [] \<or> (\<exists>ok. os' = [(close_order i, ok)])" by auto
  with f os a have "q = p" by (auto split: if_splits)
  with o a show ?thesis by simp
qed

section \<open>Agreement\<close>

lemma entry_for_port: "te_remote_port (entry_for reg x c node ts) = tc_port x"
  by (simp add: entry_for_def)

text \<open>C12: server and node agree on every tunnel with a node, whatever the other tasks of either do.
  At every moment of a session, whichever binds failed, a port on which the node listens for
  a tunnel in the table is the port that the tunnel's task holds in the pool, and a visitor
  reported for it is routed to the CLI of that task with the data address of this very node.
  Once it has read what was sent and no bind has failed, the node listens for each tunnel
  that runs through it.\<close>

theorem mesh_agrees:
  assumes "sys_reachable cd lib cfg sys" and "sy_node sys d = Some nt"
    and "agent_obeyed cd' ncfg os ag"
    and "sy_sent sys d = Node_Registered nr # map fst os @ rest"
  shows "(\<forall>i p e. listening ag i = Some p \<longrightarrow> sv_active_tunnels (sy_server sys) i = Some e \<longrightarrow>
      te_route e \<noteq> None \<longrightarrow>
      te_remote_port e = p \<and> holds sys (te_close e) = Some p \<and>
      te_route e = Some (te_close e, nt_host nt, rn_data_port (nt_register nt))) \<and>
    (rest = [] \<longrightarrow> (\<forall>order \<in> set os. snd order) \<longrightarrow>
      (\<forall>c t x n. sy_cli sys c = Some t \<longrightarrow> pc_ordered (ct_pc t) = Some (x, n) \<longrightarrow> ni_tx n = d \<longrightarrow>
        listening ag (tc_tunnel_id x) = Some (tc_port x)))"
proof (intro conjI allI impI)
  have L: "listening ag = fold obey os Map.empty" using session_obeys [OF assms(3)] by blast
  have O: "orders_ok sys" by (rule orders_ok_reachable [OF assms(1)])
  {
    fix i p e
    assume "listening ag i = Some p" and e: "sv_active_tunnels (sy_server sys) i = Some e" "te_route e \<noteq> None"
    then have o: "orders sys d i \<noteq> []" "hd (orders sys d i) = open_order i p"
      using obeyed_listens [OF O assms(4)] L by simp_all
    from routes_okD(2) [OF routes_ok_reachable [OF assms(1)] e o(1)] o(2) assms(2)
    show "te_remote_port e = p"
      and "te_route e = Some (te_close e, nt_host nt, rn_data_port (nt_register nt))"
      by (auto simp: leads_to_def open_order_def)
    have "entry_owned sys i e" using table_ok_reachable [OF assms(1)] e(1) by (simp add: table_ok_def)
    then obtain t x node ts where own: "sy_cli sys (te_close e) = Some t" "pc_ctx (ct_pc t) = Some x"
      "e = entry_for (ct_register t) x (te_close e) node ts" by (auto simp: entry_owned_def)
    then have "te_remote_port e = tc_port x" by (metis entry_for_port)
    with own(1,2) have "holds sys (te_close e) = Some (te_remote_port e)" by (simp add: holds_def ctx_of_def)
    with \<open>te_remote_port e = p\<close> show "holds sys (te_close e) = Some p" by simp
  next
    fix c t n and x :: tunnel_ctx
    let ?i = "tc_tunnel_id x" and ?os = "filter (order_for (tc_tunnel_id x) \<circ> fst) os"
    assume all: "rest = []" "\<forall>order \<in> set os. snd order"
      and t: "sy_cli sys c = Some t" "pc_ordered (ct_pc t) = Some (x, n)" "ni_tx n = d"
    have "map fst ?os = [open_order ?i (tc_port x)]"
      using orders_okD(4) [OF O t(1,2), of d] obeyed_for [OF assms(4), of ?i] all(1) t(3) by simp
    then obtain ok where os: "?os = [(open_order ?i (tc_port x), ok)]" by auto
    then have "(open_order ?i (tc_port x), ok) \<in> set ?os" by simp
    with all(2) have "ok" by auto
    with os fold_obey_for [of Map.empty ?i Map.empty os] L
    show "listening ag ?i = Some (tc_port x)" by simp
  }
qed

text \<open>The sample node has obeyed the order of the sample run.\<close>

definition mesh_agent :: agent where
  "mesh_agent = sample_agent S_Orders [''3'' \<mapsto> 0]
     [0 \<mapsto> \<lparr>at_tunnel_id = ''3'', at_port = 30001, at_phase = A_Accept, at_aborted = False\<rparr>] 1 rv_new"

lemma mesh_open_line: "from_line json_codec (sample_line mesh_open) = Some mesh_open"
  by (simp add: sample_line mesh_open_def wf_message_def valid_utf8_ascii port_json_def)

lemma mesh_obeyed: "agent_obeyed json_codec sample_node [(mesh_open, True)] mesh_agent"
proof -
  let ?ag = "sample_agent S_Verdict Map.empty Map.empty 0 rv_new"
    and ?l = "sample_line (Node_Registered \<lparr>nr_node_id = ''n''\<rparr>)" and ?o = "sample_line mesh_open"
  have "agent_opened json_codec sample_node [] (agent_new\<lparr>ag_pc := S_Register\<rparr>)"
    by (rule sample_session [OF agent_opened.start, where line = Io_Err])
      (simp_all add: agent_new_def session_step_def)
  then have "agent_opened json_codec sample_node [] ?ag"
    by (rule sample_session [where line = Io_Err])
      (simp_all add: agent_new_def session_step_def sample_agent_def)
  then have "agent_obeyed json_codec sample_node [] (session_step json_codec sample_node True (Io_Ok (1, ?l)) ?ag)"
    by (intro agent_obeyed.acknowledged) (auto intro: agent_opened_reachable simp: sample_agent_def)
  moreover have "session_step json_codec sample_node True (Io_Ok (1, ?l)) ?ag =
      sample_agent S_Orders Map.empty Map.empty 0 rv_new" (is "_ = ?ag'")
    by (simp add: session_step_def sample_agent_def verdict_def)
  ultimately have "agent_obeyed json_codec sample_node [] ?ag'" by simp
  from agent_obeyed.order [OF this _ mesh_open_line, of 1 True]
  have "agent_obeyed json_codec sample_node ([] @ [(mesh_open, True)])
      (session_step json_codec sample_node True (Io_Ok (1, ?o)) ?ag')"
    by (simp add: bind_free_def sample_agent_def)
  moreover have "session_step json_codec sample_node True (Io_Ok (1, ?o)) ?ag' = mesh_agent"
    by (simp add: session_step_def serve_order_def apply_order_def mesh_open_line sample_agent_def,
        simp add: mesh_open_def
        node_open_tunnel_def sample_agent_def mesh_agent_def)
  ultimately show ?thesis by simp
qed

theorem mesh_agrees_witness:
  "listening mesh_agent ''3'' = Some 30001 \<and> holds mesh_inserted 7 = Some 30001 \<and>
   te_route mesh_tunnel = Some (7, ''h'', 7002)"
proof -
  have n: "sy_node mesh_inserted 5 = Some \<lparr>nt_register = mesh_node, nt_host = ''h'', nt_pc = R_Loop ''n''\<rparr>"
    and c: "sy_cli mesh_inserted 7 = Some \<lparr>ct_register = sample_register,
      ct_pc = K_Node_Publish sample_ctx mesh_info 0\<rparr>"
    and e: "sv_active_tunnels (sy_server mesh_inserted) ''3'' = Some mesh_tunnel"
    by (simp_all add: mesh_inserted_def)
  have "sy_sent mesh_inserted 5 = Node_Registered \<lparr>nr_node_id = ''n''\<rparr> # map fst [(mesh_open, True)] @ []"
    by (simp add: mesh_inserted_def mesh_sys_def mesh_ack_def)
  note A = mesh_agrees [OF mesh_inserted_reachable n mesh_obeyed this]
  from A c have "listening mesh_agent (tc_tunnel_id sample_ctx) = Some (tc_port sample_ctx)"
    by (simp add: mesh_info_def)
  then have l: "listening mesh_agent ''3'' = Some 30001" by (simp add: sample_ctx_def)
  have "te_close mesh_tunnel = 7" "te_route mesh_tunnel \<noteq> None"
    by (simp_all add: mesh_tunnel_def entry_for_def)
  with A l e have "holds mesh_inserted 7 = Some 30001"
    "te_route mesh_tunnel = Some (7, ''h'', rn_data_port mesh_node)" by fastforce+
  with l show ?thesis by (simp add: mesh_node_def)
qed

section \<open>An order before the acknowledgement\<close>

text \<open>An order can cost a node its session and a user the tunnel: the server reaches a state in
  which the first frame sent to a node is the order to open a tunnel, written before the
  acknowledgement of the registration; a node that reads it as its verdict gives up, and has
  left the registry, while the CLI has been told that the tunnel is open and the server serves on.\<close>

lemma order_before_acknowledgement:
  "\<exists>sys d i e x n m rest. sys_reachable json_codec lib sample_config sys \<and>
     sy_sent sys d = m # rest \<and>
     (\<forall>cfg ok ag k. session_step json_codec cfg ok (Io_Ok (k, sample_line m)) (ag\<lparr>ag_pc := S_Verdict\<rparr>) =
        ag\<lparr>ag_pc := S_Sleep (Unexpected_Verdict m)\<rparr>) \<and>
     sv_node_manager (sy_server sys) = Map.empty \<and>
     sv_active_tunnels (sy_server sys) i = Some e \<and>
     map_option ct_pc (sy_cli sys (te_close e)) = Some (K_Node_Serve x n) \<and> ni_tx n = d \<and>
     sy_sent sys (te_close e) = [Registered \<lparr>rd_remote_port = tc_port x,
       rd_node_host = Some (ni_host n), rd_node_port = Some (ni_data_port n)\<rparr>]"
proof (intro exI conjI allI impI)
  show "sys_reachable json_codec lib sample_config (mesh_early lib)" by (rule mesh_early_reachable)
  show "sy_sent (mesh_early lib) 5 = mesh_open # [mesh_ack]"
    by (simp add: mesh_early_def mesh_sys_def)
  show "sv_active_tunnels (sy_server (mesh_early lib)) ''3'' = Some mesh_tunnel"
    by (simp add: mesh_early_def)
  show "map_option ct_pc (sy_cli (mesh_early lib) (te_close mesh_tunnel)) =
      Some (K_Node_Serve sample_ctx mesh_info)"
    by (simp add: mesh_early_def mesh_tunnel_def)
  show "sy_sent (mesh_early lib) (te_close mesh_tunnel) = [Registered \<lparr>rd_remote_port = tc_port sample_ctx,
       rd_node_host = Some (ni_host mesh_info), rd_node_port = Some (ni_data_port mesh_info)\<rparr>]"
    by (simp add: mesh_early_def mesh_tunnel_def mesh_advert_def sample_ctx_def mesh_info_def)
next
  fix cfg ok ag k
  have "verdict json_codec (Io_Ok (k, sample_line mesh_open)) = Inl (Unexpected_Verdict mesh_open)"
    by (simp add: verdict_def mesh_open_line) (simp add: mesh_open_def)
  then show "session_step json_codec cfg ok (Io_Ok (k, sample_line mesh_open)) (ag\<lparr>ag_pc := S_Verdict\<rparr>) =
      ag\<lparr>ag_pc := S_Sleep (Unexpected_Verdict mesh_open)\<rparr>"
    by (simp add: session_step_def)
qed (simp_all add: mesh_early_def mesh_info_def)

end
