(* ===== verification/Cli_Login.thy ===== *)
theory Cli_Login
  imports Cli_Config Auth
begin

text \<open>
  The browser login from end to end: the page of the server (\<open>Auth\<close>) redirects the browser to
  the callback of \<open>borehole login\<close> (\<open>Cli_Config\<close>), which stores the token; what the CLI then
  believes of the session agrees with what the server accepts.
\<close>

text \<open>The request with which the browser follows the redirect to the callback.\<close>

definition callback_request :: "string \<Rightarrow> string \<Rightarrow> string" where
  "callback_request target headers = ''GET /'' @ target @ '' HTTP/1.1'' @ [CHR 0x0D, newline] @ headers"

lemma newline_space: "newline \<in> set space_leads"
  by (simp add: space_leads_def)

lemma unreserved_ascii: "unreserved c \<Longrightarrow> byte c < 128"
  by (auto simp: unreserved_def less_eq_char_def)

lemma encoded_line: "c \<in> set (percent_encode s) \<Longrightarrow> byte c < 128 \<and> c \<noteq> newline"
  using percent_encode_alphabet [of c s] unreserved_ascii [of c] unreserved_not_special [of c]
    newline_space by (auto simp: query_special_def)

lemma redirect_line:
  assumes "redirect_url callback jwt expires = callback @ target"
  shows "newline \<notin> set target \<and> (\<forall>c \<in> set target. byte c < 128)"
proof -
  have "target = ''?token='' @ percent_encode jwt @ ''&expires='' @ percent_encode expires"
    using assms by (simp add: redirect_url_def)
  then show ?thesis using encoded_line [of _ jwt] encoded_line [of _ expires] by auto
qed

lemma callback_line:
  assumes "redirect_url callback jwt expires = callback @ target"
  obtains n rest where "read_line \<lparr>sm_bytes = callback_request target headers, sm_end = e\<rparr> =
    (Io_Ok (n, ''GET /'' @ target @ '' HTTP/1.1'' @ [CHR 0x0D, newline]), rest)"
proof -
  let ?line = "''GET /'' @ target @ '' HTTP/1.1'' @ [CHR 0x0D]"
  have "newline \<notin> set ?line" using redirect_line [OF assms] by auto
  moreover have "valid_utf8 ?line"
    using redirect_line [OF assms] by (intro valid_utf8_ascii) auto
  ultimately show thesis
    using that read_line_line [of ?line headers e] by (simp add: callback_request_def)
qed

section \<open>Properties\<close>

text \<open>C22: after a browser login with valid credentials the CLI has stored a session it can
  trust: \<open>borehole login\<close> saves the token and its expiry (and keeps every other setting), and
  as long as the CLI takes the stored token for unexpired the server accepts it as that
  user's.\<close>

theorem stored_session_accepted:
  assumes "jwt_ok lib" and "sane_clock now" and "credentials_valid lib s email pw"
    and "issue_token lib now (sv_jwt_secret s) email = Some (jwt, expires)" and "valid_utf8 expires"
    and "\<And>t. 0 \<le> t \<Longrightarrow> parse_from_rfc3339 (al_rfc3339 lib t) = Some t"
    and "text_format tc config_json wf_config" and "config_load tc env fs = Inr cfg"
    and "wf_config cfg" and "require_server_url cfg = Inr url"
  shows "\<exists>target fs' cfg'. cli_login_page lib now s
      \<lparr>cq_callback = callback_of port, cq_email = Some email, cq_password = Some pw\<rparr> =
        Redirect_To (callback_of port @ target) \<and>
    run_login tc env True
      (Callback \<lparr>sm_bytes = callback_request target headers, sm_end = e\<rparr>) Written fs = (None, fs') \<and>
    config_load tc env fs' = Inr cfg' \<and>
    cfg' = cfg\<lparr>cc_jwt := Some jwt, cc_jwt_expires_at := Some expires\<rparr> \<and>
    (\<forall>later. \<not> is_jwt_expired parse_from_rfc3339 later cfg' \<longrightarrow>
      (\<exists>c. authenticate lib later s
        \<lparr>pt_authorization = Some (''Bearer '' @ jwt), pt_query = None\<rparr> = Inr c \<and> cl_sub c = email))"
proof -
  let ?cfg = "cfg\<lparr>cc_jwt := Some jwt, cc_jwt_expires_at := Some expires\<rparr>"
  obtain c where c: "al_encode lib (sv_jwt_secret s) c = Some jwt"
    using issued_claims [OF assms(4,2)] .
  have utf8: "valid_utf8 jwt" by (rule jwt_okD(4) [OF assms(1) c])
  obtain target where t: "redirect_url (callback_of port) jwt expires = callback_of port @ target"
    by (simp add: redirect_url_def)
  have page: "cli_login_page lib now s
      \<lparr>cq_callback = callback_of port, cq_email = Some email, cq_password = Some pw\<rparr> =
        Redirect_To (callback_of port @ target)"
    using assms(3,4) t by (simp add: cli_login_page_def)
  obtain n rest where line: "read_line \<lparr>sm_bytes = callback_request target headers, sm_end = e\<rparr> =
      (Io_Ok (n, ''GET /'' @ target @ '' HTTP/1.1'' @ [CHR 0x0D, newline]), rest)"
    using callback_line [OF t] .
  from login_saved [OF assms(7-10) line redirect_read_back [OF utf8 assms(5) t] utf8] assms(5)
  obtain fs' where fs': "run_login tc env True
      (Callback \<lparr>sm_bytes = callback_request target headers, sm_end = e\<rparr>) Written fs = (None, fs')"
    "config_load tc env fs' = Inr ?cfg"
    by (auto simp: wf_text_def)
  have ttl: "expires = al_rfc3339 lib (now + TOKEN_TTL_HOURS * 3600 * 10 ^ 9)"
    using assms(4) by (auto simp: issue_token_def Let_def)
  have "\<exists>c. authenticate lib later s
        \<lparr>pt_authorization = Some (''Bearer '' @ jwt), pt_query = None\<rparr> = Inr c \<and> cl_sub c = email"
    if "\<not> is_jwt_expired parse_from_rfc3339 later ?cfg" for later
  proof -
    have "0 \<le> now" using assms(2) by (simp add: sane_clock_def unix_seconds_def pos_imp_zdiv_nonneg_iff)
    then have "0 \<le> now + TOKEN_TTL_HOURS * 3600 * 10 ^ 9" by (simp add: TOKEN_TTL_HOURS_def)
    then have "later < now + TOKEN_TTL_HOURS * 3600 * 10 ^ 9"
      using that by (simp add: is_jwt_expired_def ttl assms(6))
    then have "unix_seconds later \<le> unix_seconds now + 86400"
      using unix_seconds_ttl [of now] by (simp add: unix_seconds_def zdiv_mono1)
    then show ?thesis
      using issued_token_window [OF assms(1,4,2) refl, of _ later] by (simp add: carries_def)
  qed
  with page fs' show ?thesis by blast
qed

definition sample_env :: cli_env where
  "sample_env = \<lparr>ev_home = Some ''/root'', ev_userprofile = None\<rparr>"

definition sample_cli_config :: cli_config where
  "sample_cli_config = cli_config_default\<lparr>cc_server_url := Some ''https://s/'', cc_token := Some ''t'',
     cc_server_addr := Some ''s:7000''\<rparr>"

definition sample_files :: files where
  "sample_files = snd (config_save config_codec sample_env sample_cli_config Written Map.empty)"

lemma sample_config_loads:
  "wf_config sample_cli_config"
  "config_load config_codec sample_env sample_files = Inr sample_cli_config"
proof -
  show wf: "wf_config sample_cli_config"
    by (simp add: sample_cli_config_def cli_config_default_def wf_config_def wf_text_def valid_utf8_ascii)
  have "config_path sample_env = Inr ''/root/.borehole.json''"
    by (simp add: config_path_def home_dir_def sample_env_def path_join_def)
  from config_saved(3) [OF config_file.text_format_axioms wf this refl]
  show "config_load config_codec sample_env sample_files = Inr sample_cli_config"
    by (simp add: sample_files_def)
qed

theorem stored_session_accepted_witness:
  "\<exists>target fs'. run_login config_codec sample_env True
      (Callback \<lparr>sm_bytes = callback_request target [], sm_end = Closed\<rparr>) Written sample_files =
        (None, fs') \<and>
    config_load config_codec sample_env fs' = Inr (sample_cli_config\<lparr>
      cc_jwt := Some sample_token, cc_jwt_expires_at := Some sample_expiry\<rparr>)"
proof -
  let ?parse = "\<lambda>s. map_option int (parse_digits 0 s)"
  have "?parse (al_rfc3339 plain_lib t) = Some t" if "0 \<le> t" for t
    using that by (simp add: plain_lib_def parse_digits_show_nat)
  moreover have "valid_utf8 sample_expiry"
    using show_nat_bytes by (fastforce simp: sample_expiry_def intro: valid_utf8_ascii)
  moreover have "require_server_url sample_cli_config = Inr ''https://s/''"
    by (simp add: require_server_url_def required_def non_empty_def sample_cli_config_def)
  ultimately show ?thesis
    using stored_session_accepted [OF plain_ok sample_clock sample_credentials sample_issue, of ?parse,
        OF _ _ config_file.text_format_axioms sample_config_loads(2,1), where url = "''https://s/''" and port = 4000 and e = Closed
        and headers = "[]"]
    by blast
qed

end
