(* ===== verification/Cli_Background_Facts.thy ===== *)
theory Cli_Background_Facts
  imports Cli_Background
begin

text \<open>
  Invariants of background tunnels (\<open>Cli_Background\<close>): what the registry says of the tunnel at
  any moment, what a stop has done to the worker, and what the worker leaves behind.
\<close>

section \<open>The tunnel\<close>

definition bg_context_ok :: "bg_context \<Rightarrow> bool" where
  "bg_context_ok bx \<longleftrightarrow> text_format (bx_codec bx) record_json wf_record \<and>
     wf_record (bx_record bx) \<and>
     record_path (bx_env bx) True (tr_id (bx_record bx)) = Inr (bx_path bx) \<and>
     tr_pid (bx_record bx) = 0 \<and> tr_state (bx_record bx) = STATE_STARTING \<and> bx_pid bx \<noteq> 0"

text \<open>A record that tells the truth about the tunnel, when \<open>port\<close> is what the worker was told.\<close>

definition truthful :: "bg_context \<Rightarrow> u16 option \<Rightarrow> tunnel_record \<Rightarrow> bool" where
  "truthful bx port r \<longleftrightarrow>
     tr_id r = tr_id (bx_record bx) \<and> tr_protocol r = tr_protocol (bx_record bx) \<and>
     tr_local_port r = tr_local_port (bx_record bx) \<and> tr_node r = tr_node (bx_record bx) \<and>
     (tr_pid r = 0 \<or> tr_pid r = bx_pid bx) \<and>
     (tr_state r = STATE_STARTING \<and> tr_remote_port r = tr_remote_port (bx_record bx) \<or>
      tr_state r = STATE_ACTIVE \<and> tr_pid r = bx_pid bx \<and> port \<noteq> None \<and> tr_remote_port r = port)"

lemma states_differ [simp]: "STATE_STARTING \<noteq> STATE_ACTIVE" "STATE_ACTIVE \<noteq> STATE_STARTING"
  by (simp_all add: STATE_STARTING_def STATE_ACTIVE_def)

lemma truthful_wf: "bg_context_ok bx \<Longrightarrow> truthful bx port r \<Longrightarrow> wf_record r"
  by (auto simp: bg_context_ok_def truthful_def wf_record_def STATE_STARTING_def STATE_ACTIVE_def
      valid_utf8_ascii)

lemma truthful_report: "truthful bx None r \<Longrightarrow> truthful bx port r"
  by (simp add: truthful_def)

section \<open>Files\<close>

text \<open>What can be loaded after each operation on the files.\<close>

lemma bg_load_path:
  assumes "bg_context_ok bx"
  shows "bg_load bx bg = (case load_json (bx_codec bx) (bx_path bx) (bg_files bg) of
    Inl e \<Rightarrow> Inl (Record_File e) | Inr r \<Rightarrow> Inr r)"
  using assms by (simp add: bg_context_ok_def bg_load_def record_load_def)

lemma bg_load_cong [simp]:
  "bg_load bx (bg\<lparr>bg_worker := w\<rparr>) = bg_load bx bg"
  "bg_load bx (bg\<lparr>bg_notice := n\<rparr>) = bg_load bx bg"
  "bg_load bx (bg\<lparr>bg_port := p\<rparr>) = bg_load bx bg"
  "bg_load bx (bg\<lparr>bg_stops := t\<rparr>) = bg_load bx bg"
  by (simp_all add: bg_load_def)

lemma bg_load_absent:
  "bg_context_ok bx \<Longrightarrow> \<not> path_exists (bx_path bx) (bg_files bg) \<Longrightarrow> bg_load bx bg \<noteq> Inr r"
  by (simp add: bg_load_path load_json_def read_to_string_def path_exists_def)

lemma bg_load_removed:
  assumes "bg_context_ok bx"
    and "bg_load bx (bg\<lparr>bg_files := snd (remove_file (bx_path bx) ok (bg_files bg))\<rparr>) = Inr r"
  shows "bg_load bx bg = Inr r"
  using assms
  by (auto simp: bg_load_path remove_file_def load_json_def read_to_string_def split: if_splits)

lemma bg_save_frame:
  "bg_worker (snd (bg_save bx r w bg)) = bg_worker bg"
  "bg_notice (snd (bg_save bx r w bg)) = bg_notice bg"
  "bg_port (snd (bg_save bx r w bg)) = bg_port bg"
  "bg_stops (snd (bg_save bx r w bg)) = bg_stops bg"
  by (simp_all add: bg_save_def split: prod.split)

lemma bg_load_saved:
  assumes "bg_context_ok bx" and "wf_record r" and "tr_id r = tr_id (bx_record bx)"
    and "bg_load bx (snd (bg_save bx r w bg)) = Inr r'"
  shows "r' = r \<or> bg_load bx bg = Inr r'"
proof -
  have F: "text_format (bx_codec bx) record_json wf_record"
    and P: "record_path (bx_env bx) True (tr_id r) = Inr (bx_path bx)"
    using assms(1,3) by (simp_all add: bg_context_ok_def)
  have files: "bg_files (snd (bg_save bx r w bg)) =
      snd (save_json (bx_codec bx) record_json (bx_path bx) r w (bg_files bg))"
    using P by (simp add: bg_save_def record_save_def split: prod.split)
  show ?thesis
    by (rule text_format.load_saved [OF F assms(2), of "bx_path bx" w "bg_files bg"])
      (use assms(4) files in \<open>simp_all add: bg_load_path [OF assms(1)] split: sum.splits\<close>)
qed

lemma bg_saved:
  assumes "bg_context_ok bx" and "wf_record r" and "tr_id r = tr_id (bx_record bx)"
    and "bg_save bx r w bg = (None, bg')"
  shows "bg_load bx bg' = Inr r" and "bg' = bg\<lparr>bg_files := bg_files bg'\<rparr>"
    and "path_exists (bx_path bx) (bg_files bg')"
proof -
  have F: "text_format (bx_codec bx) record_json wf_record"
    and P: "record_path (bx_env bx) True (tr_id r) = Inr (bx_path bx)"
    using assms(1,3) by (simp_all add: bg_context_ok_def)
  have "w = Written"
    using record_saved(1) [OF F assms(2) P, of w "bg_files bg"] assms(4)
    by (auto simp: bg_save_def split: prod.splits if_splits)
  with record_saved(3,4) [OF F assms(2) P, of w "bg_files bg"] assms(3,4)
  show "bg_load bx bg' = Inr r" "path_exists (bx_path bx) (bg_files bg')"
    by (auto simp: bg_save_def bg_load_def split: prod.splits)
  show "bg' = bg\<lparr>bg_files := bg_files bg'\<rparr>"
    using assms(4) by (auto simp: bg_save_def split: prod.splits)
qed

section \<open>What the registry says\<close>

definition loading :: "worker_pc \<Rightarrow> bool" where
  "loading w \<longleftrightarrow> w = W_Load \<or> (\<exists>r. w = W_Save r)"

definition records_ok :: "bg_context \<Rightarrow> background \<Rightarrow> bool" where
  "records_ok bx bg \<longleftrightarrow>
     (\<forall>r. bg_load bx bg = Inr r \<longrightarrow> truthful bx (bg_port bg) r \<and>
        (bg_notice bg \<noteq> N_Idle \<longrightarrow> tr_pid r = bx_pid bx)) \<and>
     (\<forall>r. bg_worker bg = W_Save r \<longrightarrow> truthful bx (bg_port bg) r \<and>
        tr_state r = STATE_STARTING \<and> tr_pid r = bx_pid bx) \<and>
     (\<forall>r. bg_notice bg = N_Save r \<longrightarrow> truthful bx (bg_port bg) r \<and> tr_state r = STATE_ACTIVE) \<and>
     (\<forall>p. bg_notice bg = N_Port p \<longrightarrow> bg_port bg = Some p) \<and>
     (bg_notice bg = N_Idle \<or> bg_notice bg = N_Wait \<longrightarrow> bg_port bg = None) \<and>
     (loading (bg_worker bg) \<longrightarrow> bg_notice bg = N_Idle) \<and>
     (\<forall>k pid. bg_stops bg k = T_Kill pid \<longrightarrow> pid = bx_pid bx)"

lemma records_okD:
  assumes "records_ok bx bg"
  shows "bg_load bx bg = Inr r \<Longrightarrow> truthful bx (bg_port bg) r"
    and "bg_load bx bg = Inr r \<Longrightarrow> bg_notice bg \<noteq> N_Idle \<Longrightarrow> tr_pid r = bx_pid bx"
    and "bg_worker bg = W_Save r \<Longrightarrow> truthful bx (bg_port bg) r"
    and "bg_worker bg = W_Save r \<Longrightarrow> tr_state r = STATE_STARTING \<and> tr_pid r = bx_pid bx"
    and "bg_notice bg = N_Save r \<Longrightarrow> truthful bx (bg_port bg) r \<and> tr_state r = STATE_ACTIVE"
    and "bg_notice bg = N_Port p \<Longrightarrow> bg_port bg = Some p"
    and "bg_notice bg = N_Idle \<or> bg_notice bg = N_Wait \<Longrightarrow> bg_port bg = None"
    and "loading (bg_worker bg) \<Longrightarrow> bg_notice bg = N_Idle"
    and "bg_stops bg k = T_Kill pid \<Longrightarrow> pid = bx_pid bx"
  using assms unfolding records_ok_def by blast+

text \<open>Steps of a stop that only move its own state, and removals.\<close>

lemma records_ok_stop:
  assumes "records_ok bx bg" and "\<And>pid. t = T_Kill pid \<Longrightarrow> pid = bx_pid bx"
  shows "records_ok bx (bg\<lparr>bg_stops := (bg_stops bg)(k := t)\<rparr>)"
  using assms unfolding records_ok_def by (auto split: if_splits)

lemma records_ok_worker:
  assumes "records_ok bx bg" and "\<not> loading w"
  shows "records_ok bx (bg\<lparr>bg_worker := w\<rparr>)"
  using assms unfolding records_ok_def by (auto simp: loading_def)

lemma records_ok_removed:
  assumes "bg_context_ok bx" and "records_ok bx bg"
  shows "records_ok bx (bg\<lparr>bg_files := snd (remove_file (bx_path bx) ok (bg_files bg))\<rparr>)"
proof -
  let ?bg = "bg\<lparr>bg_files := snd (remove_file (bx_path bx) ok (bg_files bg))\<rparr>"
  have "truthful bx (bg_port ?bg) r \<and> (bg_notice ?bg \<noteq> N_Idle \<longrightarrow> tr_pid r = bx_pid bx)"
    if "bg_load bx ?bg = Inr r" for r
    using records_okD(1,2) [OF assms(2) bg_load_removed [OF assms(1) that]] by simp
  with assms(2) show ?thesis unfolding records_ok_def by simp
qed

lemma worker_load_ok:
  assumes "records_ok bx bg" and "bg_worker bg = W_Load"
  shows "records_ok bx (worker_load bx bg)"
proof (cases "bg_load bx bg")
  case (Inl e)
  with records_ok_worker [OF assms(1), of W_Gone] show ?thesis
    by (simp add: worker_load_def loading_def)
next
  case (Inr r)
  have idle: "bg_notice bg = N_Idle" using records_okD(8) [OF assms(1)] assms(2) by (simp add: loading_def)
  then have "bg_port bg = None" using records_okD(7) [OF assms(1)] by simp
  with records_okD(1) [OF assms(1) Inr]
  have "truthful bx (bg_port bg) (r\<lparr>tr_pid := bx_pid bx, tr_state := STATE_STARTING\<rparr>)"
    by (auto simp: truthful_def)
  with assms(1) Inr idle show ?thesis
    unfolding worker_load_def records_ok_def by (auto simp: loading_def)
qed

lemma save_frame_eq:
  assumes "bg_save bx r w bg = (e, bg')"
  shows "bg_worker bg' = bg_worker bg" "bg_notice bg' = bg_notice bg" "bg_port bg' = bg_port bg"
    "bg_stops bg' = bg_stops bg"
  using bg_save_frame [of bx r w bg] assms by simp_all

lemma worker_save_ok:
  assumes "bg_context_ok bx" and "records_ok bx bg" and "bg_worker bg = W_Save r"
  shows "records_ok bx (worker_save bx r w bg)"
proof -
  have t: "truthful bx (bg_port bg) r" "tr_pid r = bx_pid bx"
    using records_okD(3,4) [OF assms(2,3)] by simp_all
  have good: "wf_record r" "tr_id r = tr_id (bx_record bx)"
    using truthful_wf [OF assms(1) t(1)] t(1) by (simp_all add: truthful_def)
  have idle: "bg_notice bg = N_Idle"
    using records_okD(8) [OF assms(2)] assms(3) by (simp add: loading_def)
  then have "bg_port bg = None" using records_okD(7) [OF assms(2)] by simp
  obtain e bg' where save: "bg_save bx r w bg = (e, bg')" by (cases "bg_save bx r w bg")
  have loaded: "r' = r \<or> bg_load bx bg = Inr r'" if "bg_load bx bg' = Inr r'" for r'
    using bg_load_saved [OF assms(1) good, of w bg r'] that save by simp
  show ?thesis
  proof (cases e)
    case None
    have "bg_load bx bg' = Inr r" using bg_saved(1) [OF assms(1) good] save None by blast
    with None save save_frame_eq [OF save] t \<open>bg_port bg = None\<close> records_okD(9) [OF assms(2)]
    show ?thesis unfolding worker_save_def records_ok_def by (auto simp: loading_def)
  next
    case (Some x)
    with save save_frame_eq [OF save] loaded t idle assms(2) show ?thesis
      unfolding worker_save_def records_ok_def by (auto simp: loading_def)
  qed
qed

lemma worker_report_ok:
  assumes "records_ok bx bg" and "bg_notice bg = N_Wait"
  shows "records_ok bx (worker_report port bg)"
proof -
  have p: "bg_port bg = None" using records_okD(7) [OF assms(1)] assms(2) by simp
  have "\<not> loading (bg_worker bg)" using records_okD(8) [OF assms(1)] assms(2) by auto
  with p records_okD(1-4,9) [OF assms(1)] truthful_report assms(2) show ?thesis
    unfolding worker_report_def records_ok_def by (auto simp: loading_def split: option.split)
qed

lemma notice_load_ok:
  assumes "records_ok bx bg" and "bg_notice bg = N_Port p"
  shows "records_ok bx (notice_load bx p bg)"
proof -
  have port: "bg_port bg = Some p" using records_okD(6) [OF assms] .
  have "\<not> loading (bg_worker bg)" using records_okD(8) [OF assms(1)] assms(2) by auto
  moreover have "truthful bx (Some p) (r\<lparr>tr_remote_port := Some p, tr_state := STATE_ACTIVE\<rparr>)"
    if "bg_load bx bg = Inr r" for r
    using records_okD(1,2) [OF assms(1) that] assms(2) by (auto simp: truthful_def)
  ultimately show ?thesis
    using assms port unfolding notice_load_def records_ok_def
    by (auto simp: loading_def split: sum.split)
qed

lemma notice_save_ok:
  assumes "bg_context_ok bx" and "records_ok bx bg" and "bg_notice bg = N_Save r"
  shows "records_ok bx (notice_save bx r w bg)"
proof -
  have t: "truthful bx (bg_port bg) r" "tr_state r = STATE_ACTIVE"
    using records_okD(5) [OF assms(2,3)] by simp_all
  then have good: "wf_record r" "tr_id r = tr_id (bx_record bx)" "tr_pid r = bx_pid bx"
    using truthful_wf [OF assms(1) t(1)] by (auto simp: truthful_def)
  have "\<not> loading (bg_worker bg)" using records_okD(8) [OF assms(2)] assms(3) by auto
  moreover have "r' = r \<or> bg_load bx bg = Inr r'" if "bg_load bx (snd (bg_save bx r w bg)) = Inr r'" for r'
    using bg_load_saved [OF assms(1) good(1,2) that] .
  ultimately show ?thesis
    using assms(2,3) t good(3) unfolding notice_save_def records_ok_def
    by (auto simp: bg_save_frame loading_def)
qed

lemma stop_load_ok:
  assumes "records_ok bx bg"
  shows "records_ok bx (stop_load bx k bg)"
  unfolding stop_load_def
proof (rule records_ok_stop [OF assms])
  show "pid = bx_pid bx" if "(case bg_load bx bg of Inl _ \<Rightarrow> T_Failed
      | Inr r \<Rightarrow> if tr_pid r \<noteq> 0 then T_Kill (tr_pid r) else T_Check False) = T_Kill pid" for pid
    using that records_okD(1) [OF assms] by (auto simp: truthful_def split: sum.splits if_splits)
qed

lemma stop_kill_ok:
  assumes "records_ok bx bg" and "bg_stops bg k = T_Kill pid"
  shows "records_ok bx (stop_kill bx k pid launched bg)"
proof -
  have "\<not> loading (signalled w)" for w
    by (auto simp: loading_def signalled_def split: worker_pc.splits bool.splits)
  then have "records_ok bx (bg\<lparr>bg_worker := signalled (bg_worker bg)\<rparr>)"
    by (rule records_ok_worker [OF assms(1)])
  then show ?thesis
    using records_ok_stop [OF assms(1), of T_Failed k] records_okD(9) [OF assms]
    unfolding stop_kill_def records_ok_def by (auto simp: Let_def split: if_splits)
qed

lemma records_step:
  assumes "bg_context_ok bx"
  shows "bg_step bx bg bg' \<Longrightarrow> records_ok bx bg \<Longrightarrow> records_ok bx bg'"
proof (induction rule: bg_step.induct)
  case (w_unlink bg ok)
  note removed = records_ok_removed [OF assms w_unlink.prems, of ok]
  show ?case
    using records_ok_worker [OF removed, of W_Clean] records_ok_worker [OF removed, of W_Gone]
    by (cases "remove_file (bx_path bx) ok (bg_files bg)") (simp add: worker_unlink_def loading_def)
next
  case (t_unlink bg k killed ok)
  note removed = records_ok_removed [OF assms t_unlink.prems, of ok]
  show ?case
    using records_ok_stop [OF removed, of "T_Stopped killed" k] records_ok_stop [OF removed, of T_Failed k]
    by (cases "remove_file (bx_path bx) ok (bg_files bg)") (simp add: stop_unlink_def)
next
  case (t_check bg k killed)
  show ?case unfolding stop_check_def by (rule records_ok_stop [OF t_check.prems]) (simp split: if_splits)
qed (simp_all add: worker_load_ok worker_save_ok [OF assms] worker_report_ok notice_load_ok
    notice_save_ok [OF assms] stop_load_ok stop_kill_ok worker_listen_def worker_leave_def
    worker_check_def records_ok_worker loading_def)

lemma records_reachable:
  assumes "bg_context_ok bx"
  shows "bg_reachable bx bg \<Longrightarrow> records_ok bx bg"
proof (induction rule: bg_reachable.induct)
  case (start fs fs')
  have P: "record_path (bx_env bx) True (tr_id (bx_record bx)) = Inr (bx_path bx)"
    and F: "text_format (bx_codec bx) record_json wf_record" and W: "wf_record (bx_record bx)"
    using assms by (simp_all add: bg_context_ok_def)
  have "bg_load bx (bg_start bx fs') = Inr (bx_record bx)"
    using record_saved(3) [OF F W P refl, of fs] start by (simp add: bg_load_def bg_start_def)
  with assms show ?case
    unfolding records_ok_def
    by (simp add: bg_start_def truthful_def bg_context_ok_def)
qed (rule records_step [OF assms])

section \<open>What a stop has done\<close>

text \<open>The worker serves, or is still going to.\<close>

definition serving :: "worker_pc \<Rightarrow> bool" where
  "serving w \<longleftrightarrow> loading w \<or> (\<exists>args b. w = W_Serve args b)"

definition has_killed :: "stop_pc \<Rightarrow> bool" where
  "has_killed t \<longleftrightarrow> t = T_Check True \<or> t = T_Unlink True \<or> t = T_Stopped True"

definition kills_ok :: "background \<Rightarrow> bool" where
  "kills_ok bg \<longleftrightarrow> (\<forall>k. has_killed (bg_stops bg k) \<longrightarrow> \<not> serving (bg_worker bg))"

lemma not_serving_signalled: "\<not> serving (signalled w)"
  by (auto simp: serving_def loading_def signalled_def split: worker_pc.splits bool.splits)

lemma kills_keep:
  assumes "kills_ok bg" and "serving (bg_worker bg') \<Longrightarrow> serving (bg_worker bg)"
    and "\<And>k. has_killed (bg_stops bg' k) \<Longrightarrow> has_killed (bg_stops bg k)"
  shows "kills_ok bg'"
  using assms unfolding kills_ok_def by blast

lemma kills_step: "bg_step bx bg bg' \<Longrightarrow> records_ok bx bg \<Longrightarrow> kills_ok bg \<Longrightarrow> kills_ok bg'"
proof (induction rule: bg_step.induct)
  case (w_load bg)
  show ?case
    by (rule kills_keep [OF w_load.prems(2)])
      (simp_all add: worker_load_def serving_def loading_def w_load.hyps split: sum.splits)
next
  case (w_save bg r w)
  show ?case
    by (rule kills_keep [OF w_save.prems(2)])
      (auto simp: worker_save_def serving_def loading_def w_save.hyps save_frame_eq split: prod.splits option.splits)
next
  case (w_listen bg args)
  show ?case
    by (rule kills_keep [OF w_listen.prems(2)])
      (auto simp: worker_listen_def serving_def w_listen.hyps)
next
  case (w_report bg args b port)
  show ?case by (rule kills_keep [OF w_report.prems(2)]) (simp_all add: worker_report_def)
next
  case (w_leave bg args b)
  show ?case
    by (rule kills_keep [OF w_leave.prems(2)]) (simp_all add: worker_leave_def serving_def loading_def)
next
  case (w_check bg)
  show ?case
    by (rule kills_keep [OF w_check.prems(2)])
      (simp_all add: worker_check_def serving_def loading_def split: if_splits)
next
  case (w_unlink bg ok)
  show ?case
    by (rule kills_keep [OF w_unlink.prems(2)])
      (simp_all add: worker_unlink_def serving_def loading_def split: prod.splits if_splits)
next
  case (n_load bg p)
  show ?case by (rule kills_keep [OF n_load.prems(2)]) (simp_all add: notice_load_def split: sum.splits)
next
  case (n_save bg r w)
  show ?case by (rule kills_keep [OF n_save.prems(2)]) (simp_all add: notice_save_def bg_save_frame)
next
  case (t_load bg k)
  show ?case
    by (rule kills_keep [OF t_load.prems(2)])
      (auto simp: stop_load_def has_killed_def split: sum.splits if_splits)
next
  case (t_kill bg k pid launched)
  then have "pid = bx_pid bx" using records_okD(9) by blast
  with t_kill.prems(2) show ?case
    by (auto simp: stop_kill_def kills_ok_def has_killed_def not_serving_signalled Let_def)
next
  case (t_check bg k killed)
  show ?case
    by (rule kills_keep [OF t_check.prems(2)])
      (use t_check.hyps in \<open>auto simp: stop_check_def has_killed_def split: if_splits\<close>)
next
  case (t_unlink bg k killed ok)
  show ?case
    by (rule kills_keep [OF t_unlink.prems(2)])
      (use t_unlink.hyps in \<open>auto simp: stop_unlink_def has_killed_def split: prod.splits if_splits\<close>)
qed

lemma kills_reachable:
  assumes "bg_context_ok bx"
  shows "bg_reachable bx bg \<Longrightarrow> kills_ok bg"
proof (induction rule: bg_reachable.induct)
  case (start fs fs')
  show ?case by (simp add: kills_ok_def bg_start_def has_killed_def)
qed (use kills_step records_reachable [OF assms] in blast)

section \<open>What the worker leaves behind\<close>

text \<open>After a clean end there is a file only if the waiting task wrote it.\<close>

definition left_ok :: "bg_context \<Rightarrow> background \<Rightarrow> bool" where
  "left_ok bx bg \<longleftrightarrow> (bg_worker bg = W_Clean \<longrightarrow> path_exists (bx_path bx) (bg_files bg) \<longrightarrow>
     bg_notice bg = N_End \<and> bg_port bg \<noteq> None \<and>
     (\<forall>r. bg_load bx bg = Inr r \<longrightarrow> tr_state r = STATE_ACTIVE))"

lemma left_busy: "bg_worker bg \<noteq> W_Clean \<Longrightarrow> left_ok bx bg"
  by (simp add: left_ok_def)

lemma left_absent: "\<not> path_exists (bx_path bx) (bg_files bg) \<Longrightarrow> left_ok bx bg"
  by (simp add: left_ok_def)

lemma left_stops [simp]: "left_ok bx (bg\<lparr>bg_stops := t\<rparr>) = left_ok bx bg"
  by (simp add: left_ok_def)

lemma path_removed [simp]:
  "path_exists path (snd (remove_file path ok fs)) \<longleftrightarrow> path_exists path fs \<and> \<not> ok"
  by (auto simp: path_exists_def remove_file_def)

lemma left_removed:
  assumes "left_ok bx bg"
  shows "left_ok bx (bg\<lparr>bg_files := snd (remove_file (bx_path bx) ok (bg_files bg))\<rparr>)"
proof (cases ok)
  case True
  then show ?thesis by (intro left_absent) simp
next
  case False
  then have "bg\<lparr>bg_files := snd (remove_file (bx_path bx) ok (bg_files bg))\<rparr> = bg"
    by (simp add: remove_file_def)
  with assms show ?thesis by simp
qed

lemma left_step:
  assumes "bg_context_ok bx"
  shows "bg_step bx bg bg' \<Longrightarrow> records_ok bx bg \<Longrightarrow> left_ok bx bg \<Longrightarrow> left_ok bx bg'"
proof (induction rule: bg_step.induct)
  case (w_load bg)
  show ?case by (rule left_busy) (simp add: worker_load_def split: sum.split)
next
  case (w_save bg r w)
  show ?case by (rule left_busy) (simp add: worker_save_def split: prod.split option.split)
next
  case (w_listen bg args)
  show ?case by (rule left_busy) (simp add: worker_listen_def)
next
  case (w_report bg args b port)
  then show ?case by (intro left_busy) (simp add: worker_report_def)
next
  case (w_leave bg args b)
  show ?case by (rule left_busy) (simp add: worker_leave_def)
next
  case (w_check bg)
  then show ?case by (simp add: left_ok_def worker_check_def)
next
  case (w_unlink bg ok)
  show ?case
    by (cases ok) (auto simp: worker_unlink_def left_ok_def split: prod.split
        dest: arg_cong [of _ _ "\<lambda>x. path_exists (bx_path bx) (snd x)"])
next
  case (n_load bg p)
  then show ?case by (intro left_busy) (auto simp: notice_load_def worker_alive_def split: sum.split)
next
  case (n_save bg r w)
  have t: "truthful bx (bg_port bg) r" "tr_state r = STATE_ACTIVE"
    using records_okD(5) [OF n_save.prems(1) n_save.hyps] by simp_all
  then have good: "wf_record r" "tr_id r = tr_id (bx_record bx)" "bg_port bg \<noteq> None"
    using truthful_wf [OF assms t(1)] by (auto simp: truthful_def)
  show ?case
  proof (cases "bg_worker bg = W_Clean")
    case True
    with n_save have "\<not> path_exists (bx_path bx) (bg_files bg)" by (auto simp: left_ok_def)
    then have "r' = r" if "bg_load bx (snd (bg_save bx r w bg)) = Inr r'" for r'
      using bg_load_saved [OF assms good(1,2) that] bg_load_absent [OF assms] by blast
    with t(2) good(3) show ?thesis by (auto simp: left_ok_def notice_save_def bg_save_frame)
  qed (simp add: left_ok_def notice_save_def bg_save_frame)
next
  case (t_load bg k)
  then show ?case by (simp add: stop_load_def)
next
  case (t_kill bg k pid launched)
  have "signalled w = W_Clean \<Longrightarrow> w = W_Clean" for w
    by (auto simp: signalled_def split: worker_pc.splits bool.splits)
  with t_kill show ?case by (auto simp: stop_kill_def left_ok_def Let_def)
next
  case (t_check bg k killed)
  then show ?case by (simp add: stop_check_def)
next
  case (t_unlink bg k killed ok)
  note removed = left_removed [OF t_unlink.prems(2), of ok]
  then show ?case
    by (cases "remove_file (bx_path bx) ok (bg_files bg)") (simp add: stop_unlink_def left_ok_def)
qed

lemma left_reachable:
  assumes "bg_context_ok bx"
  shows "bg_reachable bx bg \<Longrightarrow> left_ok bx bg"
proof (induction rule: bg_reachable.induct)
  case (start fs fs')
  show ?case by (rule left_busy) (simp add: bg_start_def)
qed (use left_step [OF assms] records_reachable [OF assms] in blast)

end
