(* ===== verification/Cli_Background_Properties.thy ===== *)
theory Cli_Background_Properties
  imports Cli_Background_Facts
begin

text \<open>
  What background tunnels guarantee (\<open>Cli_Background\<close>), and the two races that the registry
  does not exclude: a stop that misses the worker, and a record that outlives it.
\<close>

section \<open>A run of the system\<close>

lemma bg_written:
  assumes "bg_context_ok bx" and "wf_record r" and "tr_id r = tr_id (bx_record bx)"
  obtains fs where "bg_save bx r Written bg = (None, bg\<lparr>bg_files := fs\<rparr>)"
    "bg_load bx (bg\<lparr>bg_files := fs\<rparr>) = Inr r" "path_exists (bx_path bx) fs"
proof -
  have F: "text_format (bx_codec bx) record_json wf_record"
    and P: "record_path (bx_env bx) True (tr_id r) = Inr (bx_path bx)"
    using assms(1,3) by (simp_all add: bg_context_ok_def)
  obtain e bg' where save: "bg_save bx r Written bg = (e, bg')" by (cases "bg_save bx r Written bg")
  then have "e = None"
    using record_saved(1) [OF F assms(2) P, of Written "bg_files bg"]
    by (auto simp: bg_save_def split: prod.splits)
  with save have "bg_save bx r Written bg = (None, bg')" by simp
  note saved = bg_saved [OF assms this]
  show thesis
    by (rule that [of "bg_files bg'"])
      (use saved \<open>bg_save bx r Written bg = (None, bg')\<close> in \<open>simp_all flip: saved(2)\<close>)
qed

text \<open>The tunnel has been started and its worker has loaded and saved the record.\<close>

definition claimed :: "bg_context \<Rightarrow> tunnel_record" where
  "claimed bx = (bx_record bx)\<lparr>tr_pid := bx_pid bx, tr_state := STATE_STARTING\<rparr>"

lemma claimed_wf: "bg_context_ok bx \<Longrightarrow> wf_record (claimed bx) \<and> tr_id (claimed bx) = tr_id (bx_record bx)"
  by (auto simp: bg_context_ok_def claimed_def wf_record_def STATE_STARTING_def valid_utf8_ascii)

lemma started:
  assumes "bg_context_ok bx"
  obtains fs where "bg_reachable bx (bg_start bx fs)" "bg_load bx (bg_start bx fs) = Inr (bx_record bx)"
proof -
  have F: "text_format (bx_codec bx) record_json wf_record" "wf_record (bx_record bx)"
    and P: "record_path (bx_env bx) True (tr_id (bx_record bx)) = Inr (bx_path bx)"
    using assms by (simp_all add: bg_context_ok_def)
  let ?save = "record_save (bx_codec bx) (bx_env bx) True (bx_record bx) Written Map.empty"
  have "?save = (None, snd ?save)"
    using record_saved(1) [OF F P, of Written Map.empty] by (simp add: prod_eq_iff)
  from bg_reachable.start [OF this] record_saved(3) [OF F P refl, of Map.empty] that [of "snd ?save"]
  show thesis by (simp add: bg_load_def bg_start_def)
qed

lemma worker_loaded:
  assumes "bg_load bx bg = Inr (bx_record bx)"
  shows "worker_load bx bg = bg\<lparr>bg_worker := W_Save (claimed bx)\<rparr>"
  using assms by (simp add: worker_load_def claimed_def)

lemma worker_saved:
  assumes "bg_context_ok bx"
  obtains fs where "worker_save bx (claimed bx) Written bg = bg\<lparr>bg_files := fs,
      bg_worker := W_Serve (worker_args (claimed bx)) False, bg_notice := N_Wait\<rparr>"
    "bg_load bx (bg\<lparr>bg_files := fs\<rparr>) = Inr (claimed bx)" "path_exists (bx_path bx) fs"
proof -
  note good = claimed_wf [OF assms]
  obtain fs where "bg_save bx (claimed bx) Written bg = (None, bg\<lparr>bg_files := fs\<rparr>)"
    "bg_load bx (bg\<lparr>bg_files := fs\<rparr>) = Inr (claimed bx)" "path_exists (bx_path bx) fs"
    using bg_written [OF assms] good by metis
  then show thesis by (intro that [of fs]) (simp_all add: worker_save_def)
qed

lemma serving_run:
  assumes ok: "bg_context_ok bx"
  obtains bg where "bg_reachable bx bg" "bg_worker bg = W_Serve (worker_args (claimed bx)) False"
    "bg_notice bg = N_Wait" "bg_stops bg = (\<lambda>_. T_Load)" "bg_load bx bg = Inr (claimed bx)"
    "path_exists (bx_path bx) (bg_files bg)"
proof -
  obtain fs where r0: "bg_reachable bx (bg_start bx fs)"
    and l0: "bg_load bx (bg_start bx fs) = Inr (bx_record bx)"
    using started [OF ok] by blast
  let ?b1 = "(bg_start bx fs)\<lparr>bg_worker := W_Save (claimed bx)\<rparr>"
  have r1: "bg_reachable bx ?b1"
    using bg_reachable.step [OF r0 bg_step.w_load] worker_loaded [OF l0] by (simp add: bg_start_def)
  obtain f where f: "worker_save bx (claimed bx) Written ?b1 = ?b1\<lparr>bg_files := f,
      bg_worker := W_Serve (worker_args (claimed bx)) False, bg_notice := N_Wait\<rparr>"
    "bg_load bx (?b1\<lparr>bg_files := f\<rparr>) = Inr (claimed bx)" "path_exists (bx_path bx) f"
    using worker_saved [OF ok, of ?b1] by blast
  have r2: "bg_reachable bx (worker_save bx (claimed bx) Written ?b1)"
    by (rule bg_reachable.step [OF r1 bg_step.w_save]) simp
  show thesis
    by (rule that [OF r2]) (use f in \<open>simp_all add: bg_load_def bg_start_def\<close>)
qed

text \<open>A stop that loads the record before the worker saves its process id, and removes it after.\<close>

lemma missed_run:
  assumes ok: "bg_context_ok bx"
  obtains bg args where "bg_reachable bx bg" "bg_stops bg k = T_Stopped False"
    "bg_worker bg = W_Serve args False" "\<not> path_exists (bx_path bx) (bg_files bg)"
proof -
  obtain fs where r0: "bg_reachable bx (bg_start bx fs)"
    and l0: "bg_load bx (bg_start bx fs) = Inr (bx_record bx)"
    using started [OF ok] by blast
  let ?b0 = "bg_start bx fs"
  let ?b1 = "?b0\<lparr>bg_worker := W_Save (claimed bx)\<rparr>"
  have r1: "bg_reachable bx ?b1"
    using bg_reachable.step [OF r0 bg_step.w_load] worker_loaded [OF l0] by (simp add: bg_start_def)
  let ?b2 = "?b1\<lparr>bg_stops := (bg_stops ?b1)(k := T_Check False)\<rparr>"
  have "bg_step bx ?b1 (stop_load bx k ?b1)" by (rule bg_step.t_load) (simp add: bg_start_def)
  moreover have "stop_load bx k ?b1 = ?b2" using l0 ok by (simp add: stop_load_def bg_context_ok_def)
  ultimately have r2: "bg_reachable bx ?b2" using r1 bg_reachable.step by metis
  obtain f where f: "worker_save bx (claimed bx) Written ?b2 = ?b2\<lparr>bg_files := f,
      bg_worker := W_Serve (worker_args (claimed bx)) False, bg_notice := N_Wait\<rparr>"
    "path_exists (bx_path bx) f"
    using worker_saved [OF ok, of ?b2] by blast
  let ?b3 = "?b2\<lparr>bg_files := f, bg_worker := W_Serve (worker_args (claimed bx)) False,
    bg_notice := N_Wait\<rparr>"
  have r3: "bg_reachable bx ?b3"
    using bg_reachable.step [OF r2 bg_step.w_save [of ?b2 "claimed bx" bx Written]] f(1) by simp
  let ?b4 = "?b3\<lparr>bg_stops := (bg_stops ?b3)(k := T_Unlink False)\<rparr>"
  have r4: "bg_reachable bx ?b4"
    using bg_reachable.step [OF r3 bg_step.t_check [of ?b3 k False]] f(2) by (simp add: stop_check_def)
  let ?b5 = "?b4\<lparr>bg_files := f(bx_path bx := None), bg_stops := (bg_stops ?b4)(k := T_Stopped False)\<rparr>"
  have r5: "bg_reachable bx ?b5"
    using bg_reachable.step [OF r4 bg_step.t_unlink [of ?b4 k False bx True]] f(2)
    by (simp add: stop_unlink_def remove_file_def)
  show thesis
    by (rule that [OF r5]) (simp_all add: path_exists_def)
qed

text \<open>A waiting task that loads the record before the worker's cleanup, and saves it after.\<close>

lemma ghost_run:
  assumes ok: "bg_context_ok bx"
  obtains bg r where "bg_reachable bx bg" "bg_worker bg = W_Clean" "bg_load bx bg = Inr r"
    "tr_pid r = bx_pid bx" "tr_state r = STATE_ACTIVE" "path_exists (bx_path bx) (bg_files bg)"
proof -
  obtain b where r2: "bg_reachable bx b" and b: "bg_worker b = W_Serve (worker_args (claimed bx)) False"
    "bg_notice b = N_Wait" "bg_load bx b = Inr (claimed bx)" "path_exists (bx_path bx) (bg_files b)"
    using serving_run [OF ok] by metis
  let ?b3 = "worker_report (Some 30001) b"
  have r3: "bg_reachable bx ?b3"
    by (rule bg_reachable.step [OF r2 bg_step.w_report [of _ "worker_args (claimed bx)" False]]) (simp_all add: b)
  let ?r = "(claimed bx)\<lparr>tr_remote_port := Some 30001, tr_state := STATE_ACTIVE\<rparr>"
  let ?b4 = "?b3\<lparr>bg_notice := N_Save ?r\<rparr>"
  have "notice_load bx 30001 ?b3 = ?b4" using b(3) by (simp add: notice_load_def worker_report_def)
  moreover have "bg_step bx ?b3 (notice_load bx 30001 ?b3)"
    by (rule bg_step.n_load) (simp_all add: worker_report_def worker_alive_def b)
  ultimately have r4: "bg_reachable bx ?b4" using r3 bg_reachable.step by metis
  have r5: "bg_reachable bx (worker_leave ?b4)"
    by (rule bg_reachable.step [OF r4 bg_step.w_leave [of _ "worker_args (claimed bx)" False]]) (simp add: worker_report_def b)
  have r6: "bg_reachable bx (worker_check bx (worker_leave ?b4))"
    by (rule bg_reachable.step [OF r5 bg_step.w_check]) (simp add: worker_leave_def)
  let ?b7 = "worker_unlink bx True (worker_check bx (worker_leave ?b4))"
  have r7: "bg_reachable bx ?b7"
    by (rule bg_reachable.step [OF r6 bg_step.w_unlink])
      (simp add: worker_report_def worker_leave_def worker_check_def b)
  have b7: "bg_worker ?b7 = W_Clean" "bg_notice ?b7 = N_Save ?r"
    by (simp_all add: worker_report_def worker_leave_def worker_check_def worker_unlink_def
        split: prod.split)
  have "wf_record ?r" "tr_id ?r = tr_id (bx_record bx)"
    using claimed_wf [OF ok] by (auto simp: wf_record_def STATE_ACTIVE_def valid_utf8_ascii)
  then obtain g where g: "bg_save bx ?r Written ?b7 = (None, ?b7\<lparr>bg_files := g\<rparr>)"
    "bg_load bx (?b7\<lparr>bg_files := g\<rparr>) = Inr ?r" "path_exists (bx_path bx) g"
    using bg_written [OF ok, of ?r ?b7] by blast
  have r8: "bg_reachable bx (notice_save bx ?r Written ?b7)"
    by (rule bg_reachable.step [OF r7 bg_step.n_save]) (rule b7(2))
  have last: "notice_save bx ?r Written ?b7 = ?b7\<lparr>bg_files := g, bg_notice := N_End\<rparr>"
    by (simp add: notice_save_def g(1))
  have load: "bg_load bx (?b7\<lparr>bg_files := g, bg_notice := N_End\<rparr>) = Inr ?r"
    using g(2) by (simp only: bg_load_cong)
  show thesis
    by (rule that [OF r8 [unfolded last] _ load])
      (use g(3) b7(1) in \<open>simp_all add: claimed_def\<close>)
qed

text \<open>A stop that finds the worker's process id and signals it.\<close>

lemma killed_run:
  assumes ok: "bg_context_ok bx"
  obtains bg where "bg_reachable bx bg" "bg_stops bg k = T_Check True"
proof -
  obtain b where r2: "bg_reachable bx b" and b: "bg_stops b = (\<lambda>_. T_Load)" "bg_load bx b = Inr (claimed bx)"
    using serving_run [OF ok] by metis
  have r3: "bg_reachable bx (stop_load bx k b)"
    by (rule bg_reachable.step [OF r2 bg_step.t_load]) (simp add: b)
  have "bx_pid bx \<noteq> 0" using ok by (simp add: bg_context_ok_def)
  then have t: "bg_stops (stop_load bx k b) k = T_Kill (bx_pid bx)"
    using b(2) by (simp add: stop_load_def claimed_def)
  have "bg_reachable bx (stop_kill bx k (bx_pid bx) True (stop_load bx k b))"
    by (rule bg_reachable.step [OF r3 bg_step.t_kill [OF t]])
  then show thesis by (rule that) (simp add: stop_kill_def Let_def)
qed

definition sample_bg :: bg_context where
  "sample_bg = \<lparr>bx_codec = record_codec, bx_env = registry_env, bx_record = sample_record,
     bx_path = sample_path, bx_pid = 4242\<rparr>"

lemma sample_bg_ok: "bg_context_ok sample_bg"
proof -
  have "tr_pid sample_record = 0" "tr_state sample_record = STATE_STARTING"
    by (simp_all add: sample_record_def)
  then show ?thesis
    using record_file.text_format_axioms by (simp add: bg_context_ok_def sample_bg_def)
qed

section \<open>Properties\<close>

text \<open>C37: the worker serves exactly the tunnel the user asked for: after \<open>start --detach\<close> has
  reported an id, the worker that loads the record of that id reads the ports, the protocol
  and the node of the command line.\<close>

theorem detached_as_asked:
  assumes "text_format tc record_json wf_record"
    and "wf_text node" and "valid_utf8 (take 8 uuid)"
    and "run_start tc env made uuid Written exe spawned run cmd True node fs = (Detached (Inr tid), fs')"
  shows "\<exists>r. record_load tc env made tid fs' = Inr r \<and> worker_args r = args_of cmd node \<and> tr_pid r = 0"
proof -
  let ?args = "args_of cmd node"
  let ?r = "new_record uuid ?args"
  have good: "wf_record ?r"
    using assms(2,3)
    by (auto simp: new_record_def wf_record_def protocol_name_def STATE_STARTING_def valid_utf8_ascii
        args_of_def split: protocol.split start_cmd.split)
  have "detach_tunnel tc env made uuid ?args Written exe spawned fs = (Inr tid, fs')"
    using assms(4) by (auto simp: run_start_def Let_def split: prod.splits)
  then have save: "record_save tc env made ?r Written fs = (None, fs')" "tid = tr_id ?r"
    by (auto simp: detach_tunnel_def Let_def split: prod.splits option.splits if_splits)
  then obtain path where "record_path env made (tr_id ?r) = Inr path"
    by (auto simp: record_save_def split: sum.splits)
  from record_saved(3) [OF assms(1) good this refl, of fs] save
  have "record_load tc env made tid fs' = Inr ?r" by simp
  moreover have "worker_args ?r = ?args"
    by (auto simp: worker_args_def new_record_def protocol_name_def args_of_def split: start_cmd.split)
  ultimately show ?thesis by (intro exI [of _ ?r]) (simp add: new_record_def)
qed

theorem detached_as_asked_witness:
  "\<exists>r. record_load record_codec registry_env True ''0a1b2c3d''
     (snd (run_start record_codec registry_env True ''0a1b2c3d4e'' Written True True
       (\<lambda>_ _ _. failed None No_Connection) (Start_Http 8080 None) True None Map.empty)) = Inr r \<and>
     worker_args r = args_of (Start_Http 8080 None) None"
proof -
  have "new_record ''0a1b2c3d4e'' (args_of (Start_Http 8080 None) None) = sample_record"
    by (simp add: new_record_def sample_record_def args_of_def protocol_name_def)
  then have "run_start record_codec registry_env True ''0a1b2c3d4e'' Written True True
      (\<lambda>_ _ _. failed None No_Connection) (Start_Http 8080 None) True None Map.empty = (Detached (Inr ''0a1b2c3d''), sample_registry)"
    using sample_registry_saved(1) by (simp add: run_start_def detach_tunnel_def)
  from detached_as_asked [OF record_file.text_format_axioms _ _ this] this show ?thesis
    by (auto simp: wf_text_def valid_utf8_ascii)
qed


lemma sample_bg_fields [simp]:
  "bx_record sample_bg = sample_record" "bx_pid sample_bg = 4242" "bx_path sample_bg = sample_path"
  "tr_local_port sample_record = 8080" "tr_state sample_record = STATE_STARTING"
  by (simp_all add: sample_bg_def sample_record_def)




text \<open>C26: a worker that ended cleanly leaves nothing behind, with one exception: a file can only
  be there if a port had been reported and the waiting task wrote it; what can be loaded from
  it is then an \<open>active\<close> record.\<close>

theorem clean_end_leaves_nothing:
  assumes "bg_context_ok bx" and "bg_reachable bx bg" and "bg_worker bg = W_Clean"
    and "path_exists (bx_path bx) (bg_files bg)"
  shows "bg_notice bg = N_End \<and> bg_port bg \<noteq> None \<and>
    (\<forall>r. bg_load bx bg = Inr r \<longrightarrow> tr_state r = STATE_ACTIVE)"
  using left_reachable [OF assms(1,2)] assms(3,4) by (simp add: left_ok_def)

theorem clean_end_leaves_nothing_witness:
  "\<exists>bg :: background. bg_worker bg = W_Clean \<and> bg_notice bg = N_End \<and> bg_port bg \<noteq> None"
proof -
  obtain bg where "bg_reachable sample_bg bg" "bg_worker bg = W_Clean"
    "path_exists (bx_path sample_bg) (bg_files bg)"
    using ghost_run [OF sample_bg_ok] by metis
  with clean_end_leaves_nothing [OF sample_bg_ok this] show ?thesis by blast
qed

text \<open>Two races that the registry does not exclude. A stop that loads the record before the
  worker has saved its process id signals nobody, yet reports success and takes the record
  of a worker that goes on serving, out of reach of any other stop. A waiting task that
  loads the record before the worker's cleanup and saves it afterwards leaves an \<open>active\<close>
  record of a process that has ended; the next stop signals whoever has that id by then.\<close>

lemma stop_races:
  assumes "bg_context_ok bx"
  shows "(\<exists>bg args. bg_reachable bx bg \<and> bg_stops bg k = T_Stopped False \<and>
      bg_worker bg = W_Serve args False \<and> (\<forall>r. bg_load bx bg \<noteq> Inr r)) \<and>
    (\<exists>bg r. bg_reachable bx bg \<and> bg_worker bg = W_Clean \<and> bg_load bx bg = Inr r \<and>
      tr_state r = STATE_ACTIVE \<and> tr_pid r = bx_pid bx)"
proof
  obtain bg args where "bg_reachable bx bg" "bg_stops bg k = T_Stopped False"
    "bg_worker bg = W_Serve args False" "\<not> path_exists (bx_path bx) (bg_files bg)"
    using missed_run [OF assms] .
  with bg_load_absent [OF assms this(4)] show "\<exists>bg args. bg_reachable bx bg \<and>
      bg_stops bg k = T_Stopped False \<and> bg_worker bg = W_Serve args False \<and> (\<forall>r. bg_load bx bg \<noteq> Inr r)"
    by blast
  obtain bg r where "bg_reachable bx bg" "bg_worker bg = W_Clean" "bg_load bx bg = Inr r"
    "tr_pid r = bx_pid bx" "tr_state r = STATE_ACTIVE"
    using ghost_run [OF assms] by metis
  then show "\<exists>bg r. bg_reachable bx bg \<and> bg_worker bg = W_Clean \<and> bg_load bx bg = Inr r \<and>
      tr_state r = STATE_ACTIVE \<and> tr_pid r = bx_pid bx" by blast
qed

lemma stop_races_sample:
  "\<exists>bg args. bg_reachable sample_bg bg \<and> bg_stops bg 0 = T_Stopped False \<and>
     bg_worker bg = W_Serve args False"
  using stop_races [OF sample_bg_ok, of 0] by blast

end
