(* ===== verification/Cli_Update.thy ===== *)
theory Cli_Update
  imports Rust_Text
begin

text \<open>
  The self-update, \<open>crates/cli/src/update.rs\<close> (the CLI does not declare this module yet: it is
  not part of the built program). \<open>semver\<close>'s parser and the order of its versions are
  parameters, and so are the answers of GitHub; the replacement of the executable by
  \<open>self_replace\<close> is a step that succeeds or leaves the executable as it was.
\<close>

section \<open>Names\<close>

definition DEFAULT_REPO :: string where
  "DEFAULT_REPO = ''llinguini/borehole''"

definition MAX_BINARY_BYTES :: nat where
  "MAX_BINARY_BYTES = 64 * 1024 * 1024"

definition repo :: "string option \<Rightarrow> string" where
  "repo var = (case var of Some s \<Rightarrow> if s \<noteq> [] then s else DEFAULT_REPO | None \<Rightarrow> DEFAULT_REPO)"

definition asset_name :: "string \<Rightarrow> string \<Rightarrow> string option" where
  "asset_name os arch =
     (if os = ''linux'' \<and> arch = ''x86_64'' then Some ''borehole-x86_64-unknown-linux-musl''
      else if os = ''macos'' \<and> arch = ''x86_64'' then Some ''borehole-x86_64-apple-darwin''
      else if os = ''macos'' \<and> arch = ''aarch64'' then Some ''borehole-aarch64-apple-darwin''
      else if os = ''windows'' \<and> arch = ''x86_64'' then Some ''borehole-x86_64-pc-windows-msvc.exe''
      else None)"

definition parse_version :: "(string \<Rightarrow> 'v option) \<Rightarrow> string \<Rightarrow> 'v option" where
  "parse_version semver s = semver (trim_start_matches (CHR ''v'') s)"

definition latest_url :: "string option \<Rightarrow> string" where
  "latest_url var = ''https://api.github.com/repos/'' @ repo var @ ''/releases/latest''"

definition asset_url :: "string option \<Rightarrow> string \<Rightarrow> string \<Rightarrow> string" where
  "asset_url var tag asset =
     ''https://github.com/'' @ repo var @ ''/releases/download/'' @ tag @ ''/'' @ asset"

section \<open>Checking and updating\<close>

datatype update_error =
    Bad_Version
  | No_Release
  | No_Asset
  | Download_Failed
  | Too_Large
  | No_Current_Exe
  | Staging_Failed
  | Replace_Failed

text \<open>What the update meets: the build's version and platform, \<open>BOREHOLE_REPO\<close>, the network (the
  tag of the latest release and the assets, by URL), and the outcomes of staging the new
  binary and of replacing the old one.\<close>

record update_world =
  uw_version :: string
  uw_os :: string
  uw_arch :: string
  uw_repo :: "string option"
  uw_latest :: "string \<Rightarrow> string option"
  uw_asset :: "string \<Rightarrow> string option"
  uw_current_exe :: bool
  uw_staged :: bool
  uw_replaced :: bool

definition fetch_latest_tag :: "update_world \<Rightarrow> string option" where
  "fetch_latest_tag uw = uw_latest uw (latest_url (uw_repo uw))"

text \<open>The newer version without its leading \<open>v\<close>, if there is one.\<close>

definition check_newer ::
    "(string \<Rightarrow> 'v :: linorder option) \<Rightarrow> update_world \<Rightarrow> update_error + string option" where
  "check_newer semver uw =
     (case parse_version semver (uw_version uw) of
        None \<Rightarrow> Inl Bad_Version
      | Some current \<Rightarrow>
          (case fetch_latest_tag uw of
             None \<Rightarrow> Inl No_Release
           | Some tag \<Rightarrow>
               (case parse_version semver tag of
                  None \<Rightarrow> Inl Bad_Version
                | Some latest \<Rightarrow>
                    Inr (if latest > current
                         then Some (trim_start_matches (CHR ''v'') tag) else None))))"

text \<open>\<open>read_to_vec\<close> fails past the limit. The result is the executable afterwards.\<close>

definition download_and_replace ::
    "update_world \<Rightarrow> string \<Rightarrow> string \<Rightarrow> update_error option \<times> string" where
  "download_and_replace uw tag exe =
     (case asset_name (uw_os uw) (uw_arch uw) of
        None \<Rightarrow> (Some No_Asset, exe)
      | Some asset \<Rightarrow>
          (case uw_asset uw (asset_url (uw_repo uw) tag asset) of
             None \<Rightarrow> (Some Download_Failed, exe)
           | Some bytes \<Rightarrow>
               if length bytes > MAX_BINARY_BYTES then (Some Too_Large, exe)
               else if \<not> uw_current_exe uw then (Some No_Current_Exe, exe)
               else if \<not> uw_staged uw then (Some Staging_Failed, exe)
               else if \<not> uw_replaced uw then (Some Replace_Failed, exe)
               else (None, bytes)))"

definition update_run ::
    "(string \<Rightarrow> 'v :: linorder option) \<Rightarrow> update_world \<Rightarrow> string \<Rightarrow> update_error option \<times> string" where
  "update_run semver uw exe =
     (case fetch_latest_tag uw of
        None \<Rightarrow> (Some No_Release, exe)
      | Some tag \<Rightarrow>
          (case parse_version semver tag of
             None \<Rightarrow> (Some Bad_Version, exe)
           | Some latest \<Rightarrow>
               (case parse_version semver (uw_version uw) of
                  None \<Rightarrow> (Some Bad_Version, exe)
                | Some current \<Rightarrow>
                    if latest \<le> current then (None, exe) else download_and_replace uw tag exe)))"

section \<open>Release versions\<close>

text \<open>The versions without pre-release or build part, which is all that releases use: three
  numbers in the precedence order of semantic versioning, as a sample instance of \<open>semver\<close>.\<close>

datatype version = Version (major: nat) (minor: nat) (patch: nat)

instantiation version :: linorder
begin

definition less_eq_version :: "version \<Rightarrow> version \<Rightarrow> bool" where
  "less_eq_version v w \<longleftrightarrow> major v < major w \<or> major v = major w \<and>
     (minor v < minor w \<or> minor v = minor w \<and> patch v \<le> patch w)"

definition less_version :: "version \<Rightarrow> version \<Rightarrow> bool" where
  "less_version v w \<longleftrightarrow> v \<le> w \<and> \<not> w \<le> (v :: version)"

instance
  by standard (auto simp: less_eq_version_def less_version_def version.expand)

end

definition sample_semver :: "string \<Rightarrow> version option" where
  "sample_semver s =
     (case split_on (CHR ''.'') s of
        [a, b, c] \<Rightarrow>
          (case (parse_digits 0 a, parse_digits 0 b, parse_digits 0 c) of
             (Some i, Some j, Some k) \<Rightarrow> Some (Version i j k)
           | _ \<Rightarrow> None)
      | _ \<Rightarrow> None)"

lemma sample_versions [simp]:
  "parse_version sample_semver ''0.2.0'' = Some (Version 0 2 0)"
  "parse_version sample_semver ''v0.10.0'' = Some (Version 0 10 0)"
  "\<not> Version 0 10 0 \<le> Version 0 2 0" "Version 0 2 0 < Version 0 10 0"
  by (simp_all add: parse_version_def sample_semver_def trim_start_matches_def digit_val_def
      less_eq_version_def less_version_def)

section \<open>Properties\<close>

text \<open>The self-update never downgrades and never half-installs: the executable changes only
  when the check reports a newer version, and then it is exactly the release's binary for
  this platform, within the size limit; after any error it is the old one.\<close>

lemma update_only_newer:
  "case update_run semver uw exe of (e, exe') \<Rightarrow>
     (exe' \<noteq> exe \<longrightarrow> e = None \<and> (\<exists>v. check_newer semver uw = Inr (Some v)) \<and>
       (\<exists>tag asset. fetch_latest_tag uw = Some tag \<and> asset_name (uw_os uw) (uw_arch uw) = Some asset \<and>
         uw_asset uw (asset_url (uw_repo uw) tag asset) = Some exe' \<and>
         length exe' \<le> MAX_BINARY_BYTES)) \<and>
     (e \<noteq> None \<longrightarrow> exe' = exe) \<and>
     (check_newer semver uw = Inr None \<longrightarrow> e = None \<and> exe' = exe)"
  by (auto simp: update_run_def check_newer_def download_and_replace_def split: option.splits)

lemma update_sample:
  fixes uw :: update_world
  defines "uw \<equiv> \<lparr>uw_version = ''0.2.0'', uw_os = ''linux'', uw_arch = ''x86_64'', uw_repo = None,
    uw_latest = \<lambda>_. Some ''v0.10.0'', uw_asset = \<lambda>_. Some ''new'',
    uw_current_exe = True, uw_staged = True, uw_replaced = True\<rparr>"
  shows "update_run sample_semver uw ''old'' = (None, ''new'') \<and>
    check_newer sample_semver uw = Inr (Some ''0.10.0'')"
proof -
  have run: "update_run sample_semver uw ''old'' = (None, ''new'')"
    by (simp add: uw_def update_run_def fetch_latest_tag_def download_and_replace_def asset_name_def MAX_BINARY_BYTES_def)
  with update_only_newer [where semver = sample_semver and uw = uw and exe = "''old''"]
  obtain v where "check_newer sample_semver uw = Inr (Some v)" by auto
  moreover from this have "v = ''0.10.0''"
    by (auto simp: uw_def check_newer_def fetch_latest_tag_def trim_start_matches_def
      split: if_splits)
  ultimately show ?thesis using run by simp
qed

end
