(* ===== verification/Splice.thy ===== *)
theory Splice
  imports Cli_Tunnel "HOL-Library.Sublist"
begin

text \<open>
  The proxies at the end of the rendezvous: \<open>run\<close> of \<open>crates/server/src/proxy.rs\<close>, \<open>pipe\<close> of
  \<open>crates/node/src/proxy.rs\<close> and the last step of \<open>handle_data_conn\<close> of
  \<open>crates/cli/src/tunnel.rs\<close>. They leave the work to \<open>copy_bidirectional\<close> of tokio, which is
  a parameter; \<open>copy_laws\<close> is what its documentation says. Log lines are not modelled.

  A socket is what its peer will send on it, to the end, and what has been written to it.
\<close>

section \<open>Sockets\<close>

record duplex =
  sd_input :: stream
  sd_output :: string

text \<open>A copier returns the number of bytes moved from the first socket to the second and
  back, or an error, and the two sockets as it leaves them.\<close>

type_synonym copier = "duplex \<Rightarrow> duplex \<Rightarrow> (nat \<times> nat) io_result \<times> duplex \<times> duplex"

text \<open>What arrives is a beginning of what was sent; a copy that ends well has seen the end of
  both streams and moved all of them.\<close>

definition copy_laws :: "copier \<Rightarrow> bool" where
  "copy_laws copy \<longleftrightarrow> (\<forall>a b r a' b'. copy a b = (r, a', b') \<longrightarrow>
     (\<exists>up down. sd_output b' = sd_output b @ up \<and> prefix up (sm_bytes (sd_input a)) \<and>
        sd_output a' = sd_output a @ down \<and> prefix down (sm_bytes (sd_input b)) \<and>
        (r \<noteq> Io_Err \<longrightarrow> r = Io_Ok (length up, length down) \<and>
           up = sm_bytes (sd_input a) \<and> down = sm_bytes (sd_input b) \<and>
           sm_end (sd_input a) = Closed \<and> sm_end (sd_input b) = Closed)))"

lemma copy_moves:
  assumes "copy_laws copy" and "copy a b = (r, a', b')"
  obtains up down where "sd_output b' = sd_output b @ up" "prefix up (sm_bytes (sd_input a))"
    "sd_output a' = sd_output a @ down" "prefix down (sm_bytes (sd_input b))"
    "r \<noteq> Io_Err \<Longrightarrow> up = sm_bytes (sd_input a) \<and> down = sm_bytes (sd_input b)"
  using assms unfolding copy_laws_def by blast

section \<open>Proxies\<close>

definition proxy_run :: "copier \<Rightarrow> duplex \<Rightarrow> duplex \<Rightarrow> unit io_result \<times> duplex \<times> duplex" where
  "proxy_run copy visitor data_conn =
     (case copy visitor data_conn of
        (Io_Ok (up, down), visitor', data_conn') \<Rightarrow> (Io_Ok (), visitor', data_conn')
      | (Io_Err, visitor', data_conn') \<Rightarrow> (Io_Err, visitor', data_conn'))"

text \<open>The node's proxy logs an error and drops it.\<close>

definition node_pipe :: "copier \<Rightarrow> duplex \<Rightarrow> duplex \<Rightarrow> duplex \<times> duplex" where
  "node_pipe copy a b =
     (case copy a b of
        (Io_Ok (up, down), a', b') \<Rightarrow> (a', b')
      | (Io_Err, a', b') \<Rightarrow> (a', b'))"

text \<open>The CLI: what \<open>cli_data_conn\<close> sent is on the connection before the copy starts.\<close>

definition cli_splice :: "copier \<Rightarrow> duplex \<Rightarrow> duplex \<Rightarrow> unit io_result \<times> duplex \<times> duplex" where
  "cli_splice copy server_conn local =
     (case copy server_conn local of
        (Io_Ok _, server_conn', local') \<Rightarrow> (Io_Ok (), server_conn', local')
      | (Io_Err, server_conn', local') \<Rightarrow> (Io_Err, server_conn', local'))"

lemma proxy_run_copy: "proxy_run copy a b = (case copy a b of (r, s) \<Rightarrow> (case r of Io_Ok _ \<Rightarrow> Io_Ok () | Io_Err \<Rightarrow> Io_Err, s))"
  by (auto simp: proxy_run_def split: prod.split io_result.split)

lemma cli_splice_proxy: "cli_splice = proxy_run"
  by (intro ext) (simp add: cli_splice_def proxy_run_def split: prod.split io_result.split)

lemma node_pipe_proxy: "node_pipe copy a b = snd (proxy_run copy a b)"
  by (simp add: node_pipe_def proxy_run_def split: prod.split io_result.split)

lemma proxy_moves:
  assumes "copy_laws copy" and "proxy_run copy a b = (r, a', b')"
  obtains up down where "sd_output b' = sd_output b @ up" "prefix up (sm_bytes (sd_input a))"
    "sd_output a' = sd_output a @ down" "prefix down (sm_bytes (sd_input b))"
    "r \<noteq> Io_Err \<Longrightarrow> up = sm_bytes (sd_input a) \<and> down = sm_bytes (sd_input b)"
proof -
  obtain s where s: "copy a b = (s, a', b')" "r \<noteq> Io_Err \<Longrightarrow> s \<noteq> Io_Err"
    using assms(2) by (cases "copy a b") (auto simp: proxy_run_copy split: io_result.splits)
  from copy_moves [OF assms(1) s(1)] obtain up down where "sd_output b' = sd_output b @ up"
    "prefix up (sm_bytes (sd_input a))" "sd_output a' = sd_output a @ down"
    "prefix down (sm_bytes (sd_input b))"
    "s \<noteq> Io_Err \<Longrightarrow> up = sm_bytes (sd_input a) \<and> down = sm_bytes (sd_input b)" by metis
  with s(2) show thesis by (intro that [of up down]) blast+
qed

section \<open>From end to end\<close>

lemma frame_taken:
  assumes "wire_codec cd" and "valid_utf8 i"
    and "cli_data_conn cd server_addr (i, node) connected written here = Spliced addr frame"
  shows "snd (serve_data_conn cd d \<lparr>sm_bytes = frame @ rest, sm_end = e\<rparr> rv) = \<lparr>sm_bytes = rest, sm_end = e\<rparr>"
proof -
  have "to_line cd (Data_Conn \<lparr>dc_conn_id = i\<rparr>) = Some frame"
    using assms(3) by (auto simp: cli_data_conn_def split: sum.splits option.splits if_splits)
  moreover have "wf_message (Data_Conn \<lparr>dc_conn_id = i\<rparr>)" using assms(2) by (simp add: wf_message_def)
  ultimately obtain line where "read_frame \<lparr>sm_bytes = frame @ rest, sm_end = e\<rparr> =
      (Io_Ok (Some line), \<lparr>sm_bytes = rest, sm_end = e\<rparr>)"
    using read_sent_frame [OF assms(1)] by metis
  then show ?thesis by (simp add: serve_data_conn_def)
qed

text \<open>C14: a tunnel is transparent, whether the visitor came to the server or to a node: behind the
  frame that identifies the connection, the visitor receives a beginning of what the local
  service sends and the local service a beginning of what the visitor sends, whatever fails
  on the way, no byte invented, dropped in between or taken from the frame; and when nothing
  fails each receives all of it.\<close>

theorem splice_transparent:
  assumes "wire_codec cd" and "copy_laws copy" and "valid_utf8 i"
    and "cli_data_conn cd server_addr (i, node) True True True = Spliced addr frame"
    and "cli_splice copy \<lparr>sd_input = from_server, sd_output = frame\<rparr> \<lparr>sd_input = service, sd_output = []\<rparr> =
      (r, server_conn, local)"
    and "proxy_run copy \<lparr>sd_input = visitor, sd_output = []\<rparr>
        \<lparr>sd_input = snd (serve_data_conn cd d from_cli rv), sd_output = []\<rparr> = (s, visitor_conn, data_conn)"
    and "prefix frame (sm_bytes from_cli)" and "prefix (sm_bytes from_cli) (sd_output server_conn)"
    and "prefix (sm_bytes from_server) (sd_output data_conn)"
  shows "node_pipe copy \<lparr>sd_input = visitor, sd_output = []\<rparr>
        \<lparr>sd_input = snd (serve_data_conn cd d from_cli rv), sd_output = []\<rparr> = (visitor_conn, data_conn) \<and>
    prefix (sd_output visitor_conn) (sm_bytes service) \<and> prefix (sd_output local) (sm_bytes visitor) \<and>
    (r = Io_Ok () \<and> s = Io_Ok () \<and> sm_bytes from_cli = sd_output server_conn \<and>
      sm_bytes from_server = sd_output data_conn \<longrightarrow>
      sd_output visitor_conn = sm_bytes service \<and> sd_output local = sm_bytes visitor)"
proof -
  obtain rest where rest: "sm_bytes from_cli = frame @ rest" using assms(7) by (auto elim: prefixE)
  with frame_taken [OF assms(1,3,4), of d rest "sm_end from_cli" rv]
  have taken: "sm_bytes (snd (serve_data_conn cd d from_cli rv)) = rest"
    by (metis stream.surjective stream.select_convs(1) old.unit.exhaust)
  obtain up down where cli: "sd_output local = up" "prefix up (sm_bytes from_server)"
      "sd_output server_conn = frame @ down" "prefix down (sm_bytes service)"
      "r \<noteq> Io_Err \<Longrightarrow> up = sm_bytes from_server \<and> down = sm_bytes service"
    using proxy_moves [OF assms(2) assms(5) [unfolded cli_splice_proxy]] by auto
  obtain req rep where server: "sd_output data_conn = req" "prefix req (sm_bytes visitor)"
      "sd_output visitor_conn = rep" "prefix rep rest"
      "s \<noteq> Io_Err \<Longrightarrow> req = sm_bytes visitor \<and> rep = rest"
    using proxy_moves [OF assms(2,6)] taken by auto
  have "prefix rest down" using assms(8) rest cli(3) by simp
  with server(3,4) cli(4) have "prefix (sd_output visitor_conn) (sm_bytes service)"
    by (metis prefix_order.trans)
  moreover have "prefix (sd_output local) (sm_bytes visitor)"
    using cli(1,2) assms(9) server(1,2) by (metis prefix_order.trans)
  ultimately show ?thesis
    using cli server rest assms(6) by (auto simp: node_pipe_proxy)
qed

text \<open>A copier that moves all or nothing.\<close>

definition copy_all :: copier where
  "copy_all a b =
     (if sm_end (sd_input a) = Closed \<and> sm_end (sd_input b) = Closed
      then (Io_Ok (length (sm_bytes (sd_input a)), length (sm_bytes (sd_input b))),
        a\<lparr>sd_output := sd_output a @ sm_bytes (sd_input b)\<rparr>,
        b\<lparr>sd_output := sd_output b @ sm_bytes (sd_input a)\<rparr>)
      else (Io_Err, a, b))"

lemma copy_all_laws: "copy_laws copy_all"
  unfolding copy_laws_def by (auto simp: copy_all_def)

theorem splice_transparent_witness:
  "\<exists>frame from_cli visitor_conn data_conn.
     cli_data_conn json_codec ''s:7000'' (''k'', Some (''h'', 7002)) True True True =
       Spliced (''h:'' @ show_u16 7002) frame \<and>
     sm_bytes from_cli = frame @ ''pong'' \<and>
     node_pipe copy_all \<lparr>sd_input = \<lparr>sm_bytes = ''ping'', sm_end = Closed\<rparr>, sd_output = []\<rparr>
       \<lparr>sd_input = snd (serve_data_conn json_codec 4 from_cli rv_new), sd_output = []\<rparr> =
       (visitor_conn, data_conn) \<and>
     sd_output visitor_conn = ''pong''"
proof -
  have "wf_message (Data_Conn \<lparr>dc_conn_id = ''k''\<rparr>)" by (simp add: wf_message_def valid_utf8_ascii)
  then obtain frame where f: "to_line json_codec (Data_Conn \<lparr>dc_conn_id = ''k''\<rparr>) = Some frame"
    using sent_line [OF json.wire_codec_axioms] by metis
  then have spliced: "cli_data_conn json_codec ''s:7000'' (''k'', Some (''h'', 7002)) True True True =
       Spliced (''h:'' @ show_u16 7002) frame"
    by (simp add: cli_data_conn_def data_endpoint_def)
  let ?ping = "\<lparr>sm_bytes = ''ping'', sm_end = Closed\<rparr>" and ?pong = "\<lparr>sm_bytes = ''pong'', sm_end = Closed\<rparr>"
  let ?from_cli = "\<lparr>sm_bytes = frame @ ''pong'', sm_end = Closed\<rparr>"
  have utf8: "valid_utf8 ''k''" by (simp add: valid_utf8_ascii)
  have taken: "snd (serve_data_conn json_codec 4 ?from_cli rv_new) = ?pong"
    by (rule frame_taken [OF json.wire_codec_axioms utf8 spliced])
  have "cli_splice copy_all \<lparr>sd_input = ?ping, sd_output = frame\<rparr> \<lparr>sd_input = ?pong, sd_output = []\<rparr> =
      (Io_Ok (), \<lparr>sd_input = ?ping, sd_output = frame @ ''pong''\<rparr>, \<lparr>sd_input = ?pong, sd_output = ''ping''\<rparr>)"
    by (simp add: cli_splice_def copy_all_def)
  moreover have "proxy_run copy_all \<lparr>sd_input = ?ping, sd_output = []\<rparr>
      \<lparr>sd_input = snd (serve_data_conn json_codec 4 ?from_cli rv_new), sd_output = []\<rparr> =
      (Io_Ok (), \<lparr>sd_input = ?ping, sd_output = ''pong''\<rparr>, \<lparr>sd_input = ?pong, sd_output = ''ping''\<rparr>)"
    by (simp add: taken proxy_run_def copy_all_def)
  ultimately have "node_pipe copy_all \<lparr>sd_input = ?ping, sd_output = []\<rparr>
       \<lparr>sd_input = snd (serve_data_conn json_codec 4 ?from_cli rv_new), sd_output = []\<rparr> =
       (\<lparr>sd_input = ?ping, sd_output = ''pong''\<rparr>, \<lparr>sd_input = ?pong, sd_output = ''ping''\<rparr>)"
    using splice_transparent [OF json.wire_codec_axioms copy_all_laws utf8 spliced] by simp
  with spliced show ?thesis by (intro exI [of _ frame] exI [of _ ?from_cli]) auto
qed

end
