(* ===== verification/Spec2Isabelle.thy ===== *)
theory Spec2Isabelle
  imports Startup Cli_Main Control_Heard Control_Ports Control_Events Control_Ends Mesh_Agreement Cli_Login
    Cli_Background_Properties Cli_Update Splice
begin

text \<open>
  A verification library for borehole, a reverse tunnel: a CLI behind a firewall asks a server
  for a public port; visitors of that port are spliced, connection by connection, to a data
  connection that the CLI opens to the server or to an edge node, and from there to a local
  service. Server, node agent and CLI are separate programs that meet on three wires: the
  control channel (JSON lines over TLS), the plain data port, and the HTTP API of the
  dashboard. The Rust sources are under \<open>src/crates/\<close>; file names below are relative to it.

  Theories, by part of the program.

  \<^bold>\<open>Wire.\<close>
  \<^item> \<open>Prelude\<close>, \<open>Rust_Text\<close>, \<open>Rust_Utf8\<close>: the parts of Rust's standard library that the program
    computes with. A Rust string is the list of its UTF-8 bytes, \<open>u16\<close> is \<open>16 word\<close>.
  \<^item> \<open>Proto\<close>: \<open>common/src/proto.rs\<close>. \<open>serde_json\<close> is a parameter (\<open>codec\<close>); what is relied on
    is the locale \<open>wire_codec\<close>. \<open>Json_Reference\<close> is a complete printer and parser for the
    messages that satisfies it, and the instance in all witnesses.
  \<^item> \<open>Framing\<close>: the readers and writers of frames in \<open>server/src/control.rs\<close> and
    \<open>node/src/main.rs\<close> over a byte stream that ends cleanly or broken. The fuel of
    \<open>read_messages\<close> bounds the number of lines; one more than the number of messages sent suffices.

  \<^bold>\<open>Server.\<close>
  \<^item> \<open>Port_Manager\<close> (\<open>port_mgr.rs\<close>, interface \<open>port_pool\<close>), \<open>Node_Manager\<close> (\<open>node_manager.rs\<close>),
    \<open>History\<close> (\<open>history.rs\<close>), \<open>Events\<close> (\<open>events.rs\<close>), \<open>Addresses\<close> (\<open>data_port\<close>,
    \<open>control_host\<close>, and \<open>host_of\<close>, \<open>data_addr_of\<close> of the CLI): one record per component, one
    definition per method; a method is one critical section.
  \<^item> \<open>Rendezvous\<close>, \<open>Data_Port\<close>: the table of pending visitors, the oneshot channels, the visitor
    tasks with their timeout and \<open>handle_data_conn\<close>, as a step relation over all interleavings.
    The node agent runs the same code, with the additional case that a task is aborted.
  \<^item> \<open>Server_State\<close>: \<open>ServerState\<close> of \<open>control.rs\<close>. \<open>Control\<close>: \<open>handle_client\<close>, \<open>handle_cli\<close> with
    both serving paths, \<open>handle_node\<close> and \<open>forward_visitor\<close>; a task is a program point with
    the locals that are live there, and a step is what it does between two awaits. The system
    (\<open>sys_reachable\<close>) interleaves all tasks, the data port and the API.
  \<^item> \<open>Auth\<close>, \<open>Dashboard\<close>, \<open>Http_Routes\<close>: \<open>api/*.rs\<close> and the routes of \<open>main.rs\<close>, with the
    embedded dashboard. \<open>Startup\<close>: \<open>main.rs\<close> and \<open>config.rs\<close> of server and node.
  \<^item> \<open>Control_Facts\<close>, \<open>Control_Ports\<close>, \<open>Control_Tunnels\<close>, \<open>Control_Events\<close>, \<open>Control_Visitors\<close>,
    \<open>Control_Nodes\<close>, \<open>Control_Wire\<close>, \<open>Control_Orders\<close>, \<open>Control_Heard\<close>, \<open>Control_Ends\<close>: invariants
    of the system by rule induction, each with its own view of a task (the port it holds, the
    tunnel it has listed, what it has told the dashboard, the visitor it announces, the node
    it is counted in, what its CLI has heard, what its node has been ordered, its distance
    from the end). \<open>Control_Sample\<close> and \<open>Control_Mesh\<close> are concrete runs for the witnesses.

  \<^bold>\<open>Node agent.\<close> \<open>Node_Agent\<close>: \<open>node/src/main.rs\<close>, as steps of the session, of the accept task
    of each tunnel and of the data port; \<open>Node_Agent_Facts\<close> and \<open>Node_Agent_Properties\<close> show
    that orders refine a map from tunnels to ports, and that listeners and pending visitors
    follow it up to the delay of an abort. \<open>Mesh_Agreement\<close> puts a session of the node behind
    the server: what it listens for against the table, and the one order of frames that breaks it.

  \<^bold>\<open>CLI.\<close>
  \<^item> \<open>Cli_Files\<close> (files and JSON on disk, locale \<open>text_format\<close>), \<open>Cli_Config\<close> (\<open>config.rs\<close> and the
    commands config and login), \<open>Url_Codec\<close> (the login callback), \<open>Cli_Login\<close> (login from end
    to end with the server's page).
  \<^item> \<open>Cli_Tunnel\<close>: \<open>tunnel.rs\<close> and the retries of \<open>main.rs\<close>: at most four runs, which is proved
    and not assumed. \<open>Cli_Records\<close> (\<open>tunnels.rs\<close>), \<open>Cli_List\<close> (\<open>run_list\<close>), \<open>Cli_Background\<close>
    with its \<open>_Facts\<close> and \<open>_Properties\<close>: the worker, its waiting task and concurrent stop
    commands on the shared record files. \<open>Cli_Main\<close>: the commands and the dispatch of \<open>main\<close>.
    \<open>Cli_Update\<close>: \<open>update.rs\<close>.
  \<^item> \<open>Splice\<close>: the proxies of all three programs (\<open>proxy.rs\<close>, the end of \<open>handle_data_conn\<close>), from
    the opening frame of the CLI to the last byte at either end.

  This theory holds the properties that span the server and the CLI: the two agree on every
  tunnel without a node, and on one with a node if the confirmation is the first frame, and
  what a visitor that arrives too early does.

  Interfaces. \<open>port_pool\<close>, \<open>load_registry\<close>, \<open>capped_log\<close>, \<open>wire_codec\<close> and \<open>text_format\<close> are
  locales, interpreted on the port manager, the node manager and the two history buffers of
  the code, on the reference codec and on the two file formats of the CLI. The
  other parameters are functions with named assumptions: \<open>auth_lib\<close> (SHA-256, JWT, RFC 3339;
  \<open>jwt_ok\<close>), \<open>os_bind\<close> (\<open>bind_laws\<close>), the decoders of axum (\<open>extractors\<close>), PEM and rustls
  (\<open>tls_lib\<close>), the host name check of rustls, \<open>copy_bidirectional\<close> of tokio (\<open>copy_laws\<close>), \<open>semver\<close>
  and \<open>chrono\<close>. The clock, fresh UUIDs,
  random choices, map iteration orders and the outcomes of socket and file operations are
  arguments of the step that meets them; fresh UUIDs are assumed not to repeat.

  Loops. Recursive functions end by structure or by a measure. Loops that run until a peer goes
  away are step relations; that a task which leaves its loop also ends, and returns all that it
  held, is proved. \<open>html_unescape\<close> has the length of its argument plus
  one as fuel, \<open>parse_members\<close> the length of its input, which always suffices.

  Not modelled: TLS itself, and the verifiers of CLI and node, which answer yes to every
  certificate and signature, so that who the server is rests on the network alone; tracing and
  terminal output other than the list; opening a browser; clap's parsing of the command line;
  \<open>Debug\<close> of \<open>NodeInfo\<close>; the signals of Windows; build scripts, the web
  front end and packaging. The rest of the sources that no definition covers is imports,
  attributes, comments and unit tests.
\<close>

section \<open>Server and CLI together\<close>

lemma unexpected_first:
  assumes "wire_codec cd" and "wf_message (New_Conn nc)"
  shows "registered_run cd ready request
      (ap\<lparr>ap_input := \<lparr>sm_bytes = send_all cd (New_Conn nc # rest) [], sm_end = e\<rparr>\<rparr>) =
    failed (Some request) Unexpected_Reply"
proof -
  obtain line where l: "to_line cd (New_Conn nc) = Some (line @ [newline])" "newline \<notin> set line"
      "valid_utf8 line" "from_line cd (line @ [newline]) = Some (New_Conn nc)"
    using sent_line [OF assms] by metis
  have "send_all cd (New_Conn nc # rest) [] = line @ newline # send_all cd rest []"
    using send_all_Cons [OF l(1), of rest] by simp
  with read_line_line [OF l(2,3), of "send_all cd rest []" e] l(4) show ?thesis
    by (simp add: registered_run_def cli_verdict_def del: send_all.simps)
qed

lemma announced_notices:
  "announced (map visitor_notice ids) = map (\<lambda>i. (i, None)) ids"
  by (induction ids) (simp_all add: visitor_notice_def option_zip_def)

lemma wf_notices:
  "\<forall>i \<in> set ids. valid_utf8 i \<Longrightarrow> \<forall>m \<in> set (confirmation x # map visitor_notice ids). wf_message m"
  by (auto simp: confirmation_def visitor_notice_def wf_message_def option_json_def port_json_def
      valid_utf8_ascii)

text \<open>C10: server and CLI agree on a tunnel without a node, in every state the server can reach and
  whatever its other tasks do: the CLI that reads what has been sent to it reports exactly the
  port that its task holds in the pool, and starts one data connection to the server for each
  visitor announced, in order and no other; each of them is a visitor of the server's table.\<close>

theorem direct_tunnel_agrees:
  assumes "sys_reachable cd lib cfg sys" and "sy_cli sys c = Some t"
    and "pc_confirmed (ct_pc t) = Some x"
    and "wire_codec cd" and "\<forall>i \<in> set (notices sys c). valid_utf8 i"
    and "ap_input ap = \<lparr>sm_bytes = send_all cd (sy_sent sys c) [], sm_end = e\<rparr>"
    and "ap_interrupt ap = None"
  shows "registered_run cd ready request ap =
      \<lparr>oc_request = Some request, oc_ready = if ready then Some (tc_port x) else None,
        oc_visitors = map (\<lambda>i. (i, None)) (notices sys c), oc_result = Some (end_error e)\<rparr> \<and>
    holds sys c = Some (tc_port x) \<and> tc_port x \<notin> available (sv_port_mgr (sy_server sys)) \<and>
    (\<forall>i \<in> set (notices sys c). \<exists>v vs. rv_visitors (sv_pending (sy_server sys)) v = Some vs \<and>
      vs_conn_id vs = i)"
proof (intro conjI)
  have "ap_input ap = \<lparr>sm_bytes = send_all cd (confirmation x # map visitor_notice (notices sys c)) [],
      sm_end = e\<rparr>" using assms(6) sent_confirmed [OF assms(1-3)] by simp
  from registered_run_messages [OF assms(4) _ this [unfolded confirmation_def] assms(7)]
    wf_notices [OF assms(5), of x]
  show "registered_run cd ready request ap =
      \<lparr>oc_request = Some request, oc_ready = if ready then Some (tc_port x) else None,
        oc_visitors = map (\<lambda>i. (i, None)) (notices sys c), oc_result = Some (end_error e)\<rparr>"
    by (simp add: confirmation_def announced_notices del: send_all.simps)
  have "pc_ctx (ct_pc t) = Some x" using assms(3) by (cases "ct_pc t") simp_all
  then show held: "holds sys c = Some (tc_port x)" using assms(2) by (simp add: holds_def ctx_of_def)
  have "available (sv_port_mgr (sy_server sys)) \<inter> ran (holds sys) = {}"
    using ports_ok_reachable [OF assms(1)] by (simp add: ports_ok_def pm.leased_def pm.partitioned_def)
  with held show "tc_port x \<notin> available (sv_port_mgr (sy_server sys))" by (auto simp: ran_def)
  show "\<forall>i \<in> set (notices sys c). \<exists>v vs. rv_visitors (sv_pending (sy_server sys)) v = Some vs \<and>
      vs_conn_id vs = i"
    using visitors_ok_reachable [OF assms(1)] unfolding visitors_ok_def announced_ok_def Let_def by blast
qed

lemma sample_announced_state:
  "sy_cli (sample_announced lib) 7 = Some \<lparr>ct_register = sample_register, ct_pc = K_Serve sample_ctx\<rparr>"
  "notices (sample_announced lib) 7 = [''9'']" "tc_port sample_ctx = 30001"
  by (simp_all add: sample_announced_def sample_accepted_def sample_served_def sample_sys_def
      cli_step_def step_serve_def step_notify_def sample_io_def notices_deliver notices_def
      deliver_sent sample_registered_def sample_ctx_def List.map_filter_simps)

theorem direct_tunnel_agrees_witness:
  "\<forall>request. registered_run json_codec True request
     (sample_attempt (send_all json_codec (sy_sent (sample_announced plain_lib) 7) [])) =
   \<lparr>oc_request = Some request, oc_ready = Some 30001, oc_visitors = [(''9'', None)],
     oc_result = Some Server_Gone\<rparr>"
proof
  fix request
  let ?ap = "sample_attempt (send_all json_codec (sy_sent (sample_announced plain_lib) 7) [])"
  have "ap_input ?ap = \<lparr>sm_bytes = send_all json_codec (sy_sent (sample_announced plain_lib) 7) [],
      sm_end = Closed\<rparr>" "ap_interrupt ?ap = None" by (simp_all add: sample_attempt_def)
  with direct_tunnel_agrees [OF sample_announced_reachable sample_announced_state(1) _
      json.wire_codec_axioms, where ap = ?ap and e = Closed and ready = True and request = request]
  show "registered_run json_codec True request ?ap =
     \<lparr>oc_request = Some request, oc_ready = Some 30001, oc_visitors = [(''9'', None)],
       oc_result = Some Server_Gone\<rparr>"
    by (simp add: sample_announced_state end_error_def valid_utf8_ascii del: send_all.simps)
qed

text \<open>C11: server, node and CLI agree on a tunnel with a node: when the confirmation is the first
  frame sent to the CLI, everything after it is a visitor of this tunnel's node; the CLI that
  reads it reports exactly the port that its task holds, and starts one data connection for
  each visitor, in order, to the data address under which that node has registered.\<close>

theorem node_tunnel_agrees:
  assumes "sys_reachable cd lib cfg sys" and "sy_cli sys c = Some t"
    and "pc_ordered (ct_pc t) = Some (x, n)" and "sy_sent sys c = Registered r # ms"
    and "wire_codec cd" and "\<forall>m \<in> set (sy_sent sys c). wf_message m"
    and "ap_input ap = \<lparr>sm_bytes = send_all cd (sy_sent sys c) [], sm_end = e\<rparr>"
    and "ap_interrupt ap = None"
  shows "(\<exists>ids. ms = map (node_notice n) ids \<and> registered_run cd ready request ap =
      \<lparr>oc_request = Some request, oc_ready = if ready then Some (tc_port x) else None,
        oc_visitors = map (\<lambda>i. (i, Some (ni_host n, ni_data_port n))) ids,
        oc_result = Some (end_error e)\<rparr>) \<and>
    holds sys c = Some (tc_port x) \<and>
    (\<exists>nt. sy_node sys (ni_tx n) = Some nt \<and> ni_host n = nt_host nt \<and>
      ni_data_port n = rn_data_port (nt_register nt))"
proof (intro conjI)
  from sent_via_node [OF assms(1-4)] obtain ids where
    r: "Registered r = advertisement x n" and ms: "ms = map (node_notice n) ids" by blast
  have "announced (map (node_notice n) ids) = map (\<lambda>i. (i, Some (ni_host n, ni_data_port n))) ids"
    by (induction ids) (simp_all add: node_notice_def option_zip_def)
  moreover have "rd_remote_port r = tc_port x" using r by (simp add: advertisement_def)
  ultimately have "registered_run cd ready request ap =
      \<lparr>oc_request = Some request, oc_ready = if ready then Some (tc_port x) else None,
        oc_visitors = map (\<lambda>i. (i, Some (ni_host n, ni_data_port n))) ids, oc_result = Some (end_error e)\<rparr>"
    using registered_run_messages [OF assms(5) assms(6) [unfolded assms(4)]
      assms(7) [unfolded assms(4)] assms(8)] ms by simp
  with ms show "\<exists>ids. ms = map (node_notice n) ids \<and> registered_run cd ready request ap =
      \<lparr>oc_request = Some request, oc_ready = if ready then Some (tc_port x) else None,
        oc_visitors = map (\<lambda>i. (i, Some (ni_host n, ni_data_port n))) ids,
        oc_result = Some (end_error e)\<rparr>" by blast
  have pc: "pc_ctx (ct_pc t) = Some x" "pc_node (ct_pc t) = Some n"
    using pc_ordered_ctx [OF assms(3)] by simp_all
  then show "holds sys c = Some (tc_port x)" using assms(2) by (simp add: holds_def ctx_of_def)
  from routes_okD(1) [OF routes_ok_reachable [OF assms(1)] assms(2) pc(2)]
  show "\<exists>nt. sy_node sys (ni_tx n) = Some nt \<and> ni_host n = nt_host nt \<and>
      ni_data_port n = rn_data_port (nt_register nt)"
    by (auto simp: node_behind_def serves_def)
qed

theorem node_tunnel_agrees_witness:
  "\<forall>request. registered_run json_codec True request
     (sample_attempt (send_all json_codec (sy_sent (mesh_served plain_lib) 7) [])) =
   \<lparr>oc_request = Some request, oc_ready = Some 30001, oc_visitors = [(''k'', Some (''h'', 7002))],
     oc_result = Some Server_Gone\<rparr>"
proof
  fix request
  let ?sys = "mesh_served plain_lib" and ?r = "\<lparr>rd_remote_port = 30001, rd_node_host = Some ''h'', rd_node_port = Some 7002\<rparr>"
  let ?ap = "sample_attempt (send_all json_codec (sy_sent ?sys 7) [])"
  have cli: "sy_cli ?sys 7 = Some \<lparr>ct_register = sample_register, ct_pc = K_Node_Serve sample_ctx mesh_info\<rparr>"
    and sent: "sy_sent ?sys 7 = Registered ?r # [mesh_notice]"
    by (simp_all add: mesh_served_def mesh_advert_def)
  have wf: "\<forall>m \<in> set (sy_sent ?sys 7). wf_message m"
    by (simp add: sent mesh_notice_def wf_message_def option_json_def port_json_def valid_utf8_ascii)
  have ap: "ap_input ?ap = \<lparr>sm_bytes = send_all json_codec (sy_sent ?sys 7) [], sm_end = Closed\<rparr>"
    "ap_interrupt ?ap = None" by (simp_all add: sample_attempt_def)
  have pc: "pc_ordered (ct_pc \<lparr>ct_register = sample_register, ct_pc = K_Node_Serve sample_ctx mesh_info\<rparr>) =
      Some (sample_ctx, mesh_info)" by simp
  from node_tunnel_agrees [OF mesh_served_reachable cli pc sent json.wire_codec_axioms wf ap,
      of True request, THEN conjunct1]
  obtain ids where "[mesh_notice] = map (node_notice mesh_info) ids" and
    run: "registered_run json_codec True request ?ap =
      \<lparr>oc_request = Some request, oc_ready = Some (tc_port sample_ctx),
        oc_visitors = map (\<lambda>i. (i, Some (ni_host mesh_info, ni_data_port mesh_info))) ids,
        oc_result = Some (end_error Closed)\<rparr>" by (elim exE conjE) simp
  then have "ids = [''k'']" by (auto simp: mesh_notice_def node_notice_def)
  with run show "registered_run json_codec True request ?ap =
     \<lparr>oc_request = Some request, oc_ready = Some 30001, oc_visitors = [(''k'', Some (''h'', 7002))],
       oc_result = Some Server_Gone\<rparr>"
    by (simp add: sample_ctx_def mesh_info_def end_error_def)
qed

text \<open>A visitor can cost a user the tunnel: the server reaches a state in which a tunnel with
  a node is granted and routed to a CLI that has been sent nothing yet but the notice of a
  visitor; whatever the server sends it afterwards, the CLI takes this first frame for a
  failure, gives up the run and serves nobody.\<close>

lemma visitor_before_registration:
  "\<exists>sys. sys_reachable json_codec lib sample_config sys \<and>
     (\<exists>i te host port. sv_active_tunnels (sy_server sys) i = Some te \<and> te_route te = Some (7, host, port)) \<and>
     (\<forall>ready request ap rest e. registered_run json_codec ready request
        (ap\<lparr>ap_input := \<lparr>sm_bytes = send_all json_codec (sy_sent sys 7 @ rest) [], sm_end = e\<rparr>\<rparr>) =
        failed (Some request) Unexpected_Reply)"
proof (intro exI conjI allI)
  show "sys_reachable json_codec lib sample_config mesh_raced" by (rule mesh_raced_reachable)
  show "sv_active_tunnels (sy_server mesh_raced) ''3'' = Some mesh_tunnel"
    by (simp add: mesh_raced_def)
  show "te_route mesh_tunnel = Some (7, ''h'', 7002)" by (rule mesh_route)
next
  fix ready request ap rest e
  have "sy_sent mesh_raced 7 = [mesh_notice]" by (simp add: mesh_raced_def)
  moreover have "wf_message mesh_notice"
    by (simp add: mesh_notice_def wf_message_def option_json_def port_json_def valid_utf8_ascii)
  ultimately show "registered_run json_codec ready request
      (ap\<lparr>ap_input := \<lparr>sm_bytes = send_all json_codec (sy_sent mesh_raced 7 @ rest) [], sm_end = e\<rparr>\<rparr>) =
        failed (Some request) Unexpected_Reply"
    using unexpected_first [OF json.wire_codec_axioms, where rest = rest] unfolding mesh_notice_def
    by (simp del: send_all.simps)
qed

end
